theory Spec2Isabelle
  imports Complex_Main "HOL-Library.Word" "HOL-Library.Char_ord" "HOL-Library.List_Lexorder"
begin

unbundle bit_operations_syntax

section \<open>JavaScript numbers and strings\<close>

text \<open>
  The TypeScript sources compute with \<open>number\<close>. Pane counts, cell widths and heights
  are integers far below \<open>2 ^ 53\<close>, where the double arithmetic of \<open>+\<close>, \<open>-\<close>, \<open>*\<close>,
  \<open>Math.floor\<close> and \<open>Math.ceil\<close> of a quotient is exact, so they are modelled as \<open>int\<close>.
  Strings are \<open>string\<close>; pane ids, slugs and layout descriptors are ASCII.
\<close>

text \<open>\<open>a % b\<close>: the remainder takes the sign of the dividend.\<close>

definition js_rem :: "int \<Rightarrow> int \<Rightarrow> int" where
  "js_rem a b = sgn a * (\<bar>a\<bar> mod \<bar>b\<bar>)"

text \<open>\<open>Math.ceil(a / b)\<close> for \<open>b \<noteq> 0\<close> (HOL's \<open>div\<close> on \<open>int\<close> is the floor).\<close>

definition ceil_div :: "int \<Rightarrow> int \<Rightarrow> int" where
  "ceil_div a b = - ((- a) div b)"

text \<open>Decimal rendering of a number in a template literal, \<open>`${n}`\<close>.\<close>

text \<open>The digit characters of \<open>Number.prototype.toString\<close>, for a digit value below 16.\<close>

definition digitChar :: "nat \<Rightarrow> char" where
  "digitChar d = ''0123456789abcdef'' ! d"

fun showNat :: "nat \<Rightarrow> string" where
  "showNat n = (if n < 10 then [digitChar n]
                else showNat (n div 10) @ [digitChar (n mod 10)])"

declare showNat.simps [simp del]

definition showInt :: "int \<Rightarrow> string" where
  "showInt i = (if i < 0 then CHR ''-'' # showNat (nat (- i)) else showNat (nat i))"

section \<open>LayoutCalculator (src/layout/LayoutCalculator.ts)\<close>

record LayoutConfig =
  SIDEBAR_WIDTH :: int
  MIN_COMFORTABLE_WIDTH :: int
  MAX_COMFORTABLE_WIDTH :: int
  MIN_COMFORTABLE_HEIGHT :: int

record LayoutConfiguration =
  cols :: int
  rows :: int
  windowWidth :: int
  paneDistribution :: "int list"
  actualPaneWidth :: rat

text \<open>
  \<open>distributePanes\<close>: the loop \<open>for (i = 0; i < cols; i++)\<close> pushes one entry per column;
  it does not run when \<open>cols \<le> 0\<close>.
\<close>

definition distributePanes :: "int \<Rightarrow> int \<Rightarrow> int list" where
  "distributePanes numPanes ncols =
     (let basePerCol = numPanes div ncols;
          remainder = js_rem numPanes ncols
      in map (\<lambda>i. basePerCol + (if int i < remainder then 1 else 0)) [0..<nat ncols])"

text \<open>
  \<open>scoreLayout\<close>. The three factors are doubles in the source; the model computes the
  product exactly, over \<open>rat\<close> (\<open>0.8\<close> is \<open>4/5\<close>). \<open>(n % cols) || cols\<close> picks \<open>cols\<close> when
  the remainder is \<open>0\<close>.
\<close>

definition scoreLayout :: "LayoutConfig \<Rightarrow> int \<Rightarrow> int \<Rightarrow> int \<Rightarrow> rat \<Rightarrow> int \<Rightarrow> int \<Rightarrow> rat" where
  "scoreLayout cfg numContentPanes ncols nrows paneWidth paneHeight terminalHeight =
     (let panesInLastRow = (if js_rem numContentPanes ncols = 0 then ncols
                            else js_rem numContentPanes ncols);
          balanceScore = (if panesInLastRow = 1 then 1 / 2 else 1 :: rat);
          heightScore = of_int paneHeight / of_int terminalHeight;
          widthScore = (if paneWidth \<le> of_int (MAX_COMFORTABLE_WIDTH cfg) then 1 else 4 / 5 :: rat)
      in balanceScore * heightScore * widthScore)"

definition minFeasiblePaneWidth :: "LayoutConfig \<Rightarrow> int" where
  "minFeasiblePaneWidth cfg = max 1 (min (MIN_COMFORTABLE_WIDTH cfg) (MAX_COMFORTABLE_WIDTH cfg))"

text \<open>The feasibility filter of the loop body, for a column count \<open>c\<close>.\<close>

definition fitsTerminal :: "LayoutConfig \<Rightarrow> int \<Rightarrow> int \<Rightarrow> int \<Rightarrow> int \<Rightarrow> bool" where
  "fitsTerminal cfg numContentPanes terminalWidth terminalHeight c =
     (let nrows = ceil_div numContentPanes c;
          columnBorders = c - 1;
          rowBorders = nrows - 1;
          minRequiredWidth = SIDEBAR_WIDTH cfg + c * minFeasiblePaneWidth cfg + columnBorders;
          minRequiredHeight = nrows * MIN_COMFORTABLE_HEIGHT cfg + rowBorders
      in minRequiredWidth \<le> terminalWidth \<and> minRequiredHeight \<le> terminalHeight)"

text \<open>
  One iteration of \<open>for (cols = numContentPanes; cols >= 1; cols--)\<close>, on the pair
  \<open>(bestLayout, bestScore)\<close>. \<open>bestLayout?.cols || Infinity\<close> is \<open>Infinity\<close> when there is
  no best layout yet (or its \<open>cols\<close> is \<open>0\<close>).
\<close>

definition layoutStep ::
  "LayoutConfig \<Rightarrow> int \<Rightarrow> int \<Rightarrow> int \<Rightarrow> LayoutConfiguration option \<times> rat \<Rightarrow> int
     \<Rightarrow> LayoutConfiguration option \<times> rat" where
  "layoutStep cfg numContentPanes terminalWidth terminalHeight best c =
     (let bestLayout = fst best; bestScore = snd best;
          nrows = ceil_div numContentPanes c;
          columnBorders = c - 1;
          rowBorders = nrows - 1
      in if fitsTerminal cfg numContentPanes terminalWidth terminalHeight c then
           (let idealMaxWidth = SIDEBAR_WIDTH cfg + c * MAX_COMFORTABLE_WIDTH cfg + columnBorders;
                wWidth = min idealMaxWidth terminalWidth;
                effectiveContentWidth = wWidth - SIDEBAR_WIDTH cfg - columnBorders;
                paneWidth = of_int effectiveContentWidth / of_int c;
                distribution = distributePanes numContentPanes c;
                availableHeight = terminalHeight - rowBorders;
                paneHeight = availableHeight div nrows;
                score = scoreLayout cfg numContentPanes c nrows paneWidth paneHeight terminalHeight;
                isBetter = (score > bestScore \<or>
                            (score = bestScore \<and>
                             (case bestLayout of None \<Rightarrow> True
                              | Some b \<Rightarrow> (if cols b = 0 then True else c < cols b))))
            in if isBetter
               then (Some \<lparr>cols = c, rows = nrows, windowWidth = wWidth,
                           paneDistribution = distribution, actualPaneWidth = paneWidth\<rparr>, score)
               else best)
         else best)"

definition singleColumnFallback :: "LayoutConfig \<Rightarrow> int \<Rightarrow> int \<Rightarrow> LayoutConfiguration" where
  "singleColumnFallback cfg numContentPanes terminalWidth =
     \<lparr>cols = 1, rows = numContentPanes, windowWidth = terminalWidth,
      paneDistribution = [numContentPanes],
      actualPaneWidth = of_int (terminalWidth - SIDEBAR_WIDTH cfg)\<rparr>"

text \<open>
  \<open>calculateOptimalLayout\<close>: the candidates are tried from \<open>numContentPanes\<close> down to \<open>1\<close>
  (\<open>rev [1..numContentPanes]\<close>), starting from \<open>bestLayout = null\<close>, \<open>bestScore = -1\<close>.
  The function has no \<open>throw\<close> and calls nothing that throws, so its result is a plain
  \<open>LayoutConfiguration\<close>.
\<close>

definition calculateOptimalLayout :: "LayoutConfig \<Rightarrow> int \<Rightarrow> int \<Rightarrow> int \<Rightarrow> LayoutConfiguration" where
  "calculateOptimalLayout cfg numContentPanes terminalWidth terminalHeight =
     (if numContentPanes = 0
      then \<lparr>cols = 0, rows = 0, windowWidth = terminalWidth,
            paneDistribution = [], actualPaneWidth = 0\<rparr>
      else case fst (foldl (layoutStep cfg numContentPanes terminalWidth terminalHeight)
                           (None, - 1) (rev [1..numContentPanes])) of
             Some b \<Rightarrow> b
           | None \<Rightarrow> singleColumnFallback cfg numContentPanes terminalWidth)"

section \<open>Pane records (types.ts) and sibling slugs (utils/attachAgent.ts)\<close>

text \<open>
  \<open>DmuxPane\<close>, with the fields the modelled functions read or write. \<open>id\<close> and \<open>type\<close>
  are spelled \<open>ident\<close> and \<open>ptype\<close>; an optional field is an \<open>option\<close>.
\<close>

datatype PaneType = worktree | shell

record DmuxPane =
  ident :: string
  slug :: string
  prompt :: string
  paneId :: string
  ptype :: "PaneType option"
  worktreePath :: "string option"

definition mkPane :: "string \<Rightarrow> string option \<Rightarrow> DmuxPane" where
  "mkPane s w = \<lparr>ident = ''dmux-1'', slug = s, prompt = [], paneId = ''%1'',
                 ptype = None, worktreePath = w\<rparr>"

text \<open>
  \<open>path.basename\<close> (POSIX): trailing slashes are skipped, then the characters after the
  last remaining slash are returned.
\<close>

definition basename :: "string \<Rightarrow> string" where
  "basename p = rev (takeWhile (\<lambda>c. c \<noteq> CHR ''/'') (dropWhile (\<lambda>c. c = CHR ''/'') (rev p)))"

definition isDigit :: "char \<Rightarrow> bool" where
  "isDigit c = (48 \<le> (of_char c :: nat) \<and> (of_char c :: nat) \<le> 57)"

text \<open>\<open>/^\d+$/.test(s)\<close>: one or more characters, all of them decimal digits.\<close>

definition allDigits :: "string \<Rightarrow> bool" where
  "allDigits s = (s \<noteq> [] \<and> list_all isDigit s)"

text \<open>The integer that a string of decimal digits denotes.\<close>

definition digitsValue :: "string \<Rightarrow> nat" where
  "digitsValue s = foldl (\<lambda>a c. 10 * a + (of_char c - 48)) 0 s"

text \<open>
  The numbers of the source are doubles, which hold every integer up to
  \<open>Number.MAX_SAFE_INTEGER\<close> exactly. \<open>Number.parseInt(s, 10)\<close> on a string of digits
  returns the double nearest to the integer the digits denote: that integer as long as
  it is safe. Beyond, the double is a rounded value (\<open>9007199254740993\<close> is read as
  \<open>9007199254740992\<close>, and ECMA-262 lets an engine drop the digits after the twentieth),
  which the model does not follow: \<open>None\<close>.
\<close>

definition maxSafeInteger :: nat where
  "maxSafeInteger = 2 ^ 53 - 1"

definition parseInt10 :: "string \<Rightarrow> nat option" where
  "parseInt10 s = (if digitsValue s \<le> maxSafeInteger then Some (digitsValue s) else None)"

definition startsWith :: "string \<Rightarrow> string \<Rightarrow> bool" where
  "startsWith s p = (take (length p) s = p)"

text \<open>The body of \<open>for (const pane of existingPanes)\<close>, on \<open>maxSibling\<close>, which is \<open>None\<close>
  once a suffix beyond the safe integers has been read.\<close>

definition siblingStep :: "string \<Rightarrow> nat option \<Rightarrow> DmuxPane \<Rightarrow> nat option" where
  "siblingStep siblingPrefix maxSibling pane =
     (if \<not> startsWith (slug pane) siblingPrefix then maxSibling
      else let suffix = drop (length siblingPrefix) (slug pane)
           in if \<not> allDigits suffix then maxSibling
              else (case (maxSibling, parseInt10 suffix) of
                      (Some m, Some n) \<Rightarrow> Some (max m n)
                    | _ \<Rightarrow> None))"

text \<open>
  \<open>worktreeSlug = worktreePath ? path.basename(worktreePath) : ''\<close> and
  \<open>baseSlug = worktreeSlug || targetPane.slug\<close>: an absent or empty path, or an empty
  basename, falls back to the pane's slug.
\<close>

definition siblingBaseSlug :: "DmuxPane \<Rightarrow> string" where
  "siblingBaseSlug targetPane =
     (let worktreeSlug = (case worktreePath targetPane of
                            None \<Rightarrow> []
                          | Some p \<Rightarrow> if p = [] then [] else basename p)
      in if worktreeSlug \<noteq> [] then worktreeSlug else slug targetPane)"

text \<open>
  \<open>generateSiblingSlugForTargetPane\<close>. As long as every suffix read and \<open>maxSibling + 1\<close>
  are safe integers, the running maximum, the sum and the digits the template literal
  prints are exact, and the result is \<open>Some\<close> of the slug. From there on the source still
  returns a slug, but the sum is rounded and the digits printed depend on the rounding
  (ECMA-262 leaves the last digit printed open); the model does not follow the source
  there: its result is \<open>None\<close>.
\<close>

definition generateSiblingSlugForTargetPane :: "DmuxPane \<Rightarrow> DmuxPane list \<Rightarrow> string option" where
  "generateSiblingSlugForTargetPane targetPane existingPanes =
     (let baseSlug = siblingBaseSlug targetPane;
          siblingPrefix = baseSlug @ ''-a'';
          maxSibling = foldl (siblingStep siblingPrefix) (Some 1) existingPanes
      in case maxSibling of
           None \<Rightarrow> None
         | Some m \<Rightarrow>
             if m + 1 \<le> maxSafeInteger
             then Some (baseSlug @ ''-a'' @ showNat (m + 1))
             else None)"

text \<open>
  The numeric suffixes of the existing slugs of the form \<open>base-a<digits>\<close>, as a set; and
  the slug as the specification words it: the maximum of these suffixes plus one, with
  the maximum taken as 1 when there is no such slug.
\<close>

definition siblingNumbers :: "string \<Rightarrow> DmuxPane list \<Rightarrow> nat set" where
  "siblingNumbers base existing =
     {n. \<exists>suf. allDigits suf \<and> base @ ''-a'' @ suf \<in> slug ` set existing
         \<and> n = digitsValue suf}"

definition claimedSiblingSlug :: "DmuxPane \<Rightarrow> DmuxPane list \<Rightarrow> string" where
  "claimedSiblingSlug targetPane existing =
     (let base = (case worktreePath targetPane of
                    None \<Rightarrow> slug targetPane
                  | Some p \<Rightarrow> basename p);
          m = (if siblingNumbers base existing = {} then 1
               else Max (siblingNumbers base existing))
      in base @ ''-a'' @ showNat (m + 1))"

definition siblingMatch :: "string \<Rightarrow> DmuxPane \<Rightarrow> bool" where
  "siblingMatch pre p = (startsWith (slug p) pre \<and> allDigits (drop (length pre) (slug p)))"

section \<open>SettingsManager (src/utils/settingsManager.ts)\<close>

text \<open>
  The pane-width constants are imported from \<open>constants/layout.ts\<close>, which is not among the
  sources at hand; they are a parameter of the model. \<open>testedWidthConstants\<close> holds the
  values the repository's tests assert (defaults 50 and 80, both ranges 40 to 300).
\<close>

record WidthConstants =
  DEFAULT_MIN_PANE_WIDTH :: int
  DEFAULT_MAX_PANE_WIDTH :: int
  MIN_MIN_PANE_WIDTH :: int
  MAX_MIN_PANE_WIDTH :: int
  MIN_MAX_PANE_WIDTH :: int
  MAX_MAX_PANE_WIDTH :: int

definition testedWidthConstants :: WidthConstants where
  "testedWidthConstants =
     \<lparr>DEFAULT_MIN_PANE_WIDTH = 50, DEFAULT_MAX_PANE_WIDTH = 80,
      MIN_MIN_PANE_WIDTH = 40, MAX_MIN_PANE_WIDTH = 300,
      MIN_MAX_PANE_WIDTH = 40, MAX_MAX_PANE_WIDTH = 300\<rparr>"

text \<open>
  A property value as the validators see it: an integer number, \<open>undefined\<close>, or any other
  JSON value (a string, a boolean, \<open>null\<close>, a number with a fraction, an array, an object).
  The own properties of an object are the two width bounds and, under \<open>others\<close>, every
  other key; an absent key is \<open>None\<close>, a key that is present with the value \<open>undefined\<close>
  holds \<open>JUndefined\<close>.
\<close>

datatype JsValue = JInt int | JUndefined | JOther string

record DmuxSettings =
  minPaneWidth :: "JsValue option"
  maxPaneWidth :: "JsValue option"
  others :: "string \<rightharpoonup> JsValue"

definition emptySettings :: DmuxSettings where
  "emptySettings = \<lparr>minPaneWidth = None, maxPaneWidth = None, others = Map.empty\<rparr>"

text \<open>\<open>x !== undefined\<close>, for a property \<open>x\<close> of an object.\<close>

definition definedValue :: "JsValue option \<Rightarrow> bool" where
  "definedValue x = (x \<noteq> None \<and> x \<noteq> Some JUndefined)"

text \<open>
  \<open>globalSettings\<close> and \<open>projectSettings\<close> are typed \<open>DmuxSettings\<close>, but \<open>loadSettings\<close>
  assigns them whatever \<open>JSON.parse\<close> returns, unchecked. That is \<open>null\<close>; a primitive (a
  number, a boolean or a string, with the properties a spread copies from it: the
  characters of a string under their indices, nothing otherwise); an array (its elements
  under their indices, and the named properties assigned to it since); or an object.
\<close>

datatype SettingsValue =
    SNull
  | SPrimitive "string \<rightharpoonup> JsValue"
  | SArray "string \<rightharpoonup> JsValue" DmuxSettings
  | SObject DmuxSettings

text \<open>\<open>{...v}\<close>: the own enumerable properties of \<open>v\<close>; a spread of \<open>null\<close> copies nothing.\<close>

definition ownProperties :: "SettingsValue \<Rightarrow> DmuxSettings" where
  "ownProperties v =
     (case v of
        SNull \<Rightarrow> emptySettings
      | SPrimitive indexed \<Rightarrow> emptySettings\<lparr>others := indexed\<rparr>
      | SArray elements named \<Rightarrow> named\<lparr>others := elements ++ others named\<rparr>
      | SObject s \<Rightarrow> s)"

text \<open>
  \<open>{...a, ...b}\<close> for two sets of own properties, and \<open>Object.keys(s).length > 0\<close>. A key of
  \<open>b\<close> that holds \<open>undefined\<close> is copied like any other.
\<close>

definition spreadOver :: "DmuxSettings \<Rightarrow> DmuxSettings \<Rightarrow> DmuxSettings" where
  "spreadOver a b =
     \<lparr>minPaneWidth = (case minPaneWidth b of None \<Rightarrow> minPaneWidth a | Some v \<Rightarrow> Some v),
      maxPaneWidth = (case maxPaneWidth b of None \<Rightarrow> maxPaneWidth a | Some v \<Rightarrow> Some v),
      others = others a ++ others b\<rparr>"

definition hasKeys :: "DmuxSettings \<Rightarrow> bool" where
  "hasKeys s = (minPaneWidth s \<noteq> None \<or> maxPaneWidth s \<noteq> None \<or> others s \<noteq> Map.empty)"

text \<open>
  What a file written with \<open>JSON.stringify(v, null, 2)\<close> holds, as \<open>JSON.parse\<close> reads it
  back: a property holding \<open>undefined\<close> is left out, and of an array only the elements
  are written.
\<close>

definition definedOnly :: "DmuxSettings \<Rightarrow> DmuxSettings" where
  "definedOnly s =
     \<lparr>minPaneWidth = (if minPaneWidth s = Some JUndefined then None else minPaneWidth s),
      maxPaneWidth = (if maxPaneWidth s = Some JUndefined then None else maxPaneWidth s),
      others = (\<lambda>k. if others s k = Some JUndefined then None else others s k)\<rparr>"

definition jsonRoundTrip :: "SettingsValue \<Rightarrow> SettingsValue" where
  "jsonRoundTrip v =
     (case v of
        SNull \<Rightarrow> SNull
      | SPrimitive indexed \<Rightarrow> SPrimitive indexed
      | SArray elements named \<Rightarrow> SArray elements emptySettings
      | SObject s \<Rightarrow> SObject (definedOnly s))"

datatype SettingsScope = ScopeGlobal | ScopeProject

text \<open>The key of \<open>updateSetting\<close>: one of the two width bounds, or another key of
  \<open>DmuxSettings\<close> by its name.\<close>

datatype SettingKey = KeyMinPaneWidth | KeyMaxPaneWidth | KeyOther string

text \<open>What the manager throws: the \<open>Error\<close>s of its validations, the error of a failed
  write, rethrown, and the \<open>TypeError\<close> of a property read from \<open>null\<close> or assigned to
  \<open>null\<close> or to a primitive (class bodies are strict code).\<close>

datatype SettingsError =
  InvalidSetting | InvalidMinPaneWidth | InvalidMaxPaneWidth | SaveFailed | TypeError

text \<open>
  The manager: the two in-memory values, what the two files hold as \<open>JSON.parse\<close> would
  read it (\<open>None\<close>: no file, or none that can be read and parsed), and whether
  \<open>writeFileSync\<close> succeeds on each path.
\<close>

record SettingsManager =
  globalSettings :: SettingsValue
  projectSettings :: SettingsValue
  globalFile :: "SettingsValue option"
  projectFile :: "SettingsValue option"
  globalWritable :: bool
  projectWritable :: bool

definition isValidMaxPaneWidth :: "WidthConstants \<Rightarrow> JsValue option \<Rightarrow> bool" where
  "isValidMaxPaneWidth K v =
     (case v of Some (JInt n) \<Rightarrow> MIN_MAX_PANE_WIDTH K \<le> n \<and> n \<le> MAX_MAX_PANE_WIDTH K
              | _ \<Rightarrow> False)"

definition isValidMinPaneWidth :: "WidthConstants \<Rightarrow> JsValue option \<Rightarrow> bool" where
  "isValidMinPaneWidth K v =
     (case v of Some (JInt n) \<Rightarrow> MIN_MIN_PANE_WIDTH K \<le> n \<and> n \<le> MAX_MIN_PANE_WIDTH K
              | _ \<Rightarrow> False)"

text \<open>
  The constructor: \<open>loadSettings\<close> reads each file that exists and assigns what
  \<open>JSON.parse\<close> returns; a missing file, or one that cannot be read or parsed, leaves the
  value \<open>{}\<close>. The arguments are what the two files hold.
\<close>

definition newSettingsManager ::
  "SettingsValue option \<Rightarrow> SettingsValue option \<Rightarrow> bool \<Rightarrow> bool \<Rightarrow> SettingsManager" where
  "newSettingsManager globalParsed projectParsed gw pw =
     \<lparr>globalSettings = (case globalParsed of Some v \<Rightarrow> v | None \<Rightarrow> SObject emptySettings),
      projectSettings = (case projectParsed of Some v \<Rightarrow> v | None \<Rightarrow> SObject emptySettings),
      globalFile = globalParsed, projectFile = projectParsed,
      globalWritable = gw, projectWritable = pw\<rparr>"

text \<open>\<open>this.globalSettings.minPaneWidth\<close> and \<open>this.globalSettings.maxPaneWidth\<close> are read:
  on \<open>null\<close> that throws.\<close>

definition getValidGlobalMinPaneWidth :: "WidthConstants \<Rightarrow> SettingsManager \<Rightarrow> SettingsError + int" where
  "getValidGlobalMinPaneWidth K m =
     (if globalSettings m = SNull then Inl TypeError
      else (case minPaneWidth (ownProperties (globalSettings m)) of
              Some (JInt n) \<Rightarrow> Inr (if isValidMinPaneWidth K (Some (JInt n)) then n
                                     else DEFAULT_MIN_PANE_WIDTH K)
            | _ \<Rightarrow> Inr (DEFAULT_MIN_PANE_WIDTH K)))"

definition getValidGlobalMaxPaneWidth :: "WidthConstants \<Rightarrow> SettingsManager \<Rightarrow> SettingsError + int" where
  "getValidGlobalMaxPaneWidth K m =
     (if globalSettings m = SNull then Inl TypeError
      else (case maxPaneWidth (ownProperties (globalSettings m)) of
              Some (JInt n) \<Rightarrow> Inr (if isValidMaxPaneWidth K (Some (JInt n)) then n
                                     else DEFAULT_MAX_PANE_WIDTH K)
            | _ \<Rightarrow> Inr (DEFAULT_MAX_PANE_WIDTH K)))"

text \<open>\<open>resolveGlobalPaneWidths(overrides)\<close>; an override that is \<open>undefined\<close> is \<open>None\<close>. The
  global value is read only for a bound that has no override.\<close>

definition resolveGlobalPaneWidths ::
  "WidthConstants \<Rightarrow> SettingsManager \<Rightarrow> int option \<Rightarrow> int option \<Rightarrow> SettingsError + int \<times> int" where
  "resolveGlobalPaneWidths K m minOverride maxOverride =
     (let hasMinOverride = (minOverride \<noteq> None);
          hasMaxOverride = (maxOverride \<noteq> None)
      in case (case minOverride of Some v \<Rightarrow> Inr v | None \<Rightarrow> getValidGlobalMinPaneWidth K m) of
           Inl e \<Rightarrow> Inl e
         | Inr minW \<Rightarrow>
             (case (case maxOverride of Some v \<Rightarrow> Inr v
                                      | None \<Rightarrow> getValidGlobalMaxPaneWidth K m) of
                Inl e \<Rightarrow> Inl e
              | Inr maxW \<Rightarrow>
                  Inr (if minW > maxW
                       then (if hasMinOverride \<and> \<not> hasMaxOverride then (maxW, maxW)
                             else (minW, minW))
                       else (minW, maxW))))"

text \<open>
  \<open>getSettings\<close>: defaults, then global, then project, key by key; the two width bounds
  are then overwritten by \<open>resolveGlobalPaneWidths()\<close>, which throws when the global value
  is \<open>null\<close>. \<open>defaults\<close> are the entries of \<open>DEFAULT_SETTINGS\<close> other than the widths.
\<close>

definition getSettings ::
  "WidthConstants \<Rightarrow> (string \<rightharpoonup> JsValue) \<Rightarrow> SettingsManager \<Rightarrow> SettingsError + DmuxSettings" where
  "getSettings K defaults m =
     (case resolveGlobalPaneWidths K m None None of
        Inl e \<Rightarrow> Inl e
      | Inr paneWidths \<Rightarrow>
          Inr \<lparr>minPaneWidth = Some (JInt (fst paneWidths)),
               maxPaneWidth = Some (JInt (snd paneWidths)),
               others = defaults ++ others (ownProperties (globalSettings m))
                          ++ others (ownProperties (projectSettings m))\<rparr>)"

text \<open>
  \<open>saveGlobalSettings\<close> and \<open>saveProjectSettings\<close> write the in-memory value; a failing
  write is rethrown. The in-memory values stay as they were mutated.
\<close>

definition saveGlobalSettings :: "SettingsManager \<Rightarrow> SettingsError option \<times> SettingsManager" where
  "saveGlobalSettings m =
     (if globalWritable m then (None, m\<lparr>globalFile := Some (jsonRoundTrip (globalSettings m))\<rparr>)
      else (Some SaveFailed, m))"

definition saveProjectSettings :: "SettingsManager \<Rightarrow> SettingsError option \<times> SettingsManager" where
  "saveProjectSettings m =
     (if projectWritable m then (None, m\<lparr>projectFile := Some (jsonRoundTrip (projectSettings m))\<rparr>)
      else (Some SaveFailed, m))"

text \<open>\<open>v.minPaneWidth = a; v.maxPaneWidth = b\<close>: an assignment to a property of \<open>null\<close> or
  of a primitive throws.\<close>

definition assignPaneWidths :: "SettingsValue \<Rightarrow> int \<Rightarrow> int \<Rightarrow> SettingsError + SettingsValue" where
  "assignPaneWidths v a b =
     (case v of
        SNull \<Rightarrow> Inl TypeError
      | SPrimitive indexed \<Rightarrow> Inl TypeError
      | SArray elements named \<Rightarrow>
          Inr (SArray elements (named\<lparr>minPaneWidth := Some (JInt a), maxPaneWidth := Some (JInt b)\<rparr>))
      | SObject s \<Rightarrow>
          Inr (SObject (s\<lparr>minPaneWidth := Some (JInt a), maxPaneWidth := Some (JInt b)\<rparr>)))"

text \<open>\<open>v[key] = value\<close> for another key.\<close>

definition assignSetting :: "SettingsValue \<Rightarrow> string \<Rightarrow> JsValue \<Rightarrow> SettingsError + SettingsValue" where
  "assignSetting v k x =
     (case v of
        SNull \<Rightarrow> Inl TypeError
      | SPrimitive indexed \<Rightarrow> Inl TypeError
      | SArray elements named \<Rightarrow> Inr (SArray elements (named\<lparr>others := (others named)(k \<mapsto> x)\<rparr>))
      | SObject s \<Rightarrow> Inr (SObject (s\<lparr>others := (others s)(k \<mapsto> x)\<rparr>)))"

text \<open>
  \<open>if (v.minPaneWidth !== undefined) { delete v.minPaneWidth; changed = true }\<close> and the
  same for \<open>maxPaneWidth\<close>, on the own properties \<open>s\<close> of \<open>v\<close>; then for \<open>v\<close> itself, where
  the read throws on \<open>null\<close> and a primitive has neither property.
\<close>

definition withoutPaneWidths :: "DmuxSettings \<Rightarrow> DmuxSettings" where
  "withoutPaneWidths s =
     s\<lparr>minPaneWidth := (if definedValue (minPaneWidth s) then None else minPaneWidth s),
       maxPaneWidth := (if definedValue (maxPaneWidth s) then None else maxPaneWidth s)\<rparr>"

definition deletePaneWidths :: "SettingsValue \<Rightarrow> SettingsError + bool \<times> SettingsValue" where
  "deletePaneWidths v =
     (case v of
        SNull \<Rightarrow> Inl TypeError
      | SPrimitive indexed \<Rightarrow> Inr (False, SPrimitive indexed)
      | SArray elements named \<Rightarrow>
          Inr (definedValue (minPaneWidth named) \<or> definedValue (maxPaneWidth named),
               SArray elements (withoutPaneWidths named))
      | SObject s \<Rightarrow>
          Inr (definedValue (minPaneWidth s) \<or> definedValue (maxPaneWidth s),
               SObject (withoutPaneWidths s)))"

text \<open>
  The width branch shared by \<open>updateSetting\<close> and \<open>updateSettings\<close>: the bounds are
  resolved, assigned to the global value, and the project-level bounds are deleted. The
  result is the error thrown, if any, whether a project-level bound was deleted, and the
  manager as mutated up to there.
\<close>

definition storePaneWidths ::
  "WidthConstants \<Rightarrow> SettingsManager \<Rightarrow> int option \<Rightarrow> int option
     \<Rightarrow> SettingsError option \<times> bool \<times> SettingsManager" where
  "storePaneWidths K m minOverride maxOverride =
     (case resolveGlobalPaneWidths K m minOverride maxOverride of
        Inl e \<Rightarrow> (Some e, False, m)
      | Inr paneWidths \<Rightarrow>
          (case assignPaneWidths (globalSettings m) (fst paneWidths) (snd paneWidths) of
             Inl e \<Rightarrow> (Some e, False, m)
           | Inr g \<Rightarrow>
               (let m1 = m\<lparr>globalSettings := g\<rparr>
                in case deletePaneWidths (projectSettings m1) of
                     Inl e \<Rightarrow> (Some e, False, m1)
                   | Inr (projectSettingsChanged, p) \<Rightarrow>
                       (None, projectSettingsChanged, m1\<lparr>projectSettings := p\<rparr>))))"

text \<open>A validated width, as a number.\<close>

definition intOf :: "JsValue \<Rightarrow> int" where
  "intOf v = (case v of JInt n \<Rightarrow> n | _ \<Rightarrow> 0)"

text \<open>
  \<open>updateSetting(key, value, scope)\<close>. \<open>otherValid\<close> stands for the checks of the
  branch, permission-mode and agent settings, whose helpers (\<open>isValidBranchName\<close>,
  \<open>isAgentName\<close>) live in other modules; a failed check throws before any change.
\<close>

definition updateSetting ::
  "WidthConstants \<Rightarrow> (string \<Rightarrow> JsValue \<Rightarrow> bool) \<Rightarrow> SettingKey \<Rightarrow> JsValue \<Rightarrow> SettingsScope
     \<Rightarrow> SettingsManager \<Rightarrow> SettingsError option \<times> SettingsManager" where
  "updateSetting K otherValid key v scope m =
     (case key of
        KeyOther k \<Rightarrow>
          if \<not> otherValid k v then (Some InvalidSetting, m)
          else if scope = ScopeGlobal
               then (case assignSetting (globalSettings m) k v of
                       Inl e \<Rightarrow> (Some e, m)
                     | Inr g \<Rightarrow> saveGlobalSettings (m\<lparr>globalSettings := g\<rparr>))
               else (case assignSetting (projectSettings m) k v of
                       Inl e \<Rightarrow> (Some e, m)
                     | Inr p \<Rightarrow> saveProjectSettings (m\<lparr>projectSettings := p\<rparr>))
      | _ \<Rightarrow>
          if key = KeyMinPaneWidth \<and> \<not> isValidMinPaneWidth K (Some v)
          then (Some InvalidMinPaneWidth, m)
          else if key = KeyMaxPaneWidth \<and> \<not> isValidMaxPaneWidth K (Some v)
          then (Some InvalidMaxPaneWidth, m)
          else
            (case (if key = KeyMinPaneWidth
                   then storePaneWidths K m (Some (intOf v)) None
                   else storePaneWidths K m None (Some (intOf v))) of
               (Some e, projectSettingsChanged, m1) \<Rightarrow> (Some e, m1)
             | (None, projectSettingsChanged, m1) \<Rightarrow>
                 if projectSettingsChanged
                 then (case saveProjectSettings m1 of
                         (Some e, m2) \<Rightarrow> (Some e, m2)
                       | (None, m2) \<Rightarrow> saveGlobalSettings m2)
                 else saveGlobalSettings m1))"

text \<open>A bound of the \<open>settings\<close> argument as an override: present, and valid by then,
  or \<open>undefined\<close>.\<close>

definition widthOverride :: "JsValue option \<Rightarrow> int option" where
  "widthOverride x = (if definedValue x then map_option intOf x else None)"

text \<open>
  \<open>updateSettings(settings, scope)\<close>. After the validations, the width bounds present in
  \<open>settings\<close> are stored as above and both width keys are removed from \<open>settingsToApply\<close>;
  what remains is spread over the value of the requested scope, which is an object from
  then on. The order of the two saves depends on the scope.
\<close>

definition updateSettings ::
  "WidthConstants \<Rightarrow> ((string \<rightharpoonup> JsValue) \<Rightarrow> bool) \<Rightarrow> DmuxSettings \<Rightarrow> SettingsScope
     \<Rightarrow> SettingsManager \<Rightarrow> SettingsError option \<times> SettingsManager" where
  "updateSettings K othersValid settings scope m =
     (if \<not> othersValid (others settings) then (Some InvalidSetting, m)
      else if definedValue (minPaneWidth settings)
              \<and> \<not> isValidMinPaneWidth K (minPaneWidth settings)
      then (Some InvalidMinPaneWidth, m)
      else if definedValue (maxPaneWidth settings)
              \<and> \<not> isValidMaxPaneWidth K (maxPaneWidth settings)
      then (Some InvalidMaxPaneWidth, m)
      else
        (let paneWidthsUpdated = (definedValue (minPaneWidth settings)
                                  \<or> definedValue (maxPaneWidth settings));
             stored = (if paneWidthsUpdated
                       then storePaneWidths K m (widthOverride (minPaneWidth settings))
                                                (widthOverride (maxPaneWidth settings))
                       else (None, False, m));
             settingsToApply = (if paneWidthsUpdated
                                then settings\<lparr>minPaneWidth := None, maxPaneWidth := None\<rparr>
                                else settings);
             hasRemainingSettings = hasKeys settingsToApply
         in case stored of
              (Some e, widthsChangedProject, m1) \<Rightarrow> (Some e, m1)
            | (None, widthsChangedProject, m1) \<Rightarrow>
                if scope = ScopeGlobal
                then (let m2 = (if hasRemainingSettings
                                then m1\<lparr>globalSettings :=
                                          SObject (spreadOver (ownProperties (globalSettings m1))
                                                     settingsToApply)\<rparr>
                                else m1);
                          r = (if hasRemainingSettings \<or> paneWidthsUpdated
                               then saveGlobalSettings m2 else (None, m2))
                      in case r of
                           (Some e, m3) \<Rightarrow> (Some e, m3)
                         | (None, m3) \<Rightarrow>
                             if widthsChangedProject then saveProjectSettings m3 else (None, m3))
                else (let m2 = (if hasRemainingSettings
                                then m1\<lparr>projectSettings :=
                                          SObject (spreadOver (ownProperties (projectSettings m1))
                                                     settingsToApply)\<rparr>
                                else m1);
                          projectSettingsChanged = (widthsChangedProject \<or> hasRemainingSettings);
                          r = (if projectSettingsChanged then saveProjectSettings m2
                               else (None, m2))
                      in case r of
                           (Some e, m3) \<Rightarrow> (Some e, m3)
                         | (None, m3) \<Rightarrow>
                             if paneWidthsUpdated then saveGlobalSettings m3 else (None, m3))))"

text \<open>The effective bounds, as \<open>getSettings\<close> reports them, are there and ordered.\<close>

definition widthsOrdered ::
  "WidthConstants \<Rightarrow> (string \<rightharpoonup> JsValue) \<Rightarrow> SettingsManager \<Rightarrow> bool" where
  "widthsOrdered K defaults m =
     (case getSettings K defaults m of
        Inl e \<Rightarrow> False
      | Inr s \<Rightarrow>
          (case (minPaneWidth s, maxPaneWidth s) of
             (Some (JInt a), Some (JInt b)) \<Rightarrow> a \<le> b
           | _ \<Rightarrow> False))"

text \<open>
  A settings value holds the bounds \<open>lo\<close> and \<open>hi\<close>; it holds no bound. Then what a width
  update has to leave behind: the bounds in the global value and in the global file, no
  bound in the project value, and a project file that holds no bound either, or that was
  not written because the project value held none.
\<close>

definition holdsPaneWidths :: "int \<Rightarrow> int \<Rightarrow> SettingsValue \<Rightarrow> bool" where
  "holdsPaneWidths lo hi v =
     (minPaneWidth (ownProperties v) = Some (JInt lo)
      \<and> maxPaneWidth (ownProperties v) = Some (JInt hi))"

definition holdsNoPaneWidth :: "SettingsValue \<Rightarrow> bool" where
  "holdsNoPaneWidth v =
     (\<not> definedValue (minPaneWidth (ownProperties v))
      \<and> \<not> definedValue (maxPaneWidth (ownProperties v)))"

definition paneWidthsStored :: "int \<Rightarrow> int \<Rightarrow> SettingsManager \<Rightarrow> SettingsManager \<Rightarrow> bool" where
  "paneWidthsStored lo hi m m' =
     (holdsPaneWidths lo hi (globalSettings m')
      \<and> (case globalFile m' of Some f \<Rightarrow> holdsPaneWidths lo hi f | None \<Rightarrow> False)
      \<and> holdsNoPaneWidth (projectSettings m')
      \<and> (case projectFile m' of
            Some f \<Rightarrow> holdsNoPaneWidth f
                      \<or> (projectFile m' = projectFile m \<and> holdsNoPaneWidth (projectSettings m))
          | None \<Rightarrow> projectFile m = None \<and> holdsNoPaneWidth (projectSettings m)))"

text \<open>The valid global bounds of a manager whose global value is not \<open>null\<close>.\<close>

definition validGlobalMin :: "WidthConstants \<Rightarrow> SettingsManager \<Rightarrow> int" where
  "validGlobalMin K m =
     (case getValidGlobalMinPaneWidth K m of Inr n \<Rightarrow> n | Inl e \<Rightarrow> DEFAULT_MIN_PANE_WIDTH K)"

definition validGlobalMax :: "WidthConstants \<Rightarrow> SettingsManager \<Rightarrow> int" where
  "validGlobalMax K m =
     (case getValidGlobalMaxPaneWidth K m of Inr n \<Rightarrow> n | Inl e \<Rightarrow> DEFAULT_MAX_PANE_WIDTH K)"

text \<open>A manager whose global object holds the bounds 50 and 70, as after the two calls
  \<open>updateSetting('minPaneWidth', 50)\<close> and \<open>updateSetting('maxPaneWidth', 70)\<close>, and whose
  project file has a stale \<open>minPaneWidth\<close> of 60.\<close>

definition manager_50_70 :: SettingsManager where
  "manager_50_70 =
     \<lparr>globalSettings = SObject \<lparr>minPaneWidth = Some (JInt 50), maxPaneWidth = Some (JInt 70),
                                others = Map.empty\<rparr>,
      projectSettings = SObject \<lparr>minPaneWidth = Some (JInt 60), maxPaneWidth = None,
                                 others = Map.empty\<rparr>,
      globalFile = None,
      projectFile = Some (SObject \<lparr>minPaneWidth = Some (JInt 60), maxPaneWidth = None,
                                    others = Map.empty\<rparr>),
      globalWritable = True, projectWritable = True\<rparr>"

section \<open>Layout descriptors (utils/tmux.ts) and the layout entry point (utils/layoutManager.ts)\<close>

text \<open>
  \<open>calculateLayoutChecksum\<close>. The accumulator stays below \<open>2 ^ 16\<close> and a character code
  below \<open>2 ^ 16\<close> is added, so the 32-bit operators \<open>>>\<close>, \<open><<\<close> and \<open>&\<close> of JavaScript
  agree with the bit operations on \<open>nat\<close>. \<open>charCodeAt\<close> is the byte of an ASCII string.
\<close>

definition checksumStep :: "nat \<Rightarrow> char \<Rightarrow> nat" where
  "checksumStep checksum ch =
     (let c1 = drop_bit 1 checksum + push_bit 15 (checksum AND 1);
          c2 = c1 + of_char ch
      in c2 AND 0xFFFF)"

text \<open>\<open>n.toString(16)\<close> and \<open>s.padStart(len, c)\<close>.\<close>

fun toHex :: "nat \<Rightarrow> string" where
  "toHex n = (if n < 16 then [digitChar n] else toHex (n div 16) @ [digitChar (n mod 16)])"

declare toHex.simps [simp del]

definition padStart :: "nat \<Rightarrow> char \<Rightarrow> string \<Rightarrow> string" where
  "padStart targetLength c s = replicate (targetLength - length s) c @ s"

definition calculateLayoutChecksum :: "string \<Rightarrow> string" where
  "calculateLayoutChecksum layout = padStart 4 (CHR ''0'') (toHex (foldl checksumStep 0 layout))"

text \<open>
  The checksum as the specification words it: \<open>c := ((c >> 1) + ((c & 1) << 15) + byte) &
  0xFFFF\<close> from 0 over the bytes of the body; and the value of a string of lowercase
  hexadecimal digits.
\<close>

definition claimedChecksum :: "string \<Rightarrow> nat" where
  "claimedChecksum body =
     foldl (\<lambda>c b. (drop_bit 1 c + push_bit 15 (c AND 1) + of_char b) AND 0xFFFF) 0 body"

definition isLowerHex :: "char \<Rightarrow> bool" where
  "isLowerHex c = (c \<in> set ''0123456789abcdef'')"

definition hexDigitValue :: "char \<Rightarrow> nat" where
  "hexDigitValue c = (if isDigit c then of_char c - 48 else of_char c - 87)"

definition hexValue :: "string \<Rightarrow> nat" where
  "hexValue s = foldl (\<lambda>a c. 16 * a + hexDigitValue c) 0 s"

text \<open>\<open>s.split(',')\<close> and \<open>parts.join(',')\<close>.\<close>

fun splitComma :: "string \<Rightarrow> string list" where
  "splitComma [] = [[]]"
| "splitComma (c # cs) =
     (if c = CHR '','' then [] # splitComma cs
      else (case splitComma cs of p # ps \<Rightarrow> (c # p) # ps | [] \<Rightarrow> [[c]]))"

fun joinComma :: "string list \<Rightarrow> string" where
  "joinComma [] = []"
| "joinComma [s] = s"
| "joinComma (s # t # ts) = s @ '','' @ joinComma (t # ts)"

text \<open>
  \<open>row.replace(/^(\d+x\d+),0,/, `$1,${contentStartX},`)\<close>: a leading \<open>WxH,0,\<close> gets the
  given X in place of \<open>0\<close>; any other string is returned as it is.
\<close>

definition replaceZeroX :: "string \<Rightarrow> string \<Rightarrow> string" where
  "replaceZeroX row x =
     (let d1 = takeWhile isDigit row; r1 = dropWhile isDigit row
      in if d1 = [] then row
         else (case r1 of
                 [] \<Rightarrow> row
               | c # r2 \<Rightarrow>
                   if c \<noteq> CHR ''x'' then row
                   else (let d2 = takeWhile isDigit r2; r3 = dropWhile isDigit r2
                         in if d2 = [] then row
                            else if take 3 r3 = '',0,''
                                 then d1 @ ''x'' @ d2 @ '','' @ x @ '','' @ drop 3 r3
                                 else row)))"

text \<open>
  The values \<open>generateSidebarGridLayout\<close> fixes before its row loop. \<open>getPaneTitle\<close> stands
  for \<open>tmuxService.getPaneTitleSync\<close>, \<open>None\<close> when it throws.
\<close>

record GridParams =
  gContentPanes :: "string list"
  gCols :: int
  gRows :: int
  gContentWidth :: int
  gContentStartX :: int
  gPaneHeight :: int
  gWindowHeight :: int
  gLastPaneIsSpacer :: bool
  gMaxComfortableWidth :: int

text \<open>
  The widths of the panes of one row, left to right, for a row of \<open>k \<ge> 1\<close> panes. With a
  spacer the content panes get \<open>maxComfortableWidth\<close> and the spacer, last, the remainder
  (the source logs a warning when that is negative, and goes on); without one the width
  is divided evenly and the first pane gets the remainder.
\<close>

definition rowWidths :: "GridParams \<Rightarrow> bool \<Rightarrow> nat \<Rightarrow> int list" where
  "rowWidths g rowHasSpacer k =
     (if rowHasSpacer
      then (let numContentPanesInRow = int k - 1;
                contentPaneWidth = gMaxComfortableWidth g;
                bordersInRow = int k - 1;
                totalContentWidth = numContentPanesInRow * contentPaneWidth;
                remainingWidth = gContentWidth g - totalContentWidth - bordersInRow
            in replicate (k - 1) contentPaneWidth @ [remainingWidth])
      else (let bordersInRow = int k - 1;
                availableWidth = gContentWidth g - bordersInRow;
                evenWidth = availableWidth div int k;
                remainder = availableWidth - evenWidth * int k
            in (evenWidth + remainder) # replicate (k - 1) evenWidth))"

text \<open>The inner loop that pushes \<open>`${colWidth}x${rowHeight},${absoluteX},${currentY},${paneId}`\<close>
  and advances \<open>absoluteX\<close> by the width, plus one for the border except after the last pane.\<close>

fun rowPaneStrings :: "int \<Rightarrow> int \<Rightarrow> int \<Rightarrow> (string \<times> int) list \<Rightarrow> string list" where
  "rowPaneStrings rowHeight currentY absoluteX [] = []"
| "rowPaneStrings rowHeight currentY absoluteX ((pane, colWidth) # rest) =
     (showInt colWidth @ ''x'' @ showInt rowHeight @ '','' @ showInt absoluteX @ '',''
        @ showInt currentY @ '','' @ remove1 (CHR ''%'') pane)
     # rowPaneStrings rowHeight currentY
         (absoluteX + colWidth + (if rest \<noteq> [] then 1 else 0)) rest"

text \<open>
  What a row contributes to \<open>gridRows\<close>: a container for two or more panes, the bare leaf
  (with its X and Y fields rewritten) for one pane, nothing for none. A leaf string has
  at least four comma-separated fields, so the two assignments are in range.
\<close>

definition rowEntry :: "GridParams \<Rightarrow> int \<Rightarrow> int \<Rightarrow> string list \<Rightarrow> string option" where
  "rowEntry g rowHeight currentY rowPanes =
     (if length rowPanes > 1
      then Some (showInt (gContentWidth g) @ ''x'' @ showInt rowHeight @ '',''
                 @ showInt (gContentStartX g) @ '','' @ showInt currentY
                 @ ''{'' @ joinComma rowPanes @ ''}'')
      else if length rowPanes = 1
      then (let parts = splitComma (hd rowPanes);
                parts1 = parts[1 := showInt (gContentStartX g)];
                parts2 = parts1[2 := showInt currentY]
            in Some (joinComma parts2))
      else None)"

text \<open>
  The body of the row loop \<open>for (row = 0; row < rows; row++)\<close>, on the triple
  \<open>(paneIndex, currentY, gridRows)\<close>. \<open>panesInThisRow\<close> is the slice of at most \<open>cols\<close>
  panes from \<open>paneIndex\<close>.
\<close>

definition gridRowStep ::
  "GridParams \<Rightarrow> int \<Rightarrow> nat \<times> int \<times> string list \<Rightarrow> nat \<times> int \<times> string list" where
  "gridRowStep g row st =
     (let paneIndex = fst st; currentY = fst (snd st); gridRows = snd (snd st);
          rowHeight = (if row = gRows g - 1 then gWindowHeight g - currentY
                       else gPaneHeight g);
          panesInThisRow = take (nat (gCols g)) (drop paneIndex (gContentPanes g));
          rowHasSpacer = (gLastPaneIsSpacer g \<and> row = gRows g - 1 \<and> panesInThisRow \<noteq> []
                          \<and> last panesInThisRow = last (gContentPanes g));
          widths = rowWidths g rowHasSpacer (length panesInThisRow);
          rowPanes = rowPaneStrings rowHeight currentY (gContentStartX g)
                       (zip panesInThisRow widths);
          gridRows1 = (case rowEntry g rowHeight currentY rowPanes of
                         Some s \<Rightarrow> gridRows @ [s]
                       | None \<Rightarrow> gridRows);
          paneIndex1 = paneIndex + length panesInThisRow;
          currentY1 = (if row < gRows g - 1 then currentY + gPaneHeight g + 1
                       else currentY)
      in (paneIndex1, currentY1, gridRows1))"

function gridRowsLoop ::
  "GridParams \<Rightarrow> int \<Rightarrow> nat \<times> int \<times> string list \<Rightarrow> nat \<times> int \<times> string list" where
  "gridRowsLoop g row st =
     (if row < gRows g then gridRowsLoop g (row + 1) (gridRowStep g row st) else st)"
  by pat_completeness auto
termination
  by (relation "measure (\<lambda>(g, row, st). nat (gRows g - row))") auto

declare gridRowsLoop.simps [simp del]

definition gridParams ::
  "(string \<Rightarrow> string option) \<Rightarrow> string list \<Rightarrow> int \<Rightarrow> int \<Rightarrow> int \<Rightarrow> int \<Rightarrow> int \<Rightarrow> GridParams" where
  "gridParams getPaneTitle contentPanes sidebarWidth winWidth winHeight columns
     maxComfortableWidth =
     (let numContentPanes = int (length contentPanes);
          nrows = ceil_div numContentPanes columns;
          contentWidth = winWidth - sidebarWidth - 1;
          contentStartX = sidebarWidth + 1;
          lastPaneIsSpacer = (contentPanes \<noteq> []
                              \<and> getPaneTitle (last contentPanes) = Some ''dmux-spacer'');
          bordersHeight = nrows - 1;
          availableHeight = winHeight - bordersHeight;
          paneHeight = availableHeight div nrows
      in \<lparr>gContentPanes = contentPanes, gCols = columns, gRows = nrows,
          gContentWidth = contentWidth, gContentStartX = contentStartX,
          gPaneHeight = paneHeight, gWindowHeight = winHeight,
          gLastPaneIsSpacer = lastPaneIsSpacer,
          gMaxComfortableWidth = maxComfortableWidth\<rparr>)"

text \<open>\<open>layoutWithoutChecksum\<close>, for a non-empty list of grid rows.\<close>

definition layoutWithoutChecksum ::
  "string \<Rightarrow> int \<Rightarrow> int \<Rightarrow> int \<Rightarrow> GridParams \<Rightarrow> string list \<Rightarrow> string" where
  "layoutWithoutChecksum controlPaneId sidebarWidth winWidth winHeight g gridRows =
     (let sidebarId = remove1 (CHR ''%'') controlPaneId;
          sidebar = showInt sidebarWidth @ ''x'' @ showInt winHeight @ '',0,0,'' @ sidebarId;
          contentArea =
            (if length gridRows > 1
             then showInt (gContentWidth g) @ ''x'' @ showInt winHeight @ '',''
                  @ showInt (gContentStartX g) @ '',0['' @ joinComma gridRows @ '']''
             else replaceZeroX (hd gridRows) (showInt (gContentStartX g)))
      in showInt winWidth @ ''x'' @ showInt winHeight @ '',0,0{'' @ sidebar @ '',''
         @ contentArea @ ''}'')"

text \<open>
  \<open>generateSidebarGridLayout\<close>. With \<open>columns = 0\<close> and at least one pane,
  \<open>Math.ceil(n / 0)\<close> is \<open>Infinity\<close> and the row loop, which then finds no pane for any
  row, never ends: the result is \<open>None\<close>. A negative column count gives \<open>rows \<le> 0\<close>, no
  row and the empty string, like an empty pane list.
\<close>

definition generateSidebarGridLayout ::
  "(string \<Rightarrow> string option) \<Rightarrow> string \<Rightarrow> string list \<Rightarrow> int \<Rightarrow> int \<Rightarrow> int \<Rightarrow> int \<Rightarrow> int
     \<Rightarrow> string option" where
  "generateSidebarGridLayout getPaneTitle controlPaneId contentPanes sidebarWidth winWidth
     winHeight columns maxComfortableWidth =
     (if columns = 0 \<and> contentPanes \<noteq> [] then None
      else (let g = gridParams getPaneTitle contentPanes sidebarWidth winWidth winHeight
                      columns maxComfortableWidth;
                gridRows = snd (snd (gridRowsLoop g 0 (0, 0, [])))
            in if gridRows = [] then Some []
               else (let body = layoutWithoutChecksum controlPaneId sidebarWidth winWidth
                                  winHeight g gridRows;
                         checksum = calculateLayoutChecksum body
                     in Some (checksum @ '','' @ body))))"

text \<open>
  \<open>recalculateAndApplyLayout\<close>. The promise of the \<open>async\<close> function resolves or rejects;
  what it did is the list of its effects. Steps 1 to 9 of the body (spacer, window and
  pane geometry, all through the tmux service) are the parameter \<open>steps\<close>, which returns
  its effects and the error it threw, if any. The whole body sits in \<open>try\<close>, and the
  \<open>catch\<close> logs the error.
\<close>

datatype PromiseOutcome = Resolved | Rejected string

datatype Effect = LogWarn string | LogError string | LogInfo string | LogDebug string
  | TmuxCommand string

record LayoutOptions =
  force :: bool
  suppressLogs :: bool
  disableSpacer :: bool

definition recalculateAndApplyLayout ::
  "(string \<Rightarrow> string list \<Rightarrow> int \<Rightarrow> int \<Rightarrow> LayoutConfig option \<Rightarrow> LayoutOptions
      \<Rightarrow> Effect list \<times> string option)
   \<Rightarrow> string \<Rightarrow> string list \<Rightarrow> int \<Rightarrow> int \<Rightarrow> LayoutConfig option \<Rightarrow> LayoutOptions
   \<Rightarrow> PromiseOutcome \<times> Effect list" where
  "recalculateAndApplyLayout steps controlPaneId contentPaneIds terminalWidth terminalHeight
     config options =
     (if controlPaneId = []
      then (Resolved, if suppressLogs options then []
                      else [LogWarn ''Invalid controlPaneId, skipping layout''])
      else if terminalWidth \<le> 0 \<or> terminalHeight \<le> 0
      then (Resolved, if suppressLogs options then []
                      else [LogWarn (''Invalid terminal dimensions: '' @ showInt terminalWidth
                                     @ ''x'' @ showInt terminalHeight @ '', skipping layout'')])
      else (case steps controlPaneId contentPaneIds terminalWidth terminalHeight config options of
              (effects, None) \<Rightarrow> (Resolved, effects)
            | (effects, Some err) \<Rightarrow>
                (Resolved, effects @ [LogError (''Layout recalculation failed: '' @ err)])))"

section \<open>Pane lifecycle locks and the pane-removed handler (DmuxApp.tsx, actions/closeAction.ts)\<close>

text \<open>
  Modelled from the spec: \<open>PaneLifecycleManager\<close> (services/PaneLifecycleManager.ts is not
  among the sources; only its callers are). A lock is keyed by a pane identifier and
  holds a reason and the time it was acquired. \<open>beginClose\<close> acquires the lock (an id
  that is already locked keeps its lock), \<open>isClosing\<close> and \<open>isLocked\<close> observe it,
  \<open>completeClose\<close> releases it, and the periodic sweep (\<open>cleanupStaleOperations\<close>, every
  60 seconds in DmuxApp.tsx) releases the locks older than a timeout.
\<close>

record LifecycleLock =
  lockReason :: string
  acquiredAt :: nat

type_synonym LifecycleLocks = "string \<rightharpoonup> LifecycleLock"

definition beginClose :: "string \<Rightarrow> string \<Rightarrow> nat \<Rightarrow> LifecycleLocks \<Rightarrow> LifecycleLocks" where
  "beginClose paneKey why now locks =
     (case locks paneKey of
        Some l \<Rightarrow> locks
      | None \<Rightarrow> locks(paneKey \<mapsto> \<lparr>lockReason = why, acquiredAt = now\<rparr>))"

definition isClosing :: "string \<Rightarrow> LifecycleLocks \<Rightarrow> bool" where
  "isClosing paneKey locks = (locks paneKey \<noteq> None)"

definition isLocked :: "string \<Rightarrow> LifecycleLocks \<Rightarrow> bool" where
  "isLocked paneKey locks = (locks paneKey \<noteq> None)"

definition completeClose :: "string \<Rightarrow> LifecycleLocks \<Rightarrow> LifecycleLocks" where
  "completeClose paneKey locks = locks(paneKey := None)"

definition cleanupStaleOperations :: "nat \<Rightarrow> nat \<Rightarrow> LifecycleLocks \<Rightarrow> LifecycleLocks" where
  "cleanupStaleOperations lockTimeout now locks =
     (\<lambda>k. case locks k of
            None \<Rightarrow> None
          | Some l \<Rightarrow> if now - acquiredAt l > lockTimeout then None else Some l)"

text \<open>
  The state the handlers of \<open>DmuxApp\<close> work on: the lifecycle locks, the tracked panes, the
  collections handed to \<open>savePanes\<close> (each one a write of the state file through the
  write queue), the time, and the number of dev-session restarts.
\<close>

record PaneApp =
  lifecycle :: LifecycleLocks
  appPanes :: "DmuxPane list"
  savedPanes :: "DmuxPane list list"
  clock :: nat
  devRestarts :: nat

text \<open>\<open>savePanes\<close> (usePanes.ts): the collection is written and becomes the tracked one.\<close>

definition savePanes :: "DmuxPane list \<Rightarrow> PaneApp \<Rightarrow> PaneApp" where
  "savePanes newPanes s = s\<lparr>appPanes := newPanes, savedPanes := savedPanes s @ [newPanes]\<rparr>"

text \<open>
  \<open>onPaneRemoved\<close>, the handler given to \<open>useAgentStatus\<close> (DmuxApp.tsx): a pane that is
  being closed or is locked is left alone; any other pane is dropped from the tracked
  collection, which is saved. In dev mode the session restarts when the removed pane's
  worktree is the working directory.
\<close>

definition onPaneRemoved :: "bool \<Rightarrow> string \<Rightarrow> string \<Rightarrow> PaneApp \<Rightarrow> PaneApp" where
  "onPaneRemoved isDevMode cwd paneKey s =
     (if isClosing paneKey (lifecycle s) \<or> isLocked paneKey (lifecycle s) then s
      else (let updatedPanes = filter (\<lambda>p. ident p \<noteq> paneKey) (appPanes s);
                s1 = savePanes updatedPanes s;
                removedPane = find (\<lambda>p. ident p = paneKey) (appPanes s);
                restart = (isDevMode \<and>
                           (case removedPane of
                              None \<Rightarrow> False
                            | Some p \<Rightarrow> (case worktreePath p of
                                           None \<Rightarrow> False
                                         | Some wp \<Rightarrow> wp \<noteq> [] \<and> wp = cwd)))
            in if restart then s1\<lparr>devRestarts := devRestarts s1 + 1\<rparr> else s1))"

text \<open>
  What can happen between \<open>beginClose\<close> and \<open>completeClose\<close>: the close paths acquire and
  release locks (\<open>executeCloseOption\<close> under the pane's \<open>id\<close> and under its \<open>paneId\<close>), the
  sweep runs, time passes, panes are reported removed, collections are saved.
\<close>

datatype AppEvent =
    BeginClose string string
  | CompleteClose string
  | CleanupStale
  | Advance nat
  | PaneRemoved string
  | SavePanes "DmuxPane list"

fun appStep :: "nat \<Rightarrow> bool \<Rightarrow> string \<Rightarrow> PaneApp \<Rightarrow> AppEvent \<Rightarrow> PaneApp" where
  "appStep lockTimeout dev cwd s (BeginClose k why) =
     s\<lparr>lifecycle := beginClose k why (clock s) (lifecycle s)\<rparr>"
| "appStep lockTimeout dev cwd s (CompleteClose k) =
     s\<lparr>lifecycle := completeClose k (lifecycle s)\<rparr>"
| "appStep lockTimeout dev cwd s CleanupStale =
     s\<lparr>lifecycle := cleanupStaleOperations lockTimeout (clock s) (lifecycle s)\<rparr>"
| "appStep lockTimeout dev cwd s (Advance dt) = s\<lparr>clock := clock s + dt\<rparr>"
| "appStep lockTimeout dev cwd s (PaneRemoved k) = onPaneRemoved dev cwd k s"
| "appStep lockTimeout dev cwd s (SavePanes ps) = savePanes ps s"

text \<open>An event ends the lock of \<open>k\<close> when it completes the close of \<open>k\<close>, or when it is a
  sweep that finds the lock older than the timeout.\<close>

definition endsLock :: "nat \<Rightarrow> string \<Rightarrow> PaneApp \<Rightarrow> AppEvent \<Rightarrow> bool" where
  "endsLock lockTimeout k s e =
     (case e of
        CompleteClose j \<Rightarrow> j = k
      | CleanupStale \<Rightarrow> (case lifecycle s k of
                           None \<Rightarrow> False
                         | Some l \<Rightarrow> clock s - acquiredAt l > lockTimeout)
      | _ \<Rightarrow> False)"

fun lockKept :: "nat \<Rightarrow> bool \<Rightarrow> string \<Rightarrow> string \<Rightarrow> PaneApp \<Rightarrow> AppEvent list \<Rightarrow> bool" where
  "lockKept lockTimeout dev cwd k s [] = True"
| "lockKept lockTimeout dev cwd k s (e # es) =
     (\<not> endsLock lockTimeout k s e
      \<and> lockKept lockTimeout dev cwd k (appStep lockTimeout dev cwd s e) es)"

definition examplePaneApp :: PaneApp where
  "examplePaneApp =
     \<lparr>lifecycle = Map.empty,
      appPanes = [mkPane ''x'' (Some ''/repo/.dmux/worktrees/x'')],
      savedPanes = [], clock = 0, devRestarts = 0\<rparr>"

section \<open>Pane reconciliation (hooks/usePanes.ts)\<close>

text \<open>
  \<open>loadPanes\<close> of usePanes.ts is among the sources; the helpers it calls are not
  (usePaneLoading.ts, usePaneSync.ts, useShellDetection.ts, utils/paneRebinding.ts).
  They are modelled from section 4.5 of the specification, each under its own name.

  The multiplexer is the list of its live content panes, each with its id, title and
  working directory. The sidebar, the spacer and the placeholder pane are not content
  panes and stay outside this list, so the layout refresh that may follow a write does
  not touch it. External calls are taken to succeed; a helper that throws makes
  \<open>loadPanes\<close> log and return without writing. The helpers leave the state file alone:
  the specification gives the write to the persisting step, \<open>saveUpdatedPaneConfig\<close> in
  \<open>loadPanes\<close>, and \<open>fileWrites\<close> counts its calls.
\<close>

record LivePane =
  lpId :: string
  lpTitle :: string
  lpCwd :: string

record World =
  stateFile :: "DmuxPane list"
  livePanes :: "LivePane list"
  panesRef :: "DmuxPane list"
  initialLoadComplete :: bool
  isLoadingPanes :: bool
  pendingLoad :: bool
  fileWrites :: nat

text \<open>Modelled from the spec: \<open>fetchTmuxPaneIds\<close>, the live pane ids and the map from
  titles to ids (\<open>query live panes (id, title, ...)\<close>).\<close>

definition allPaneIdsOf :: "LivePane list \<Rightarrow> string list" where
  "allPaneIdsOf live = map lpId live"

definition titleToIdOf :: "LivePane list \<Rightarrow> (string \<rightharpoonup> string)" where
  "titleToIdOf live = map_of (map (\<lambda>lp. (lpTitle lp, lpId lp)) live)"

text \<open>Modelled from the spec: \<open>rebindPaneByTitle\<close> (\<open>REBINDING\<close>: a record whose external id is
  not in the live list is rebound to a live pane whose title equals its slug, if any).\<close>

definition rebindPaneByTitle :: "DmuxPane \<Rightarrow> (string \<rightharpoonup> string) \<Rightarrow> string list \<Rightarrow> DmuxPane" where
  "rebindPaneByTitle p titleToId allPaneIds =
     (if paneId p \<in> set allPaneIds then p
      else (case titleToId (slug p) of
              Some i \<Rightarrow> p\<lparr>paneId := i\<rparr>
            | None \<Rightarrow> p))"

text \<open>A record is of shell kind when its \<open>type\<close> is \<open>'shell'\<close>; an absent \<open>type\<close> means
  worktree (types.ts).\<close>

definition isShellPane :: "DmuxPane \<Rightarrow> bool" where
  "isShellPane p = (ptype p = Some shell)"

text \<open>Modelled from the spec: \<open>rebindAndFilterPanes\<close> (\<open>REBINDING\<close> and \<open>PRUNING\<close>: shell
  panes that cannot be rebound are dropped; worktree panes that cannot be rebound are
  kept, to be recreated).\<close>

record RebindResult =
  activePanes :: "DmuxPane list"
  shellPanesRemoved :: bool
  worktreePanesToRecreate :: "DmuxPane list"

definition rebindAndFilterPanes ::
  "DmuxPane list \<Rightarrow> (string \<rightharpoonup> string) \<Rightarrow> string list \<Rightarrow> RebindResult" where
  "rebindAndFilterPanes loadedPanes titleToId allPaneIds =
     (let rebound = map (\<lambda>p. rebindPaneByTitle p titleToId allPaneIds) loadedPanes;
          active = filter (\<lambda>p. paneId p \<in> set allPaneIds \<or> \<not> isShellPane p) rebound
      in \<lparr>activePanes = active,
          shellPanesRemoved = list_ex (\<lambda>p. paneId p \<notin> set allPaneIds \<and> isShellPane p) rebound,
          worktreePanesToRecreate = filter (\<lambda>p. paneId p \<notin> set allPaneIds) active\<rparr>)"

text \<open>Modelled from the spec: \<open>recreateKilledWorktreePanes\<close> (\<open>RECREATING\<close>: a fresh pane is
  split, \<open>cd\<close>'d into the original \<open>worktreePath\<close>, and the record's external id is
  updated). \<open>newPaneId\<close> is the id the multiplexer gives a new pane, from the ids in use.\<close>

fun recreateKilledWorktreePanes ::
  "(string list \<Rightarrow> string) \<Rightarrow> string list \<Rightarrow> DmuxPane list \<Rightarrow> LivePane list
     \<Rightarrow> DmuxPane list \<times> LivePane list" where
  "recreateKilledWorktreePanes newPaneId allPaneIds [] live = ([], live)"
| "recreateKilledWorktreePanes newPaneId allPaneIds (p # ps) live =
     (if paneId p \<in> set allPaneIds
      then (let r = recreateKilledWorktreePanes newPaneId allPaneIds ps live
            in (p # fst r, snd r))
      else (let fresh = newPaneId (allPaneIdsOf live);
                created = \<lparr>lpId = fresh, lpTitle = [],
                           lpCwd = (case worktreePath p of Some wp \<Rightarrow> wp | None \<Rightarrow> [])\<rparr>;
                r = recreateKilledWorktreePanes newPaneId allPaneIds ps (live @ [created])
            in (p\<lparr>paneId := fresh\<rparr> # fst r, snd r)))"

text \<open>Modelled from the spec: \<open>detectAndAddShellPanes\<close> (\<open>DETECTING_UNTRACKED\<close>: any live
  pane not matched to a record is adopted as a new shell-kind record).\<close>

definition adoptShellPane :: "LivePane \<Rightarrow> DmuxPane" where
  "adoptShellPane lp =
     \<lparr>ident = ''dmux-'' @ lpId lp, slug = ''shell-'' @ lpId lp, prompt = [],
      paneId = lpId lp, ptype = Some shell, worktreePath = None\<rparr>"

definition detectAndAddShellPanes ::
  "DmuxPane list \<Rightarrow> string list \<Rightarrow> LivePane list \<Rightarrow> DmuxPane list \<times> bool" where
  "detectAndAddShellPanes tracked allPaneIds live =
     (let untracked = filter (\<lambda>lp. lpId lp \<in> set allPaneIds
                                   \<and> lpId lp \<notin> set (map paneId tracked)) live
      in (tracked @ map adoptShellPane untracked, untracked \<noteq> []))"

text \<open>Modelled from the spec: \<open>enforcePaneTitles\<close> (title enforcement: the title of a
  tracked pane is its slug).\<close>

definition enforcePaneTitles :: "DmuxPane list \<Rightarrow> LivePane list \<Rightarrow> LivePane list" where
  "enforcePaneTitles tracked live =
     map (\<lambda>lp. case find (\<lambda>p. paneId p = lpId lp) tracked of
                  Some p \<Rightarrow> lp\<lparr>lpTitle := slug p\<rparr>
                | None \<Rightarrow> lp) live"

text \<open>
  The first part of the body of \<open>loadPanes\<close> after the initial-load branch, up to
  \<open>enforcePaneTitles\<close>: load, rebind and filter, recreate and rebind again when there is
  something to recreate, detect untracked panes (against the pane ids fetched at the
  start), enforce titles.

  Modelled from the spec: \<open>loadAndProcessPanes\<close> (\<open>LOADING\<close>: read the persisted collection
  from the state file), which also hands over the live pane ids and the title map.
\<close>

record Reconciled =
  rcLoaded :: "DmuxPane list"
  rcFinal :: "DmuxPane list"
  rcAdded :: bool
  rcRemoved :: bool
  rcLive :: "LivePane list"

definition reconcilePanes :: "(string list \<Rightarrow> string) \<Rightarrow> World \<Rightarrow> Reconciled" where
  "reconcilePanes newPaneId w =
     (let loadedPanes = stateFile w;
          allPaneIds = allPaneIdsOf (livePanes w);
          titleToId = titleToIdOf (livePanes w);
          rb = rebindAndFilterPanes loadedPanes titleToId allPaneIds;
          recreated =
            (if worktreePanesToRecreate rb \<noteq> []
             then (let r = recreateKilledWorktreePanes newPaneId allPaneIds (activePanes rb)
                             (livePanes w)
                   in (map (\<lambda>p. rebindPaneByTitle p (titleToIdOf (snd r))
                                    (allPaneIdsOf (snd r))) (fst r), snd r))
             else (activePanes rb, livePanes w));
          detected = detectAndAddShellPanes (fst recreated) allPaneIds (snd recreated)
      in \<lparr>rcLoaded = loadedPanes, rcFinal = fst detected, rcAdded = snd detected,
          rcRemoved = shellPanesRemoved rb,
          rcLive = enforcePaneTitles (fst detected) (snd recreated)\<rparr>)"

text \<open>\<open>panes.map(p => `${p.id}:${p.paneId}`).sort().join(',')\<close>.\<close>

definition paneIdsKey :: "DmuxPane list \<Rightarrow> string" where
  "paneIdsKey ps = joinComma (sort (map (\<lambda>p. ident p @ '':'' @ paneId p) ps))"

text \<open>\<open>finalPanes.some((pane, idx) => loadedPanes[idx] && loadedPanes[idx].paneId !==
  pane.paneId)\<close>.\<close>

definition idsChangedIn :: "DmuxPane list \<Rightarrow> DmuxPane list \<Rightarrow> bool" where
  "idsChangedIn finalPanes loadedPanes =
     list_ex (\<lambda>(pane, l). paneId l \<noteq> paneId pane) (zip finalPanes loadedPanes)"

text \<open>
  The second part of the body: the in-memory collection is replaced when the pane ids
  changed or shell panes were added or removed, and the state file is written
  (\<open>saveUpdatedPaneConfig\<close>, the whole corrected collection) only when ids were remapped
  or shell panes were added or removed.
\<close>

definition loadPanesPass :: "(string list \<Rightarrow> string) \<Rightarrow> World \<Rightarrow> World" where
  "loadPanesPass newPaneId w =
     (let rc = reconcilePanes newPaneId w;
          finalPanes = rcFinal rc;
          shellPanesAdded = rcAdded rc;
          shellPanesRemoved = rcRemoved rc;
          w1 = w\<lparr>livePanes := rcLive rc\<rparr>;
          currentPaneIds = paneIdsKey (panesRef w);
          newPaneIds = paneIdsKey finalPanes;
          idsChanged = idsChangedIn finalPanes (rcLoaded rc)
      in if currentPaneIds \<noteq> newPaneIds \<or> shellPanesAdded \<or> shellPanesRemoved
         then (let w2 = w1\<lparr>panesRef := finalPanes\<rparr>
               in if idsChanged \<or> shellPanesAdded \<or> shellPanesRemoved
                  then w2\<lparr>stateFile := finalPanes, fileWrites := fileWrites w2 + 1\<rparr>
                  else w2)
         else w1)"

text \<open>
  \<open>loadPanes\<close>. A call that finds a pass in flight only sets \<open>pendingLoad\<close>. Otherwise
  the \<open>do ... while (pendingLoad.current)\<close> body runs; calls in succession do not overlap,
  so nothing sets \<open>pendingLoad\<close> during the body and it runs once. The first call is the
  initial load: it takes the loaded collection as it is, marks the load complete and
  \<open>continue\<close>s. \<open>finally\<close> clears \<open>isLoadingPanes\<close>.
\<close>

definition loadPanes :: "(string list \<Rightarrow> string) \<Rightarrow> bool \<Rightarrow> World \<Rightarrow> World" where
  "loadPanes newPaneId skipLoading w =
     (if skipLoading then w
      else if isLoadingPanes w then w\<lparr>pendingLoad := True\<rparr>
      else (let w1 = w\<lparr>isLoadingPanes := True, pendingLoad := False\<rparr>;
                w2 = (if \<not> initialLoadComplete w1
                      then w1\<lparr>panesRef := stateFile w1, initialLoadComplete := True\<rparr>
                      else loadPanesPass newPaneId w1)
            in w2\<lparr>isLoadingPanes := False\<rparr>))"

text \<open>Ids without a comma or a colon, as the multiplexer's \<open>%12\<close> and the tool's
  \<open>dmux-1712\<close> are.\<close>

definition plainId :: "string \<Rightarrow> bool" where
  "plainId s = (CHR '','' \<notin> set s \<and> CHR '':'' \<notin> set s)"

definition plainIds :: "World \<Rightarrow> bool" where
  "plainIds w =
     (list_all (\<lambda>p. plainId (ident p) \<and> plainId (paneId p)) (stateFile w)
      \<and> list_all (\<lambda>lp. plainId (lpId lp)) (livePanes w))"

text \<open>A small allocator for examples: a \<open>%\<close> followed by as many zeros as there are
  characters in the ids in use, so longer than each of them.\<close>

definition exampleNewPaneId :: "string list \<Rightarrow> string" where
  "exampleNewPaneId used = CHR ''%'' # replicate (length (concat used)) (CHR ''0'')"

definition worldAtStart :: World where
  "worldAtStart =
     \<lparr>stateFile = [], livePanes = [\<lparr>lpId = ''%5'', lpTitle = ''zsh'', lpCwd = ''/repo''\<rparr>],
      panesRef = [], initialLoadComplete = False, isLoadingPanes = False,
      pendingLoad = False, fileWrites = 0\<rparr>"

text \<open>A world after the initial load in which the pane of the worktree record \<open>x\<close> was
  replaced by a pane that still carries its title, the pane of the worktree record \<open>y\<close>
  was killed, the shell pane \<open>%4\<close> exited and the user split a pane \<open>%8\<close> by hand.\<close>

definition paneX :: DmuxPane where
  "paneX = \<lparr>ident = ''dmux-1'', slug = ''x'', prompt = ''fix x'', paneId = ''%1'',
            ptype = Some worktree, worktreePath = Some ''/wt/x''\<rparr>"

definition paneY :: DmuxPane where
  "paneY = \<lparr>ident = ''dmux-2'', slug = ''y'', prompt = ''fix y'', paneId = ''%3'',
            ptype = None, worktreePath = Some ''/wt/y''\<rparr>"

definition paneSh :: DmuxPane where
  "paneSh = \<lparr>ident = ''dmux-3'', slug = ''shell-1'', prompt = [], paneId = ''%4'',
             ptype = Some shell, worktreePath = None\<rparr>"

definition worldAfterKill :: World where
  "worldAfterKill =
     \<lparr>stateFile = [paneX, paneY, paneSh],
      livePanes = [\<lparr>lpId = ''%7'', lpTitle = ''x'', lpCwd = ''/wt/x''\<rparr>,
                   \<lparr>lpId = ''%8'', lpTitle = ''zsh'', lpCwd = ''/repo''\<rparr>],
      panesRef = [paneX, paneY, paneSh], initialLoadComplete = True,
      isLoadingPanes = False, pendingLoad = False, fileWrites = 0\<rparr>"



section \<open>Properties of the layout calculator\<close>

lemma js_rem_nonneg: "0 \<le> a \<Longrightarrow> 0 < b \<Longrightarrow> js_rem a b = a mod b"
  by (cases "a = 0") (simp_all add: js_rem_def)

lemma sum_list_extra:
  "sum_list (map (\<lambda>i. b + (if int i < r then 1 else 0)) [0..<k])
     = int k * b + max 0 (min r (int k))"
  by (induction k) (auto simp: algebra_simps)

text \<open>
  C7. For \<open>n \<ge> 0\<close> and \<open>cols \<ge> 1\<close>, \<open>distributePanes n cols\<close> has exactly \<open>cols\<close> entries,
  they sum to \<open>n\<close>, any two differ by at most 1, the first \<open>n mod cols\<close> entries carry the
  extra pane, and \<open>distributePanes 5 3 = [2, 2, 1]\<close>.
\<close>

theorem distributePanes_even:
  assumes "0 \<le> n" and "1 \<le> k"
  shows "length (distributePanes n k) = nat k
       \<and> sum_list (distributePanes n k) = n
       \<and> (\<forall>a \<in> set (distributePanes n k). \<forall>b \<in> set (distributePanes n k). \<bar>a - b\<bar> \<le> 1)
       \<and> (\<forall>i < nat k. distributePanes n k ! i = n div k + (if int i < n mod k then 1 else 0))
       \<and> distributePanes 5 3 = [2, 2, 1]"
proof -
  have r: "js_rem n k = n mod k" using assms by (simp add: js_rem_nonneg)
  have rb: "0 \<le> n mod k" "n mod k < k" using assms by simp_all
  have len: "length (distributePanes n k) = nat k" by (simp add: distributePanes_def)
  have total: "sum_list (distributePanes n k) = n"
    using assms rb by (simp add: distributePanes_def r sum_list_extra Let_def)
  have close: "\<forall>a \<in> set (distributePanes n k). \<forall>b \<in> set (distributePanes n k). \<bar>a - b\<bar> \<le> 1"
    by (auto simp: distributePanes_def Let_def)
  have first: "\<forall>i < nat k. distributePanes n k ! i = n div k + (if int i < n mod k then 1 else 0)"
    by (simp add: distributePanes_def r Let_def)
  have ex: "distributePanes 5 3 = [2, 2, 1]"
    by (simp add: distributePanes_def js_rem_def Let_def upt_rec)
  from len total close first ex show ?thesis by blast
qed

theorem distributePanes_even_witness:
  "(0::int) \<le> 7 \<and> (1::int) \<le> 4
   \<and> length (distributePanes 7 4) = 4 \<and> sum_list (distributePanes 7 4) = 7
   \<and> distributePanes 7 4 = [2, 2, 2, 1]"
proof -
  have d: "distributePanes 7 4 = [2, 2, 2, 1]"
    by (simp add: distributePanes_def js_rem_def Let_def upt_rec)
  have "length (distributePanes 7 4) = nat 4 \<and> sum_list (distributePanes 7 4) = 7"
    using distributePanes_even [of 7 4] by simp
  with d show ?thesis by simp
qed

lemma ceil_div_pos: "0 < n \<Longrightarrow> 0 < c \<Longrightarrow> 1 \<le> ceil_div n c"
proof -
  assume "0 < n" and "0 < c"
  then have "(- n) div c < 0" by (simp add: div_neg_pos_less0)
  then show ?thesis by (simp add: ceil_div_def)
qed

lemma layoutStep_inv:
  assumes "0 < n" and "1 \<le> c"
    and "\<forall>b. fst best = Some b \<longrightarrow> 1 \<le> cols b \<and> 1 \<le> rows b"
  shows "\<forall>b. fst (layoutStep cfg n w h best c) = Some b \<longrightarrow> 1 \<le> cols b \<and> 1 \<le> rows b"
  using assms ceil_div_pos [of n c]
  by (auto simp: layoutStep_def Let_def)

lemma foldl_layoutStep_inv:
  assumes "0 < n" and "\<forall>c \<in> set cs. 1 \<le> c"
    and "\<forall>b. fst best = Some b \<longrightarrow> 1 \<le> cols b \<and> 1 \<le> rows b"
  shows "\<forall>b. fst (foldl (layoutStep cfg n w h) best cs) = Some b \<longrightarrow> 1 \<le> cols b \<and> 1 \<le> rows b"
  using assms
proof (induction cs arbitrary: best)
  case Nil
  then show ?case by simp
next
  case (Cons c cs)
  from Cons.prems(2) have c1: "1 \<le> c" and cs1: "\<forall>c \<in> set cs. 1 \<le> c"
    by simp_all
  have step: "\<forall>b. fst (layoutStep cfg n w h best c) = Some b \<longrightarrow> 1 \<le> cols b \<and> 1 \<le> rows b"
    by (rule layoutStep_inv [OF Cons.prems(1) c1 Cons.prems(3)])
  have "\<forall>b. fst (foldl (layoutStep cfg n w h) (layoutStep cfg n w h best c) cs) = Some b
          \<longrightarrow> 1 \<le> cols b \<and> 1 \<le> rows b"
    by (rule Cons.IH [OF Cons.prems(1) cs1 step])
  then show ?case by (simp only: foldl_Cons)
qed

lemma foldl_layoutStep_none:
  assumes "\<forall>c \<in> set cs. \<not> fitsTerminal cfg n w h c"
  shows "foldl (layoutStep cfg n w h) best cs = best"
  using assms by (induction cs arbitrary: best) (simp_all add: layoutStep_def Let_def)

lemma upto_1_3: "[1..3::int] = [1, 2, 3]"
  by (simp add: upto_rec1)

text \<open>
  The scenario of the specification: 3 panes in a 119 x 40 terminal, sidebar 40, pane width
  between 60 and 100, pane height at least 15. No column count passes the filter: one
  column needs \<open>3 * 15 + 2 = 47\<close> rows, two columns need \<open>40 + 2 * 60 + 1 = 161\<close> cells.
\<close>

lemma no_candidate_3_119_40:
  "\<forall>c \<in> set [1..3].
     \<not> fitsTerminal \<lparr>SIDEBAR_WIDTH = 40, MIN_COMFORTABLE_WIDTH = 60,
                       MAX_COMFORTABLE_WIDTH = 100, MIN_COMFORTABLE_HEIGHT = 15\<rparr> 3 119 40 c"
  by (simp add: upto_1_3 fitsTerminal_def ceil_div_def minFeasiblePaneWidth_def Let_def)

lemma layout_3_119_40:
  "calculateOptimalLayout \<lparr>SIDEBAR_WIDTH = 40, MIN_COMFORTABLE_WIDTH = 60,
                           MAX_COMFORTABLE_WIDTH = 100, MIN_COMFORTABLE_HEIGHT = 15\<rparr> 3 119 40
   = \<lparr>cols = 1, rows = 3, windowWidth = 119, paneDistribution = [3], actualPaneWidth = 79\<rparr>"
  by (simp add: calculateOptimalLayout_def upto_1_3 layoutStep_def fitsTerminal_def ceil_div_def
        minFeasiblePaneWidth_def singleColumnFallback_def Let_def)

text \<open>
  C2. For every pane count \<open>n \<ge> 1\<close>, every terminal size and every configuration,
  \<open>calculateOptimalLayout\<close> (a total function: it has no failing branch) returns a layout
  with \<open>cols \<ge> 1\<close> and \<open>rows \<ge> 1\<close>; when no column count in \<open>1..n\<close> passes the
  feasibility filter, the result is the single-column fallback, \<open>cols = 1\<close> and
  \<open>rows = n\<close>. The proof does not look into \<open>scoreLayout\<close>.
\<close>

theorem calculateOptimalLayout_total:
  assumes "1 \<le> n" and "0 < w" and "0 < h"
  shows "1 \<le> cols (calculateOptimalLayout cfg n w h)
       \<and> 1 \<le> rows (calculateOptimalLayout cfg n w h)
       \<and> ((\<forall>c \<in> set [1..n]. \<not> fitsTerminal cfg n w h c) \<longrightarrow>
            calculateOptimalLayout cfg n w h = singleColumnFallback cfg n w
          \<and> cols (calculateOptimalLayout cfg n w h) = 1
          \<and> rows (calculateOptimalLayout cfg n w h) = n)"
proof -
  let ?r = "foldl (layoutStep cfg n w h) (None, - 1) (rev [1..n])"
  have inv: "\<forall>b. fst ?r = Some b \<longrightarrow> 1 \<le> cols b \<and> 1 \<le> rows b"
    using assms by (intro foldl_layoutStep_inv) auto
  have a: "1 \<le> cols (calculateOptimalLayout cfg n w h)
         \<and> 1 \<le> rows (calculateOptimalLayout cfg n w h)"
    using assms inv
    by (auto simp: calculateOptimalLayout_def singleColumnFallback_def split: option.splits)
  have b: "calculateOptimalLayout cfg n w h = singleColumnFallback cfg n w"
    if "\<forall>c \<in> set [1..n]. \<not> fitsTerminal cfg n w h c"
  proof -
    have "?r = (None, - 1)" using that by (intro foldl_layoutStep_none) auto
    then show ?thesis using assms by (simp add: calculateOptimalLayout_def)
  qed
  show ?thesis using a b by (auto simp: singleColumnFallback_def)
qed

theorem calculateOptimalLayout_total_witness:
  "(1::int) \<le> 3 \<and> (0::int) < 119 \<and> (0::int) < 40
   \<and> \<not> fitsTerminal \<lparr>SIDEBAR_WIDTH = 40, MIN_COMFORTABLE_WIDTH = 60,
                       MAX_COMFORTABLE_WIDTH = 100, MIN_COMFORTABLE_HEIGHT = 15\<rparr> 3 119 40 1
   \<and> \<not> fitsTerminal \<lparr>SIDEBAR_WIDTH = 40, MIN_COMFORTABLE_WIDTH = 60,
                       MAX_COMFORTABLE_WIDTH = 100, MIN_COMFORTABLE_HEIGHT = 15\<rparr> 3 119 40 2
   \<and> \<not> fitsTerminal \<lparr>SIDEBAR_WIDTH = 40, MIN_COMFORTABLE_WIDTH = 60,
                       MAX_COMFORTABLE_WIDTH = 100, MIN_COMFORTABLE_HEIGHT = 15\<rparr> 3 119 40 3
   \<and> cols (calculateOptimalLayout \<lparr>SIDEBAR_WIDTH = 40, MIN_COMFORTABLE_WIDTH = 60,
              MAX_COMFORTABLE_WIDTH = 100, MIN_COMFORTABLE_HEIGHT = 15\<rparr> 3 119 40) = 1
   \<and> rows (calculateOptimalLayout \<lparr>SIDEBAR_WIDTH = 40, MIN_COMFORTABLE_WIDTH = 60,
              MAX_COMFORTABLE_WIDTH = 100, MIN_COMFORTABLE_HEIGHT = 15\<rparr> 3 119 40) = 3"
proof -
  let ?cfg = "\<lparr>SIDEBAR_WIDTH = 40, MIN_COMFORTABLE_WIDTH = 60,
               MAX_COMFORTABLE_WIDTH = 100, MIN_COMFORTABLE_HEIGHT = 15\<rparr>"
  have pos: "(1::int) \<le> 3" "(0::int) < 119" "(0::int) < 40"
    by simp_all
  have none: "\<forall>c \<in> set [1..3]. \<not> fitsTerminal ?cfg 3 119 40 c"
    by (rule no_candidate_3_119_40)
  have each: "\<not> fitsTerminal ?cfg 3 119 40 1 \<and> \<not> fitsTerminal ?cfg 3 119 40 2
            \<and> \<not> fitsTerminal ?cfg 3 119 40 3"
    using none by (simp add: upto_1_3)
  have "cols (calculateOptimalLayout ?cfg 3 119 40) = 1
      \<and> rows (calculateOptimalLayout ?cfg 3 119 40) = 3"
    using calculateOptimalLayout_total [OF pos, of ?cfg] none by blast
  with each show ?thesis by simp
qed

text \<open>
  C6, as stated: 3 panes, 119 x 40, widths 60 to 100, height 15, sidebar 40 give 2 columns
  and 2 rows. The calculator returns the single-column fallback instead.
\<close>

theorem layout_3_119_40_not_2x2:
  "\<not> (cols (calculateOptimalLayout \<lparr>SIDEBAR_WIDTH = 40, MIN_COMFORTABLE_WIDTH = 60,
               MAX_COMFORTABLE_WIDTH = 100, MIN_COMFORTABLE_HEIGHT = 15\<rparr> 3 119 40) = 2
      \<and> rows (calculateOptimalLayout \<lparr>SIDEBAR_WIDTH = 40, MIN_COMFORTABLE_WIDTH = 60,
               MAX_COMFORTABLE_WIDTH = 100, MIN_COMFORTABLE_HEIGHT = 15\<rparr> 3 119 40) = 2)"
  by (simp add: layout_3_119_40)

text \<open>
  C6, amended: for that input \<open>calculateOptimalLayout\<close> returns the single-column
  fallback, 1 column and 3 rows, with the full terminal width 119 as window width.
\<close>

theorem layout_3_119_40_fallback:
  "calculateOptimalLayout \<lparr>SIDEBAR_WIDTH = 40, MIN_COMFORTABLE_WIDTH = 60,
                           MAX_COMFORTABLE_WIDTH = 100, MIN_COMFORTABLE_HEIGHT = 15\<rparr> 3 119 40
     = singleColumnFallback \<lparr>SIDEBAR_WIDTH = 40, MIN_COMFORTABLE_WIDTH = 60,
                           MAX_COMFORTABLE_WIDTH = 100, MIN_COMFORTABLE_HEIGHT = 15\<rparr> 3 119
   \<and> cols (calculateOptimalLayout \<lparr>SIDEBAR_WIDTH = 40, MIN_COMFORTABLE_WIDTH = 60,
              MAX_COMFORTABLE_WIDTH = 100, MIN_COMFORTABLE_HEIGHT = 15\<rparr> 3 119 40) = 1
   \<and> rows (calculateOptimalLayout \<lparr>SIDEBAR_WIDTH = 40, MIN_COMFORTABLE_WIDTH = 60,
              MAX_COMFORTABLE_WIDTH = 100, MIN_COMFORTABLE_HEIGHT = 15\<rparr> 3 119 40) = 3"
  by (simp add: layout_3_119_40 singleColumnFallback_def)

section \<open>Properties of the sibling slug\<close>

lemma siblingNumbers_Nil: "siblingNumbers base [] = {}"
  by (simp add: siblingNumbers_def)

lemma startsWith_append: "startsWith s p \<longleftrightarrow> (\<exists>suf. s = p @ suf)"
  unfolding startsWith_def
  by (metis append_eq_conv_conj append_take_drop_id)

lemma siblingMatch_iff:
  "siblingMatch pre p \<longleftrightarrow> (\<exists>suf. allDigits suf \<and> pre @ suf = slug p)"
proof
  assume m: "siblingMatch pre p"
  then obtain suf where s: "slug p = pre @ suf"
    using startsWith_append by (auto simp: siblingMatch_def)
  then have "drop (length pre) (slug p) = suf" by simp
  with m s show "\<exists>suf. allDigits suf \<and> pre @ suf = slug p"
    by (auto simp: siblingMatch_def)
next
  assume "\<exists>suf. allDigits suf \<and> pre @ suf = slug p"
  then obtain suf where a: "allDigits suf" and e: "pre @ suf = slug p" by blast
  have "startsWith (slug p) pre" using e startsWith_append by metis
  moreover have "drop (length pre) (slug p) = suf" using e by (metis append_eq_conv_conj)
  ultimately show "siblingMatch pre p" using a by (simp add: siblingMatch_def)
qed

lemma siblingNumbers_Cons_match:
  assumes "siblingMatch (base @ ''-a'') p"
  shows "siblingNumbers base (p # ps) =
         insert (digitsValue (drop (length (base @ ''-a'')) (slug p))) (siblingNumbers base ps)"
proof -
  obtain suf where a: "allDigits suf" and e: "(base @ ''-a'') @ suf = slug p"
    using assms siblingMatch_iff by blast
  have d: "drop (length (base @ ''-a'')) (slug p) = suf"
    using e by (metis append_eq_conv_conj)
  have u: "\<And>s. base @ ''-a'' @ s = slug p \<Longrightarrow> s = suf"
    using e by (metis append.assoc same_append_eq)
  have "siblingNumbers base (p # ps) = insert (digitsValue suf) (siblingNumbers base ps)"
  proof (rule set_eqI)
    fix n
    show "n \<in> siblingNumbers base (p # ps) \<longleftrightarrow> n \<in> insert (digitsValue suf) (siblingNumbers base ps)"
    proof
      assume "n \<in> siblingNumbers base (p # ps)"
      then obtain s where s: "allDigits s" "base @ ''-a'' @ s \<in> slug ` set (p # ps)" "n = digitsValue s"
        unfolding siblingNumbers_def by blast
      show "n \<in> insert (digitsValue suf) (siblingNumbers base ps)"
      proof (cases "base @ ''-a'' @ s = slug p")
        case True
        then have "s = suf" by (rule u)
        with s show ?thesis by simp
      next
        case False
        with s have "base @ ''-a'' @ s \<in> slug ` set ps" by auto
        with s have "n \<in> siblingNumbers base ps" unfolding siblingNumbers_def by blast
        then show ?thesis by simp
      qed
    next
      assume "n \<in> insert (digitsValue suf) (siblingNumbers base ps)"
      then consider "n = digitsValue suf" | "n \<in> siblingNumbers base ps" by blast
      then show "n \<in> siblingNumbers base (p # ps)"
      proof cases
        case 1
        have "base @ ''-a'' @ suf \<in> slug ` set (p # ps)" using e by simp
        with a 1 show ?thesis unfolding siblingNumbers_def by blast
      next
        case 2
        then show ?thesis unfolding siblingNumbers_def by auto
      qed
    qed
  qed
  then show ?thesis by (simp only: d)
qed

lemma siblingNumbers_Cons_nomatch:
  assumes "\<not> siblingMatch (base @ ''-a'') p"
  shows "siblingNumbers base (p # ps) = siblingNumbers base ps"
proof -
  have "\<And>suf. allDigits suf \<Longrightarrow> base @ ''-a'' @ suf \<noteq> slug p"
    using assms siblingMatch_iff [of "base @ ''-a''" p] by auto
  then show ?thesis unfolding siblingNumbers_def by auto
qed

lemma finite_siblingNumbers: "finite (siblingNumbers base ps)"
proof (induction ps)
  case Nil
  then show ?case by (simp add: siblingNumbers_Nil)
next
  case (Cons p ps)
  then show ?case
    by (cases "siblingMatch (base @ ''-a'') p")
       (simp_all add: siblingNumbers_Cons_match siblingNumbers_Cons_nomatch)
qed

lemma siblingStep_match:
  "siblingMatch pre p \<Longrightarrow>
   siblingStep pre (Some m) p
     = (if digitsValue (drop (length pre) (slug p)) \<le> maxSafeInteger
        then Some (max m (digitsValue (drop (length pre) (slug p)))) else None)"
  by (simp add: siblingStep_def siblingMatch_def parseInt10_def Let_def)

lemma siblingStep_nomatch: "\<not> siblingMatch pre p \<Longrightarrow> siblingStep pre m p = m"
  by (auto simp: siblingStep_def siblingMatch_def Let_def)

lemma siblingStep_None: "siblingStep pre None p = None"
  by (simp add: siblingStep_def Let_def)

lemma foldl_siblingStep_None: "foldl (siblingStep pre) None ps = None"
  by (induction ps) (simp_all add: siblingStep_None)

lemma foldl_siblingStep:
  "foldl (siblingStep (base @ ''-a'')) (Some m) ps
     = (if \<forall>n \<in> siblingNumbers base ps. n \<le> maxSafeInteger
        then Some (Max (insert m (siblingNumbers base ps))) else None)"
proof (induction ps arbitrary: m)
  case Nil
  then show ?case by (simp add: siblingNumbers_Nil)
next
  case (Cons p ps)
  show ?case
  proof (cases "siblingMatch (base @ ''-a'') p")
    case True
    define k where "k = digitsValue (drop (length (base @ ''-a'')) (slug p))"
    have st: "siblingStep (base @ ''-a'') (Some m) p
              = (if k \<le> maxSafeInteger then Some (max m k) else None)"
      using True by (simp add: siblingStep_match k_def)
    have sn: "siblingNumbers base (p # ps) = insert k (siblingNumbers base ps)"
      using True by (simp add: siblingNumbers_Cons_match k_def)
    have mx: "Max (insert (max m k) (siblingNumbers base ps))
              = Max (insert m (insert k (siblingNumbers base ps)))"
      using finite_siblingNumbers [of base ps]
      by (cases "siblingNumbers base ps = {}") (simp_all add: max.assoc)
    show ?thesis
    proof (cases "k \<le> maxSafeInteger")
      case True
      have "foldl (siblingStep (base @ ''-a'')) (Some m) (p # ps)
            = foldl (siblingStep (base @ ''-a'')) (Some (max m k)) ps"
        using True by (simp only: foldl_Cons st if_True)
      also have "\<dots> = (if \<forall>n \<in> siblingNumbers base ps. n \<le> maxSafeInteger
                       then Some (Max (insert (max m k) (siblingNumbers base ps))) else None)"
        by (rule Cons.IH)
      finally show ?thesis using True by (simp only: mx sn) simp
    next
      case False
      have "foldl (siblingStep (base @ ''-a'')) (Some m) (p # ps)
            = foldl (siblingStep (base @ ''-a'')) None ps"
        using False by (simp only: foldl_Cons st if_False)
      then show ?thesis using False by (simp add: foldl_siblingStep_None sn)
    qed
  next
    case False
    have st: "siblingStep (base @ ''-a'') (Some m) p = Some m"
      using False by (rule siblingStep_nomatch)
    have sn: "siblingNumbers base (p # ps) = siblingNumbers base ps"
      using False by (rule siblingNumbers_Cons_nomatch)
    have "foldl (siblingStep (base @ ''-a'')) (Some m) (p # ps)
          = foldl (siblingStep (base @ ''-a'')) (Some m) ps"
      by (simp only: foldl_Cons st)
    also have "\<dots> = (if \<forall>n \<in> siblingNumbers base ps. n \<le> maxSafeInteger
                     then Some (Max (insert m (siblingNumbers base ps))) else None)"
      by (rule Cons.IH)
    finally show ?thesis by (simp only: sn)
  qed
qed

lemma showNat_small: "n < 10 \<Longrightarrow> showNat n = [digitChar n]"
  by (simp add: showNat.simps)

lemma mkPane_sel: "slug (mkPane s w) = s" "worktreePath (mkPane s w) = w"
  by (simp_all add: mkPane_def)

lemma two_safe:
  "Suc (Suc 0) \<le> maxSafeInteger" "Suc (Suc (Suc 0)) \<le> maxSafeInteger"
  "2 \<le> maxSafeInteger" "3 \<le> maxSafeInteger"
  by (simp_all add: maxSafeInteger_def)

lemma siblingNumbers_safe:
  "(\<forall>n \<in> siblingNumbers base ex. n < maxSafeInteger)
   \<longleftrightarrow> Max (insert 1 (siblingNumbers base ex)) + 1 \<le> maxSafeInteger"
proof -
  have "1 < maxSafeInteger" by (simp add: maxSafeInteger_def)
  then show ?thesis
    using finite_siblingNumbers [of base ex]
    by (simp add: Suc_le_eq)
qed

lemma generateSiblingSlug_max:
  assumes "\<forall>n \<in> siblingNumbers (siblingBaseSlug t) ex. n < maxSafeInteger"
  shows "generateSiblingSlugForTargetPane t ex
     = Some (siblingBaseSlug t @ ''-a''
             @ showNat (Max (insert 1 (siblingNumbers (siblingBaseSlug t) ex)) + 1))"
proof -
  have "\<forall>n \<in> siblingNumbers (siblingBaseSlug t) ex. n \<le> maxSafeInteger"
    using assms by (simp add: less_imp_le)
  moreover have "Max (insert 1 (siblingNumbers (siblingBaseSlug t) ex)) + 1 \<le> maxSafeInteger"
    using assms by (simp only: siblingNumbers_safe)
  ultimately show ?thesis
    by (simp add: generateSiblingSlugForTargetPane_def Let_def foldl_siblingStep)
qed

lemma sibling_x_a3:
  "generateSiblingSlugForTargetPane (mkPane ''x'' (Some ''/repo/.dmux/worktrees/x''))
     [mkPane ''x'' None, mkPane ''x-a2'' None] = Some ''x-a3''"
  by (simp add: generateSiblingSlugForTargetPane_def siblingBaseSlug_def mkPane_def basename_def
      siblingStep_def startsWith_def allDigits_def isDigit_def parseInt10_def digitsValue_def
      Let_def showNat_small digitChar_def two_safe)

lemma sibling_from_attached:
  "generateSiblingSlugForTargetPane (mkPane ''x-a2'' (Some ''/repo/.dmux/worktrees/x''))
     [mkPane ''x'' None, mkPane ''x-a2'' None] = Some ''x-a3''"
  by (simp add: generateSiblingSlugForTargetPane_def siblingBaseSlug_def mkPane_def basename_def
      siblingStep_def startsWith_def allDigits_def isDigit_def parseInt10_def digitsValue_def
      Let_def showNat_small digitChar_def two_safe)

lemma sibling_x_a0:
  "generateSiblingSlugForTargetPane (mkPane ''x'' (Some ''x'')) [mkPane ''x-a0'' None]
     = Some ''x-a2''"
  by (simp add: generateSiblingSlugForTargetPane_def siblingBaseSlug_def mkPane_def basename_def
      siblingStep_def startsWith_def allDigits_def isDigit_def parseInt10_def digitsValue_def
      Let_def showNat_small digitChar_def two_safe)

lemma siblingNumbers_x_a0: "siblingNumbers ''x'' [mkPane ''x-a0'' None] = {0}"
proof -
  have m: "siblingMatch (''x'' @ ''-a'') (mkPane ''x-a0'' None)"
    by (simp add: siblingMatch_def startsWith_def allDigits_def isDigit_def mkPane_def)
  show ?thesis
    using siblingNumbers_Cons_match [OF m, of "[]"]
    by (simp add: siblingNumbers_Nil mkPane_def digitsValue_def)
qed

lemma claimed_x_a0:
  "claimedSiblingSlug (mkPane ''x'' (Some ''x'')) [mkPane ''x-a0'' None] = ''x-a1''"
proof -
  have b: "basename ''x'' = ''x''" by (simp add: basename_def)
  show ?thesis
    by (simp add: claimedSiblingSlug_def mkPane_sel Let_def b siblingNumbers_x_a0
        showNat_small digitChar_def)
qed

text \<open>
  C8, as stated: the result is \<open>base-a(m + 1)\<close> with \<open>m\<close> the maximum numeric suffix of the
  existing \<open>base-a<digits>\<close> slugs (1 when there is none). With the single existing slug
  \<open>x-a0\<close> that reading gives \<open>x-a1\<close>; the function returns \<open>x-a2\<close>, because \<open>maxSibling\<close>
  starts at 1 and is never lowered.
\<close>

theorem sibling_slug_suffix_zero:
  "generateSiblingSlugForTargetPane (mkPane ''x'' (Some ''x'')) [mkPane ''x-a0'' None]
     = Some ''x-a2''
   \<and> claimedSiblingSlug (mkPane ''x'' (Some ''x'')) [mkPane ''x-a0'' None] = ''x-a1''"
  by (simp add: sibling_x_a0 claimed_x_a0)

text \<open>
  C8, amended: the base slug is the basename of the target pane's \<open>worktreePath\<close> (the
  pane's own slug when the path is absent, or when the path or its basename is empty).
  When every numeric suffix of the existing slugs of the form \<open>base-a<digits>\<close> is below
  \<open>Number.MAX_SAFE_INTEGER\<close>, the result is \<open>base-a(m + 1)\<close> where \<open>m\<close> is the larger of 1
  and the maximum of these suffixes. With existing slugs \<open>x\<close> and \<open>x-a2\<close> and a target on
  worktree directory \<open>x\<close> the result is \<open>x-a3\<close>, also when the target is the attached
  pane \<open>x-a2\<close> itself: the target's own slug does not enter the result when the basename
  is not empty.
\<close>

theorem sibling_slug_max_plus_one:
  "(\<forall>p. worktreePath t = Some p \<and> basename p \<noteq> []
        \<and> (\<forall>n \<in> siblingNumbers (basename p) ex. n < maxSafeInteger) \<longrightarrow>
        generateSiblingSlugForTargetPane t ex
          = Some (basename p @ ''-a''
                  @ showNat (Max (insert 1 (siblingNumbers (basename p) ex)) + 1)))
   \<and> ((worktreePath t = None \<or> worktreePath t = Some [] \<or>
        (\<exists>p. worktreePath t = Some p \<and> basename p = []))
       \<and> (\<forall>n \<in> siblingNumbers (slug t) ex. n < maxSafeInteger) \<longrightarrow>
        generateSiblingSlugForTargetPane t ex
          = Some (slug t @ ''-a''
                  @ showNat (Max (insert 1 (siblingNumbers (slug t) ex)) + 1)))
   \<and> generateSiblingSlugForTargetPane (mkPane ''x'' (Some ''/repo/.dmux/worktrees/x''))
        [mkPane ''x'' None, mkPane ''x-a2'' None] = Some ''x-a3''
   \<and> generateSiblingSlugForTargetPane (mkPane ''x-a2'' (Some ''/repo/.dmux/worktrees/x''))
        [mkPane ''x'' None, mkPane ''x-a2'' None] = Some ''x-a3''"
proof -
  have a: "generateSiblingSlugForTargetPane t ex
          = Some (basename p @ ''-a''
                  @ showNat (Max (insert 1 (siblingNumbers (basename p) ex)) + 1))"
    if "worktreePath t = Some p \<and> basename p \<noteq> []
        \<and> (\<forall>n \<in> siblingNumbers (basename p) ex. n < maxSafeInteger)" for p
  proof -
    from that have "p \<noteq> []" by (auto simp: basename_def)
    with that have b: "siblingBaseSlug t = basename p" by (simp add: siblingBaseSlug_def)
    have "\<forall>n \<in> siblingNumbers (siblingBaseSlug t) ex. n < maxSafeInteger"
      using that unfolding b by blast
    from generateSiblingSlug_max [OF this] show ?thesis by (simp only: b)
  qed
  have b: "generateSiblingSlugForTargetPane t ex
          = Some (slug t @ ''-a'' @ showNat (Max (insert 1 (siblingNumbers (slug t) ex)) + 1))"
    if "(worktreePath t = None \<or> worktreePath t = Some [] \<or>
        (\<exists>p. worktreePath t = Some p \<and> basename p = []))
        \<and> (\<forall>n \<in> siblingNumbers (slug t) ex. n < maxSafeInteger)"
  proof -
    from that have b: "siblingBaseSlug t = slug t" by (auto simp: siblingBaseSlug_def)
    have "\<forall>n \<in> siblingNumbers (siblingBaseSlug t) ex. n < maxSafeInteger"
      using that unfolding b by blast
    from generateSiblingSlug_max [OF this] show ?thesis by (simp only: b)
  qed
  from a b sibling_x_a3 sibling_from_attached show ?thesis by blast
qed

lemma siblingNumbers_cli_login:
  "siblingNumbers ''cli-login''
     [mkPane ''cli-login'' None, mkPane ''cli-login-a2'' None, mkPane ''cli-login-a4'' None]
   = {2, 4}"
proof -
  have m2: "siblingMatch (''cli-login'' @ ''-a'') (mkPane ''cli-login-a2'' None)"
    and m4: "siblingMatch (''cli-login'' @ ''-a'') (mkPane ''cli-login-a4'' None)"
    and m0: "\<not> siblingMatch (''cli-login'' @ ''-a'') (mkPane ''cli-login'' None)"
    by (simp_all add: siblingMatch_def startsWith_def allDigits_def isDigit_def mkPane_def)
  show ?thesis
    by (simp only: siblingNumbers_Cons_nomatch [OF m0] siblingNumbers_Cons_match [OF m2]
        siblingNumbers_Cons_match [OF m4] siblingNumbers_Nil mkPane_sel)
       (simp add: digitsValue_def insert_commute)
qed

theorem sibling_slug_max_plus_one_witness:
  "worktreePath (mkPane ''cli-login-a4'' (Some ''/repo/.dmux/worktrees/cli-login''))
     = Some ''/repo/.dmux/worktrees/cli-login''
   \<and> basename ''/repo/.dmux/worktrees/cli-login'' = ''cli-login''
   \<and> siblingNumbers ''cli-login''
        [mkPane ''cli-login'' None, mkPane ''cli-login-a2'' None, mkPane ''cli-login-a4'' None]
      = {2, 4}
   \<and> generateSiblingSlugForTargetPane
        (mkPane ''cli-login-a4'' (Some ''/repo/.dmux/worktrees/cli-login''))
        [mkPane ''cli-login'' None, mkPane ''cli-login-a2'' None, mkPane ''cli-login-a4'' None]
      = Some ''cli-login-a5''"
proof -
  let ?t = "mkPane ''cli-login-a4'' (Some ''/repo/.dmux/worktrees/cli-login'')"
  let ?ex = "[mkPane ''cli-login'' None, mkPane ''cli-login-a2'' None,
              mkPane ''cli-login-a4'' None]"
  have w: "worktreePath ?t = Some ''/repo/.dmux/worktrees/cli-login''"
    by (simp add: mkPane_sel)
  have b: "basename ''/repo/.dmux/worktrees/cli-login'' = ''cli-login''"
    by (simp add: basename_def)
  have ne: "basename ''/repo/.dmux/worktrees/cli-login'' \<noteq> []"
    by (simp only: b) simp
  have sf: "\<forall>n \<in> siblingNumbers (basename ''/repo/.dmux/worktrees/cli-login'') ?ex.
              n < maxSafeInteger"
    by (simp only: b siblingNumbers_cli_login) (simp add: maxSafeInteger_def)
  from sibling_slug_max_plus_one [of ?t ?ex] w ne sf
  have "generateSiblingSlugForTargetPane ?t ?ex
        = Some (basename ''/repo/.dmux/worktrees/cli-login'' @ ''-a'' @
          showNat (Max (insert 1 (siblingNumbers
             (basename ''/repo/.dmux/worktrees/cli-login'') ?ex)) + 1))"
    by blast
  then have "generateSiblingSlugForTargetPane ?t ?ex = Some ''cli-login-a5''"
    by (simp only: b siblingNumbers_cli_login) (simp add: showNat_small digitChar_def)
  with w b siblingNumbers_cli_login show ?thesis by (simp only: simp_thms)
qed

section \<open>Properties of the settings manager\<close>

lemma resolve_ordered:
  "resolveGlobalPaneWidths K m a b = Inr (lo, hi) \<Longrightarrow> lo \<le> hi"
  by (auto simp: resolveGlobalPaneWidths_def Let_def split: sum.splits if_splits option.splits)

lemma validGlobal_nonnull:
  "globalSettings m \<noteq> SNull \<Longrightarrow> getValidGlobalMinPaneWidth K m = Inr (validGlobalMin K m)"
  "globalSettings m \<noteq> SNull \<Longrightarrow> getValidGlobalMaxPaneWidth K m = Inr (validGlobalMax K m)"
  by (auto simp: validGlobalMin_def validGlobalMax_def getValidGlobalMinPaneWidth_def
      getValidGlobalMaxPaneWidth_def split: option.splits JsValue.splits)

lemma resolve_nonnull:
  assumes "globalSettings m \<noteq> SNull"
  shows "resolveGlobalPaneWidths K m None None
           = Inr (validGlobalMin K m, max (validGlobalMin K m) (validGlobalMax K m))"
    and "resolveGlobalPaneWidths K m (Some a) None
           = Inr (min a (validGlobalMax K m), validGlobalMax K m)"
    and "resolveGlobalPaneWidths K m None (Some b)
           = Inr (validGlobalMin K m, max b (validGlobalMin K m))"
  using assms
  by (simp_all add: resolveGlobalPaneWidths_def validGlobal_nonnull Let_def min_def max_def)

lemma resolve_both:
  "resolveGlobalPaneWidths K m (Some a) (Some b) = Inr (a, max a b)"
  by (simp add: resolveGlobalPaneWidths_def Let_def max_def)

lemma widthsOrdered_nonnull: "globalSettings m \<noteq> SNull \<Longrightarrow> widthsOrdered K d m"
  by (simp add: widthsOrdered_def getSettings_def resolve_nonnull)

lemma getSettings_null: "globalSettings m = SNull \<Longrightarrow> getSettings K d m = Inl TypeError"
  by (simp add: getSettings_def resolveGlobalPaneWidths_def getValidGlobalMinPaneWidth_def
      Let_def)

lemma storePaneWidths_object:
  assumes "globalSettings m = SObject g" and "projectSettings m = SObject p"
    and "resolveGlobalPaneWidths K m a b = Inr (lo, hi)"
  shows "storePaneWidths K m a b
         = (None, definedValue (minPaneWidth p) \<or> definedValue (maxPaneWidth p),
            m\<lparr>globalSettings := SObject (g\<lparr>minPaneWidth := Some (JInt lo),
                                             maxPaneWidth := Some (JInt hi)\<rparr>),
              projectSettings := SObject (withoutPaneWidths p)\<rparr>)"
  using assms
  by (simp add: storePaneWidths_def assignPaneWidths_def deletePaneWidths_def Let_def)

lemma withoutPaneWidths_none: "holdsNoPaneWidth (SObject (withoutPaneWidths p))"
  by (simp add: holdsNoPaneWidth_def withoutPaneWidths_def ownProperties_def definedValue_def)

lemma withoutPaneWidths_same:
  "\<not> (definedValue (minPaneWidth p) \<or> definedValue (maxPaneWidth p)) \<Longrightarrow>
   withoutPaneWidths p = p"
  by (simp add: withoutPaneWidths_def)

lemma roundTrip_holds:
  "holdsPaneWidths lo hi (SObject s) \<Longrightarrow> holdsPaneWidths lo hi (jsonRoundTrip (SObject s))"
  by (simp add: holdsPaneWidths_def jsonRoundTrip_def definedOnly_def ownProperties_def)

lemma roundTrip_none:
  "holdsNoPaneWidth (SObject s) \<Longrightarrow> holdsNoPaneWidth (jsonRoundTrip (SObject s))"
  by (auto simp: holdsNoPaneWidth_def jsonRoundTrip_def definedOnly_def ownProperties_def
      definedValue_def)

lemma spread_holds:
  "minPaneWidth rest = None \<Longrightarrow> maxPaneWidth rest = None \<Longrightarrow>
   holdsPaneWidths lo hi (SObject (spreadOver s rest)) = holdsPaneWidths lo hi (SObject s)"
  "minPaneWidth rest = None \<Longrightarrow> maxPaneWidth rest = None \<Longrightarrow>
   holdsNoPaneWidth (SObject (spreadOver s rest)) = holdsNoPaneWidth (SObject s)"
  by (simp_all add: holdsPaneWidths_def holdsNoPaneWidth_def spreadOver_def ownProperties_def)

lemma holds_assigned:
  "holdsPaneWidths lo hi (SObject (g\<lparr>minPaneWidth := Some (JInt lo), maxPaneWidth := Some (JInt hi)\<rparr>))"
  by (simp add: holdsPaneWidths_def ownProperties_def)

lemma updateSetting_stored:
  assumes g: "globalSettings m = SObject g" and p: "projectSettings m = SObject p"
    and gw: "globalWritable m" and pw: "projectWritable m"
    and key: "key = KeyMinPaneWidth \<and> isValidMinPaneWidth K (Some v) \<and> a = Some (intOf v) \<and> b = None
              \<or> key = KeyMaxPaneWidth \<and> isValidMaxPaneWidth K (Some v) \<and> a = None \<and> b = Some (intOf v)"
    and r: "resolveGlobalPaneWidths K m a b = Inr (lo, hi)"
  shows "fst (updateSetting K ov key v scope m) = None
         \<and> paneWidthsStored lo hi m (snd (updateSetting K ov key v scope m))"
proof -
  note st = storePaneWidths_object [OF g p r]
  let ?m1 = "m\<lparr>globalSettings := SObject (g\<lparr>minPaneWidth := Some (JInt lo),
                                               maxPaneWidth := Some (JInt hi)\<rparr>),
                projectSettings := SObject (withoutPaneWidths p)\<rparr>"
  have u: "updateSetting K ov key v scope m
           = (if definedValue (minPaneWidth p) \<or> definedValue (maxPaneWidth p)
              then (case saveProjectSettings ?m1 of
                      (Some e, m2) \<Rightarrow> (Some e, m2)
                    | (None, m2) \<Rightarrow> saveGlobalSettings m2)
              else saveGlobalSettings ?m1)"
    using key st by (auto simp: updateSetting_def)
  show ?thesis
  proof (cases "definedValue (minPaneWidth p) \<or> definedValue (maxPaneWidth p)")
    case True
    then show ?thesis
      using gw pw
      by (simp add: u saveProjectSettings_def saveGlobalSettings_def paneWidthsStored_def
          roundTrip_holds roundTrip_none holds_assigned withoutPaneWidths_none)
  next
    case False
    then have "holdsNoPaneWidth (projectSettings m)"
      by (simp add: p holdsNoPaneWidth_def ownProperties_def)
    then show ?thesis
      using gw pw False
      by (simp add: u saveGlobalSettings_def paneWidthsStored_def roundTrip_holds
          holds_assigned withoutPaneWidths_none split: option.splits)
  qed
qed

lemma updateSettings_stored:
  assumes g: "globalSettings m = SObject g" and p: "projectSettings m = SObject p"
    and gw: "globalWritable m" and pw: "projectWritable m"
    and ov: "othersValid (others s)"
    and vmin: "definedValue (minPaneWidth s) \<longrightarrow> isValidMinPaneWidth K (minPaneWidth s)"
    and vmax: "definedValue (maxPaneWidth s) \<longrightarrow> isValidMaxPaneWidth K (maxPaneWidth s)"
    and upd: "definedValue (minPaneWidth s) \<or> definedValue (maxPaneWidth s)"
    and r: "resolveGlobalPaneWidths K m (widthOverride (minPaneWidth s))
              (widthOverride (maxPaneWidth s)) = Inr (lo, hi)"
  shows "fst (updateSettings K othersValid s scope m) = None
         \<and> paneWidthsStored lo hi m (snd (updateSettings K othersValid s scope m))"
proof -
  note st = storePaneWidths_object [OF g p r]
  let ?g1 = "g\<lparr>minPaneWidth := Some (JInt lo), maxPaneWidth := Some (JInt hi)\<rparr>"
  let ?m1 = "m\<lparr>globalSettings := SObject ?g1, projectSettings := SObject (withoutPaneWidths p)\<rparr>"
  let ?rest = "s\<lparr>minPaneWidth := None, maxPaneWidth := None\<rparr>"
  let ?changed = "definedValue (minPaneWidth p) \<or> definedValue (maxPaneWidth p)"
  have rest: "minPaneWidth ?rest = None" "maxPaneWidth ?rest = None" by simp_all
  have hg: "holdsPaneWidths lo hi (SObject (spreadOver ?g1 ?rest))"
    by (simp add: spread_holds holds_assigned)
  have hp: "holdsNoPaneWidth (SObject (spreadOver (withoutPaneWidths p) ?rest))"
    by (simp add: spread_holds withoutPaneWidths_none)
  have same: "\<not> ?changed \<Longrightarrow> holdsNoPaneWidth (projectSettings m)"
    by (simp add: p holdsNoPaneWidth_def ownProperties_def)
  have valid: "\<not> (definedValue (minPaneWidth s) \<and> \<not> isValidMinPaneWidth K (minPaneWidth s))"
    "\<not> (definedValue (maxPaneWidth s) \<and> \<not> isValidMaxPaneWidth K (maxPaneWidth s))"
    using vmin vmax by blast+
  show ?thesis
  proof (cases "scope = ScopeGlobal")
    case True
    have u: "updateSettings K othersValid s scope m
             = (let m2 = (if hasKeys ?rest
                          then ?m1\<lparr>globalSettings := SObject (spreadOver ?g1 ?rest)\<rparr>
                          else ?m1)
                in case saveGlobalSettings m2 of
                     (Some e, m3) \<Rightarrow> (Some e, m3)
                   | (None, m3) \<Rightarrow> if ?changed then saveProjectSettings m3 else (None, m3))"
      using ov upd True
      by (simp only: updateSettings_def valid if_False Let_def st simp_thms if_True)
         (simp add: ownProperties_def)
    show ?thesis
    proof (cases ?changed)
      case True
      then show ?thesis
        using gw pw hg
        by (simp add: u Let_def saveProjectSettings_def saveGlobalSettings_def
            paneWidthsStored_def roundTrip_holds roundTrip_none holds_assigned
            withoutPaneWidths_none)
    next
      case False
      then show ?thesis
        using gw pw hg same
        by (simp add: u Let_def saveGlobalSettings_def paneWidthsStored_def roundTrip_holds
            holds_assigned withoutPaneWidths_none split: option.splits)
    qed
  next
    case False
    have u: "updateSettings K othersValid s scope m
             = (let m2 = (if hasKeys ?rest
                          then ?m1\<lparr>projectSettings :=
                                    SObject (spreadOver (withoutPaneWidths p) ?rest)\<rparr>
                          else ?m1);
                    r = (if ?changed \<or> hasKeys ?rest then saveProjectSettings m2 else (None, m2))
                in case r of
                     (Some e, m3) \<Rightarrow> (Some e, m3)
                   | (None, m3) \<Rightarrow> saveGlobalSettings m3)"
      using ov upd False
      by (simp only: updateSettings_def valid if_False Let_def st simp_thms if_True)
         (simp add: ownProperties_def)
    show ?thesis
    proof (cases "?changed \<or> hasKeys ?rest")
      case True
      then show ?thesis
        using gw pw hp
        by (auto simp: u Let_def saveProjectSettings_def saveGlobalSettings_def
            paneWidthsStored_def roundTrip_holds roundTrip_none holds_assigned
            withoutPaneWidths_none)
    next
      case False
      then show ?thesis
        using gw pw same
        by (simp add: u Let_def saveGlobalSettings_def paneWidthsStored_def roundTrip_holds
            holds_assigned withoutPaneWidths_none split: option.splits)
    qed
  qed
qed

lemma save_keeps_global:
  "globalSettings (snd (saveGlobalSettings m)) = globalSettings m"
  "globalSettings (snd (saveProjectSettings m)) = globalSettings m"
  by (simp_all add: saveGlobalSettings_def saveProjectSettings_def)

lemma assign_nonnull:
  "assignPaneWidths v a b = Inr g \<Longrightarrow> g \<noteq> SNull"
  "assignSetting v k x = Inr g \<Longrightarrow> g \<noteq> SNull"
  by (auto simp: assignPaneWidths_def assignSetting_def split: SettingsValue.splits)

lemma storePaneWidths_nonnull:
  assumes "globalSettings m \<noteq> SNull"
  shows "globalSettings (snd (snd (storePaneWidths K m a b))) \<noteq> SNull"
  using assms
  by (auto simp: storePaneWidths_def Let_def dest: assign_nonnull
      split: sum.splits prod.splits)

lemma updateSetting_nonnull:
  assumes "globalSettings m \<noteq> SNull"
  shows "globalSettings (snd (updateSetting K ov key v scope m)) \<noteq> SNull"
proof (cases key)
  case (KeyOther k)
  then show ?thesis
    using assms
    by (auto simp: updateSetting_def save_keeps_global dest: assign_nonnull split: sum.splits)
next
  case KeyMinPaneWidth
  obtain e c m1 where s: "storePaneWidths K m (Some (intOf v)) None = (e, c, m1)"
    by (cases "storePaneWidths K m (Some (intOf v)) None") auto
  have "globalSettings m1 \<noteq> SNull"
    using storePaneWidths_nonnull [OF assms, of K "Some (intOf v)" None] s by simp
  then show ?thesis
    using KeyMinPaneWidth assms s
    by (auto simp: updateSetting_def save_keeps_global saveProjectSettings_def
        saveGlobalSettings_def split: option.splits prod.splits)
next
  case KeyMaxPaneWidth
  obtain e c m1 where s: "storePaneWidths K m None (Some (intOf v)) = (e, c, m1)"
    by (cases "storePaneWidths K m None (Some (intOf v))") auto
  have "globalSettings m1 \<noteq> SNull"
    using storePaneWidths_nonnull [OF assms, of K None "Some (intOf v)"] s by simp
  then show ?thesis
    using KeyMaxPaneWidth assms s
    by (auto simp: updateSetting_def save_keeps_global saveProjectSettings_def
        saveGlobalSettings_def split: option.splits prod.splits)
qed

lemma updateSettings_nonnull:
  assumes "globalSettings m \<noteq> SNull"
  shows "globalSettings (snd (updateSettings K ovs s scope m)) \<noteq> SNull"
proof -
  let ?a = "widthOverride (minPaneWidth s)"
  let ?b = "widthOverride (maxPaneWidth s)"
  obtain e c m1 where st: "storePaneWidths K m ?a ?b = (e, c, m1)"
    by (cases "storePaneWidths K m ?a ?b") auto
  have "globalSettings m1 \<noteq> SNull"
    using storePaneWidths_nonnull [OF assms, of K ?a ?b] st by simp
  then show ?thesis
    using assms st
    by (auto simp: updateSettings_def Let_def saveProjectSettings_def saveGlobalSettings_def
        split: option.splits prod.splits if_splits)
qed

lemma tested_valid_90: "isValidMinPaneWidth testedWidthConstants (Some (JInt 90))"
  by (simp add: isValidMinPaneWidth_def testedWidthConstants_def)

lemma tested_max_70: "validGlobalMax testedWidthConstants manager_50_70 = 70"
  by (simp add: validGlobalMax_def getValidGlobalMaxPaneWidth_def isValidMaxPaneWidth_def
      testedWidthConstants_def manager_50_70_def ownProperties_def)

lemma tested_min_90_result:
  "snd (updateSetting testedWidthConstants (\<lambda>k v. True) KeyMinPaneWidth (JInt 90)
          ScopeProject manager_50_70)
   = \<lparr>globalSettings = SObject \<lparr>minPaneWidth = Some (JInt 70), maxPaneWidth = Some (JInt 70),
                                others = Map.empty\<rparr>,
      projectSettings = SObject \<lparr>minPaneWidth = None, maxPaneWidth = None,
                                 others = Map.empty\<rparr>,
      globalFile = Some (SObject \<lparr>minPaneWidth = Some (JInt 70), maxPaneWidth = Some (JInt 70),
                                   others = Map.empty\<rparr>),
      projectFile = Some (SObject \<lparr>minPaneWidth = None, maxPaneWidth = None,
                                    others = Map.empty\<rparr>),
      globalWritable = True, projectWritable = True\<rparr>"
  by (simp add: updateSetting_def storePaneWidths_def resolveGlobalPaneWidths_def
      getValidGlobalMinPaneWidth_def getValidGlobalMaxPaneWidth_def isValidMinPaneWidth_def
      isValidMaxPaneWidth_def testedWidthConstants_def manager_50_70_def intOf_def
      assignPaneWidths_def deletePaneWidths_def withoutPaneWidths_def definedValue_def
      ownProperties_def jsonRoundTrip_def definedOnly_def
      saveGlobalSettings_def saveProjectSettings_def Let_def)

text \<open>
  C10, as stated: when an update would break \<open>min \<le> max\<close>, the bound that was not being
  updated is moved to the updated one. With the bounds at 50 and 70, setting
  \<open>minPaneWidth\<close> to 90 would then give 90 and 90. The manager keeps \<open>maxPaneWidth\<close> at 70
  and stores 70 for \<open>minPaneWidth\<close>: the updated bound is the one that is clamped.
\<close>

theorem min_above_max_keeps_max:
  "getSettings testedWidthConstants Map.empty
     (snd (updateSetting testedWidthConstants (\<lambda>k v. True) KeyMinPaneWidth (JInt 90)
             ScopeProject manager_50_70))
   = Inr \<lparr>minPaneWidth = Some (JInt 70), maxPaneWidth = Some (JInt 70), others = Map.empty\<rparr>"
  by (simp only: tested_min_90_result)
     (simp add: getSettings_def resolveGlobalPaneWidths_def getValidGlobalMinPaneWidth_def
        getValidGlobalMaxPaneWidth_def isValidMinPaneWidth_def isValidMaxPaneWidth_def
        testedWidthConstants_def ownProperties_def Let_def)

text \<open>
  C10, amended. \<open>getSettings\<close> throws when the global settings value is \<open>null\<close> (a global
  settings file that holds the JSON document \<open>null\<close>). Otherwise, after construction,
  \<open>updateSetting\<close> and \<open>updateSettings\<close> (whatever their arguments, also when they throw)
  the merged settings of \<open>getSettings\<close> have \<open>minPaneWidth \<le> maxPaneWidth\<close>.

  When both settings values are objects and both files can be written, a valid update of
  one bound, by \<open>updateSetting\<close> or by \<open>updateSettings\<close>, that would break the order stores
  the other bound's current valid global value for it (a new minimum above the maximum is
  stored as the maximum, a new maximum below the minimum as the minimum); when
  \<open>updateSettings\<close> is given both, the maximum is raised to the minimum. Such an update
  returns, whatever scope was requested, with both bounds in the global value and in the
  global file and with no bound in the project value. Afterwards the project file holds
  no bound either, unless the project value held none and the file was not rewritten: it
  is rewritten whenever the project value held a bound.
\<close>

theorem pane_widths_ordered_and_global:
  assumes "globalSettings m = SObject g" and "projectSettings m = SObject p"
    and "globalWritable m" and "projectWritable m"
    and "isValidMinPaneWidth K (Some (JInt a))" and "isValidMaxPaneWidth K (Some (JInt b))"
    and "othersValid (others s)"
  shows
   "(gp \<noteq> Some SNull \<longrightarrow> widthsOrdered K d (newSettingsManager gp pp gw pw))
    \<and> (globalSettings m0 \<noteq> SNull \<longrightarrow>
          widthsOrdered K d (snd (updateSetting K ov key v scope m0)))
    \<and> (globalSettings m0 \<noteq> SNull \<longrightarrow>
          widthsOrdered K d (snd (updateSettings K ovs s0 scope m0)))
    \<and> (globalSettings m0 = SNull \<longrightarrow> getSettings K d m0 = Inl TypeError)
    \<and> fst (updateSetting K ov KeyMinPaneWidth (JInt a) scope m) = None
    \<and> paneWidthsStored (min a (validGlobalMax K m)) (validGlobalMax K m) m
         (snd (updateSetting K ov KeyMinPaneWidth (JInt a) scope m))
    \<and> fst (updateSetting K ov KeyMaxPaneWidth (JInt b) scope m) = None
    \<and> paneWidthsStored (validGlobalMin K m) (max b (validGlobalMin K m)) m
         (snd (updateSetting K ov KeyMaxPaneWidth (JInt b) scope m))
    \<and> (minPaneWidth s = Some (JInt a) \<and> \<not> definedValue (maxPaneWidth s) \<longrightarrow>
          fst (updateSettings K othersValid s scope m) = None
          \<and> paneWidthsStored (min a (validGlobalMax K m)) (validGlobalMax K m) m
               (snd (updateSettings K othersValid s scope m)))
    \<and> (\<not> definedValue (minPaneWidth s) \<and> maxPaneWidth s = Some (JInt b) \<longrightarrow>
          fst (updateSettings K othersValid s scope m) = None
          \<and> paneWidthsStored (validGlobalMin K m) (max b (validGlobalMin K m)) m
               (snd (updateSettings K othersValid s scope m)))
    \<and> (minPaneWidth s = Some (JInt a) \<and> maxPaneWidth s = Some (JInt b) \<longrightarrow>
          fst (updateSettings K othersValid s scope m) = None
          \<and> paneWidthsStored a (max a b) m (snd (updateSettings K othersValid s scope m)))"
proof -
  have nn: "globalSettings m \<noteq> SNull" using assms(1) by simp
  note obj = assms(1,2,3,4)
  have c1: "gp \<noteq> Some SNull \<longrightarrow> widthsOrdered K d (newSettingsManager gp pp gw pw)"
    by (auto intro!: widthsOrdered_nonnull simp: newSettingsManager_def split: option.splits)
  have c2: "globalSettings m0 \<noteq> SNull \<longrightarrow>
            widthsOrdered K d (snd (updateSetting K ov key v scope m0))"
    by (auto intro!: widthsOrdered_nonnull updateSetting_nonnull)
  have c3: "globalSettings m0 \<noteq> SNull \<longrightarrow>
            widthsOrdered K d (snd (updateSettings K ovs s0 scope m0))"
    by (auto intro!: widthsOrdered_nonnull updateSettings_nonnull)
  have c4: "globalSettings m0 = SNull \<longrightarrow> getSettings K d m0 = Inl TypeError"
    by (simp add: getSettings_null)
  have c5: "fst (updateSetting K ov KeyMinPaneWidth (JInt a) scope m) = None
            \<and> paneWidthsStored (min a (validGlobalMax K m)) (validGlobalMax K m) m
                 (snd (updateSetting K ov KeyMinPaneWidth (JInt a) scope m))"
    using assms(5)
    by (intro updateSetting_stored [OF obj, where a = "Some a" and b = None])
       (simp_all add: resolve_nonnull [OF nn] intOf_def)
  have c6: "fst (updateSetting K ov KeyMaxPaneWidth (JInt b) scope m) = None
            \<and> paneWidthsStored (validGlobalMin K m) (max b (validGlobalMin K m)) m
                 (snd (updateSetting K ov KeyMaxPaneWidth (JInt b) scope m))"
    using assms(6)
    by (intro updateSetting_stored [OF obj, where a = None and b = "Some b"])
       (simp_all add: resolve_nonnull [OF nn] intOf_def)
  have c7: "fst (updateSettings K othersValid s scope m) = None
            \<and> paneWidthsStored (min a (validGlobalMax K m)) (validGlobalMax K m) m
                 (snd (updateSettings K othersValid s scope m))"
    if "minPaneWidth s = Some (JInt a) \<and> \<not> definedValue (maxPaneWidth s)"
    using that assms(5,7)
    by (intro updateSettings_stored [OF obj])
       (auto simp: resolve_nonnull [OF nn] widthOverride_def intOf_def definedValue_def)
  have c8: "fst (updateSettings K othersValid s scope m) = None
            \<and> paneWidthsStored (validGlobalMin K m) (max b (validGlobalMin K m)) m
                 (snd (updateSettings K othersValid s scope m))"
    if "\<not> definedValue (minPaneWidth s) \<and> maxPaneWidth s = Some (JInt b)"
    using that assms(6,7)
    by (intro updateSettings_stored [OF obj])
       (auto simp: resolve_nonnull [OF nn] widthOverride_def intOf_def definedValue_def)
  have c9: "fst (updateSettings K othersValid s scope m) = None
            \<and> paneWidthsStored a (max a b) m (snd (updateSettings K othersValid s scope m))"
    if "minPaneWidth s = Some (JInt a) \<and> maxPaneWidth s = Some (JInt b)"
    using that assms(5,6,7)
    by (intro updateSettings_stored [OF obj])
       (auto simp: resolve_both widthOverride_def intOf_def definedValue_def)
  from c1 c2 c3 c4 c5 c6 c7 c8 c9 show ?thesis by blast
qed

theorem pane_widths_ordered_and_global_witness:
  "globalSettings manager_50_70
     = SObject \<lparr>minPaneWidth = Some (JInt 50), maxPaneWidth = Some (JInt 70), others = Map.empty\<rparr>
   \<and> projectSettings manager_50_70
     = SObject \<lparr>minPaneWidth = Some (JInt 60), maxPaneWidth = None, others = Map.empty\<rparr>
   \<and> isValidMinPaneWidth testedWidthConstants (Some (JInt 90))
   \<and> fst (updateSettings testedWidthConstants (\<lambda>x. True)
            \<lparr>minPaneWidth = Some (JInt 90), maxPaneWidth = None, others = Map.empty\<rparr>
            ScopeProject manager_50_70) = None
   \<and> paneWidthsStored 70 70 manager_50_70
        (snd (updateSettings testedWidthConstants (\<lambda>x. True)
            \<lparr>minPaneWidth = Some (JInt 90), maxPaneWidth = None, others = Map.empty\<rparr>
            ScopeProject manager_50_70))
   \<and> paneWidthsStored 70 70 manager_50_70
        (snd (updateSetting testedWidthConstants (\<lambda>k v. True) KeyMinPaneWidth (JInt 90)
            ScopeProject manager_50_70))
   \<and> globalFile (snd (updateSetting testedWidthConstants (\<lambda>k v. True) KeyMinPaneWidth (JInt 90)
            ScopeProject manager_50_70))
      = Some (SObject \<lparr>minPaneWidth = Some (JInt 70), maxPaneWidth = Some (JInt 70),
                       others = Map.empty\<rparr>)
   \<and> projectFile (snd (updateSetting testedWidthConstants (\<lambda>k v. True) KeyMinPaneWidth (JInt 90)
            ScopeProject manager_50_70))
      = Some (SObject \<lparr>minPaneWidth = None, maxPaneWidth = None, others = Map.empty\<rparr>)"
proof -
  let ?g = "\<lparr>minPaneWidth = Some (JInt 50), maxPaneWidth = Some (JInt 70), others = Map.empty\<rparr>"
  let ?p = "\<lparr>minPaneWidth = Some (JInt 60), maxPaneWidth = None, others = Map.empty\<rparr>"
  let ?s = "\<lparr>minPaneWidth = Some (JInt 90), maxPaneWidth = None, others = Map.empty\<rparr>"
  have h1: "globalSettings manager_50_70 = SObject ?g"
    and h2: "projectSettings manager_50_70 = SObject ?p"
    and h3: "globalWritable manager_50_70" and h4: "projectWritable manager_50_70"
    by (simp_all add: manager_50_70_def)
  have h6: "isValidMaxPaneWidth testedWidthConstants (Some (JInt 100))"
    by (simp add: isValidMaxPaneWidth_def testedWidthConstants_def)
  have h7: "(\<lambda>x. True) (others ?s)" by simp
  note t = pane_widths_ordered_and_global
             [where scope = ScopeProject and ov = "\<lambda>k v. True" and m = manager_50_70
                and K = testedWidthConstants,
              OF h1 h2 h3 h4 tested_valid_90 h6 h7, unfolded tested_max_70]
  have s: "minPaneWidth ?s = Some (JInt 90) \<and> \<not> definedValue (maxPaneWidth ?s)"
    by (simp add: definedValue_def)
  have a: "fst (updateSettings testedWidthConstants (\<lambda>x. True) ?s ScopeProject manager_50_70)
           = None
         \<and> paneWidthsStored 70 70 manager_50_70
             (snd (updateSettings testedWidthConstants (\<lambda>x. True) ?s ScopeProject manager_50_70))"
    using t s by simp
  have b: "paneWidthsStored 70 70 manager_50_70
             (snd (updateSetting testedWidthConstants (\<lambda>k v. True) KeyMinPaneWidth (JInt 90)
                ScopeProject manager_50_70))"
    using t by simp
  show ?thesis using h1 h2 tested_valid_90 a b by (simp add: tested_min_90_result)
qed

section \<open>Properties of the layout descriptor and of the layout entry point\<close>

lemma and_mask16_less: "(x::nat) AND 0xFFFF < 65536"
proof -
  have a: "int x AND 65535 \<le> 65535" by (rule AND_upper2) simp
  have "nat (int x AND 65535) < 65536" using a by arith
  then show ?thesis by (simp only: and_nat_def of_nat_numeral)
qed

lemma digit_cases:
  assumes "d < (16::nat)"
  shows "d \<in> set [0, 1, 2, 3, 4, 5, 6, 7, 8, 9, 10, 11, 12, 13, 14, 15]"
proof -
  from assms have "d \<in> set [0..<16]" by simp
  also have "[0..<16] = [0, 1, 2, 3, 4, 5, 6, 7, 8, 9, 10, 11, 12, 13, 14, 15::nat]"
    by (simp add: upt_rec)
  finally show ?thesis .
qed

lemma digitChar_hex: "d < 16 \<Longrightarrow> isLowerHex (digitChar d) \<and> hexDigitValue (digitChar d) = d"
  using digit_cases [of d]
  by (auto simp: digitChar_def isLowerHex_def hexDigitValue_def isDigit_def)

lemma hexValue_zeros: "hexValue (replicate k (CHR ''0'') @ s) = hexValue s"
proof -
  have z: "hexDigitValue (CHR ''0'') = 0" by (simp add: hexDigitValue_def isDigit_def)
  have "foldl (\<lambda>a c. 16 * a + hexDigitValue c) 0 (replicate k (CHR ''0'')) = 0"
    by (induction k) (simp_all add: z)
  then show ?thesis by (simp add: hexValue_def)
qed

lemma list_all_zeros: "list_all isLowerHex (replicate k (CHR ''0''))"
  by (induction k) (simp_all add: isLowerHex_def)

lemma checksumStep_claimed: "foldl checksumStep 0 body = claimedChecksum body"
proof -
  have "checksumStep = (\<lambda>c b. (drop_bit 1 c + push_bit 15 (c AND 1) + of_char b) AND 0xFFFF)"
    by (intro ext) (simp add: checksumStep_def Let_def)
  then show ?thesis by (simp add: claimedChecksum_def)
qed

lemma claimedChecksum_less: "claimedChecksum body < 65536"
proof (cases body rule: rev_cases)
  case Nil
  then show ?thesis by (simp add: claimedChecksum_def)
next
  case (snoc bs b)
  have "claimedChecksum (bs @ [b])
        = (drop_bit 1 (claimedChecksum bs) + push_bit 15 (claimedChecksum bs AND 1) + of_char b)
          AND 0xFFFF"
    by (simp add: claimedChecksum_def)
  then show ?thesis using snoc and_mask16_less by simp
qed

lemma hexValue_append: "hexValue (s @ [c]) = 16 * hexValue s + hexDigitValue c"
  by (simp add: hexValue_def)

lemma toHex_props:
  "list_all isLowerHex (toHex n) \<and> hexValue (toHex n) = n"
proof (induction n rule: toHex.induct)
  case (1 n)
  show ?case
  proof (cases "n < 16")
    case True
    then show ?thesis
      using digitChar_hex [of n] by (simp add: toHex.simps [of n] hexValue_def)
  next
    case False
    have d: "isLowerHex (digitChar (n mod 16)) \<and> hexDigitValue (digitChar (n mod 16)) = n mod 16"
      by (rule digitChar_hex) simp
    from False have t: "toHex n = toHex (n div 16) @ [digitChar (n mod 16)]"
      by (simp add: toHex.simps [of n])
    from 1 [OF False] d show ?thesis
      by (simp add: t hexValue_append)
  qed
qed

lemma toHex_length: "n < 16 ^ k \<Longrightarrow> 0 < k \<Longrightarrow> length (toHex n) \<le> k"
proof (induction k arbitrary: n)
  case 0
  then show ?case by simp
next
  case (Suc k)
  show ?case
  proof (cases "n < 16")
    case True
    then show ?thesis by (simp add: toHex.simps [of n])
  next
    case False
    then have k: "0 < k" using Suc.prems by (cases k) auto
    have "n div 16 < 16 ^ k" using Suc.prems(1) by (simp add: less_mult_imp_div_less mult.commute)
    from Suc.IH [OF this k] False show ?thesis by (simp add: toHex.simps [of n])
  qed
qed

lemma checksum_format:
  "length (calculateLayoutChecksum body) = 4
   \<and> list_all isLowerHex (calculateLayoutChecksum body)
   \<and> hexValue (calculateLayoutChecksum body) = claimedChecksum body"
proof -
  let ?n = "claimedChecksum body"
  have "?n < 16 ^ 4" using claimedChecksum_less [of body] by simp
  then have l: "length (toHex ?n) \<le> 4" by (rule toHex_length) simp
  have c: "calculateLayoutChecksum body = replicate (4 - length (toHex ?n)) (CHR ''0'') @ toHex ?n"
    by (simp add: calculateLayoutChecksum_def padStart_def checksumStep_claimed)
  show ?thesis
    using l toHex_props [of ?n]
    by (simp add: c hexValue_zeros list_all_zeros)
qed

lemma gridRowsLoop_done: "\<not> row < gRows g \<Longrightarrow> gridRowsLoop g row st = st"
  by (simp add: gridRowsLoop.simps [of g row])

lemma gridRowsLoop_step:
  "row < gRows g \<Longrightarrow> gridRowsLoop g row st = gridRowsLoop g (row + 1) (gridRowStep g row st)"
  by (simp add: gridRowsLoop.simps [of g row])

lemma gridRowStep_grows: "length (snd (snd st)) \<le> length (snd (snd (gridRowStep g row st)))"
  by (simp add: gridRowStep_def Let_def split: option.splits)

lemma gridRowsLoop_grows:
  "length (snd (snd st)) \<le> length (snd (snd (gridRowsLoop g row st)))"
proof (induction "nat (gRows g - row)" arbitrary: row st)
  case 0
  then have "\<not> row < gRows g" by simp
  then show ?case by (simp add: gridRowsLoop_done)
next
  case (Suc n)
  then have lt: "row < gRows g" by linarith
  have m: "n = nat (gRows g - (row + 1))" using Suc.hyps(2) by linarith
  have "length (snd (snd (gridRowStep g row st)))
        \<le> length (snd (snd (gridRowsLoop g (row + 1) (gridRowStep g row st))))"
    by (rule Suc.hyps(1) [OF m])
  with gridRowStep_grows [of st g row]
  have "length (snd (snd st))
        \<le> length (snd (snd (gridRowsLoop g (row + 1) (gridRowStep g row st))))"
    by (rule order_trans)
  then show ?case by (simp only: gridRowsLoop_step [OF lt])
qed

lemma length_rowWidths: "0 < k \<Longrightarrow> length (rowWidths g b k) = k"
  by (simp add: rowWidths_def Let_def)

lemma length_rowPaneStrings: "length (rowPaneStrings rh cy ax ps) = length ps"
  by (induction ps arbitrary: ax) auto

lemma rowEntry_Some: "rowPanes \<noteq> [] \<Longrightarrow> \<exists>s. rowEntry g rh cy rowPanes = Some s"
  by (cases rowPanes) (auto simp: rowEntry_def Let_def)

lemma gridRowStep_first:
  assumes "0 < gCols g" and "gContentPanes g \<noteq> []"
  shows "snd (snd (gridRowStep g 0 (0, 0, []))) \<noteq> []"
proof -
  define panesInThisRow where "panesInThisRow = take (nat (gCols g)) (drop 0 (gContentPanes g))"
  have ne: "panesInThisRow \<noteq> []" using assms by (simp add: panesInThisRow_def)
  define rowHeight where "rowHeight = (if 0 = gRows g - 1 then gWindowHeight g - 0 else gPaneHeight g)"
  define rowHasSpacer where "rowHasSpacer = (gLastPaneIsSpacer g \<and> 0 = gRows g - 1
      \<and> panesInThisRow \<noteq> [] \<and> last panesInThisRow = last (gContentPanes g))"
  define rowPanes where "rowPanes = rowPaneStrings rowHeight 0 (gContentStartX g)
      (zip panesInThisRow (rowWidths g rowHasSpacer (length panesInThisRow)))"
  have "length rowPanes = length panesInThisRow"
    using ne by (simp add: rowPanes_def length_rowPaneStrings length_rowWidths)
  with ne have "rowPanes \<noteq> []" by auto
  then obtain s where s: "rowEntry g rowHeight 0 rowPanes = Some s"
    using rowEntry_Some by blast
  have "snd (snd (gridRowStep g 0 (0, 0, []))) = [s]"
    using s
    by (simp add: gridRowStep_def Let_def panesInThisRow_def rowHeight_def rowHasSpacer_def
          rowPanes_def)
  then show ?thesis by simp
qed

lemma gridRowsLoop_nonempty:
  assumes "0 < gRows g" and "0 < gCols g" and "gContentPanes g \<noteq> []"
  shows "snd (snd (gridRowsLoop g 0 (0, 0, []))) \<noteq> []"
proof -
  have "length (snd (snd (gridRowStep g 0 (0, 0, []))))
        \<le> length (snd (snd (gridRowsLoop g (0 + 1) (gridRowStep g 0 (0, 0, [])))))"
    by (rule gridRowsLoop_grows)
  moreover have "gridRowsLoop g 0 (0, 0, []) = gridRowsLoop g (0 + 1) (gridRowStep g 0 (0, 0, []))"
    using assms(1) by (rule gridRowsLoop_step)
  ultimately show ?thesis
    using gridRowStep_first [OF assms(2,3)] by auto
qed

lemma gridParams_sel:
  "gContentPanes (gridParams t ps sw ww wh c mw) = ps"
  "gCols (gridParams t ps sw ww wh c mw) = c"
  "gRows (gridParams t ps sw ww wh c mw) = ceil_div (int (length ps)) c"
  by (simp_all add: gridParams_def Let_def)

lemma generateSidebarGridLayout_checksummed:
  assumes "contentPanes \<noteq> []" and "1 \<le> columns"
  shows "generateSidebarGridLayout getPaneTitle controlPaneId contentPanes sidebarWidth winWidth
           winHeight columns maxComfortableWidth
         = Some (calculateLayoutChecksum
                   (layoutWithoutChecksum controlPaneId sidebarWidth winWidth winHeight
                      (gridParams getPaneTitle contentPanes sidebarWidth winWidth winHeight columns
                         maxComfortableWidth)
                      (snd (snd (gridRowsLoop (gridParams getPaneTitle contentPanes sidebarWidth
                         winWidth winHeight columns maxComfortableWidth) 0 (0, 0, [])))))
                 @ '','' @
                 layoutWithoutChecksum controlPaneId sidebarWidth winWidth winHeight
                      (gridParams getPaneTitle contentPanes sidebarWidth winWidth winHeight columns
                         maxComfortableWidth)
                      (snd (snd (gridRowsLoop (gridParams getPaneTitle contentPanes sidebarWidth
                         winWidth winHeight columns maxComfortableWidth) 0 (0, 0, [])))))"
proof -
  let ?g = "gridParams getPaneTitle contentPanes sidebarWidth winWidth winHeight columns
              maxComfortableWidth"
  have r: "0 < gRows ?g"
    using assms ceil_div_pos [of "int (length contentPanes)" columns]
    by (simp add: gridParams_sel)
  have "snd (snd (gridRowsLoop ?g 0 (0, 0, []))) \<noteq> []"
    using assms r by (intro gridRowsLoop_nonempty) (simp_all add: gridParams_sel)
  then show ?thesis using assms by (simp add: generateSidebarGridLayout_def Let_def)
qed

lemma rows_two:
  "snd (snd (gridRowsLoop (gridParams (\<lambda>p. None) [''%1'', ''%2''] 40 200 60 2 80) 0 (0, 0, [])))
   = [''159x60,41,0{79x60,41,0,1,79x60,121,0,2}'']"
  by (simp add: gridRowsLoop.simps gridRowStep_def gridParams_def ceil_div_def rowWidths_def
        rowEntry_def Let_def showInt_def showNat.simps digitChar_def)

lemma body_two:
  "layoutWithoutChecksum ''%0'' 40 200 60 (gridParams (\<lambda>p. None) [''%1'', ''%2''] 40 200 60 2 80)
     [''159x60,41,0{79x60,41,0,1,79x60,121,0,2}'']
   = ''200x60,0,0{40x60,0,0,0,159x60,41,0{79x60,41,0,1,79x60,121,0,2}}''"
  by (simp add: layoutWithoutChecksum_def gridParams_def ceil_div_def replaceZeroX_def isDigit_def
        Let_def showInt_def showNat.simps digitChar_def)

lemma acc_two:
  "foldl checksumStep 0 ''200x60,0,0{40x60,0,0,0,159x60,41,0{79x60,41,0,1,79x60,121,0,2}}'' = 64990"
  by (simp add: checksumStep_def Let_def)

lemma hex_two: "toHex 64990 = ''fdde''"
  by (simp add: toHex.simps digitChar_def)

lemma layout_two_panes:
  "generateSidebarGridLayout (\<lambda>p. None) ''%0'' [''%1'', ''%2''] 40 200 60 2 80
   = Some ''fdde,200x60,0,0{40x60,0,0,0,159x60,41,0{79x60,41,0,1,79x60,121,0,2}}''"
proof -
  have c: "calculateLayoutChecksum
             ''200x60,0,0{40x60,0,0,0,159x60,41,0{79x60,41,0,1,79x60,121,0,2}}'' = ''fdde''"
    by (simp only: calculateLayoutChecksum_def acc_two hex_two) (simp add: padStart_def)
  show ?thesis
    by (simp only: generateSidebarGridLayout_def Let_def rows_two body_two c) simp
qed

text \<open>
  C1, as stated, asks nothing of the column count. With two panes and a window of 200 by
  60, a column count of \<open>-2\<close> gives \<open>rows = -1\<close>, no grid row and the empty string, which
  has no checksum; a column count of 0 gives \<open>rows = Infinity\<close> and a row loop that does
  not end.
\<close>

theorem layout_nonpositive_columns:
  "generateSidebarGridLayout (\<lambda>p. None) ''%0'' [''%1'', ''%2''] 40 200 60 (- 2) 80 = Some []
   \<and> generateSidebarGridLayout (\<lambda>p. None) ''%0'' [''%1'', ''%2''] 40 200 60 0 80 = None"
proof -
  have r: "gRows (gridParams (\<lambda>p. None) [''%1'', ''%2''] 40 200 60 (- 2) 80) = - 1"
    by (simp add: gridParams_def ceil_div_def Let_def)
  have "gridRowsLoop (gridParams (\<lambda>p. None) [''%1'', ''%2''] 40 200 60 (- 2) 80) 0 (0, 0, [])
        = (0, 0, [])"
    by (rule gridRowsLoop_done) (simp add: r)
  then have a: "generateSidebarGridLayout (\<lambda>p. None) ''%0'' [''%1'', ''%2''] 40 200 60 (- 2) 80
                = Some []"
    by (simp add: generateSidebarGridLayout_def Let_def)
  have b: "generateSidebarGridLayout (\<lambda>p. None) ''%0'' [''%1'', ''%2''] 40 200 60 0 80 = None"
    by (simp add: generateSidebarGridLayout_def)
  from a b show ?thesis by simp
qed

text \<open>
  C1, amended. For a non-empty list of content panes, a column count of at least 1 and positive
  window dimensions, \<open>generateSidebarGridLayout\<close> returns (it does not loop, and it does
  not return the empty string) the descriptor body preceded by its checksum and a comma.
  The checksum has exactly 4 characters, all lowercase hexadecimal digits, and read as a
  hexadecimal number it is the accumulator \<open>c := ((c >> 1) + ((c & 1) << 15) + byte) &
  0xFFFF\<close> run from 0 over the bytes of the body.
\<close>

theorem layout_descriptor_checksum:
  assumes "contentPanes \<noteq> []" and "1 \<le> columns" and "0 < winWidth" and "0 < winHeight"
  shows "\<exists>body. body = layoutWithoutChecksum controlPaneId sidebarWidth winWidth winHeight
                        (gridParams getPaneTitle contentPanes sidebarWidth winWidth winHeight
                           columns maxComfortableWidth)
                        (snd (snd (gridRowsLoop
                           (gridParams getPaneTitle contentPanes sidebarWidth winWidth winHeight
                              columns maxComfortableWidth) 0 (0, 0, []))))
          \<and> generateSidebarGridLayout getPaneTitle controlPaneId contentPanes sidebarWidth
               winWidth winHeight columns maxComfortableWidth
              = Some (calculateLayoutChecksum body @ '','' @ body)
          \<and> length (calculateLayoutChecksum body) = 4
          \<and> list_all isLowerHex (calculateLayoutChecksum body)
          \<and> hexValue (calculateLayoutChecksum body) = claimedChecksum body"
proof -
  define body where
    "body = layoutWithoutChecksum controlPaneId sidebarWidth winWidth winHeight
              (gridParams getPaneTitle contentPanes sidebarWidth winWidth winHeight
                 columns maxComfortableWidth)
              (snd (snd (gridRowsLoop
                 (gridParams getPaneTitle contentPanes sidebarWidth winWidth winHeight
                    columns maxComfortableWidth) 0 (0, 0, []))))"
  have a: "generateSidebarGridLayout getPaneTitle controlPaneId contentPanes sidebarWidth
             winWidth winHeight columns maxComfortableWidth
           = Some (calculateLayoutChecksum body @ '','' @ body)"
    unfolding body_def by (rule generateSidebarGridLayout_checksummed [OF assms(1,2)])
  have b: "length (calculateLayoutChecksum body) = 4
         \<and> list_all isLowerHex (calculateLayoutChecksum body)
         \<and> hexValue (calculateLayoutChecksum body) = claimedChecksum body"
    by (rule checksum_format)
  from a b body_def show ?thesis by (intro exI [of _ body] conjI) simp_all
qed

theorem layout_descriptor_checksum_witness:
  "[''%1'', ''%2''] \<noteq> [] \<and> (1::int) \<le> 2 \<and> (0::int) < 200 \<and> (0::int) < 60
   \<and> (\<exists>body. generateSidebarGridLayout (\<lambda>p. None) ''%0'' [''%1'', ''%2''] 40 200 60 2 80
                = Some (calculateLayoutChecksum body @ '','' @ body)
              \<and> length (calculateLayoutChecksum body) = 4
              \<and> hexValue (calculateLayoutChecksum body) = claimedChecksum body)
   \<and> generateSidebarGridLayout (\<lambda>p. None) ''%0'' [''%1'', ''%2''] 40 200 60 2 80
       = Some ''fdde,200x60,0,0{40x60,0,0,0,159x60,41,0{79x60,41,0,1,79x60,121,0,2}}''"
proof -
  have h: "[''%1'', ''%2''] \<noteq> []" "(1::int) \<le> 2" "(0::int) < 200" "(0::int) < 60"
    by simp_all
  from layout_descriptor_checksum [OF h, of "''%0''" 40 "\<lambda>p. None" 80]
  obtain body where
    "generateSidebarGridLayout (\<lambda>p. None) ''%0'' [''%1'', ''%2''] 40 200 60 2 80
       = Some (calculateLayoutChecksum body @ '','' @ body)"
    and "length (calculateLayoutChecksum body) = 4"
    and "hexValue (calculateLayoutChecksum body) = claimedChecksum body"
    by (elim exE conjE)
  then have "\<exists>body. generateSidebarGridLayout (\<lambda>p. None) ''%0'' [''%1'', ''%2''] 40 200 60 2 80
                = Some (calculateLayoutChecksum body @ '','' @ body)
              \<and> length (calculateLayoutChecksum body) = 4
              \<and> hexValue (calculateLayoutChecksum body) = claimedChecksum body"
    by (intro exI [of _ body] conjI)
  with h layout_two_panes show ?thesis by (intro conjI)
qed

lemma recalculate_resolves:
  "fst (recalculateAndApplyLayout steps controlPaneId contentPaneIds w h config options) = Resolved"
  by (simp add: recalculateAndApplyLayout_def split: prod.splits option.splits)

text \<open>
  C9, as stated: a zero or negative terminal width or height makes the entry point reject,
  loudly and at once. With width 0 the promise resolves, and with \<open>suppressLogs\<close> set
  nothing at all is logged.
\<close>

theorem zero_width_resolves_silently:
  "recalculateAndApplyLayout (\<lambda>c ps w h cfg opts. ([TmuxCommand ''select-layout''], None))
     ''%0'' [''%1''] 0 40 None \<lparr>force = False, suppressLogs = True, disableSpacer = False\<rparr>
   = (Resolved, [])"
  by (simp add: recalculateAndApplyLayout_def)

text \<open>
  C9, amended: called with a zero or negative terminal width or height,
  \<open>recalculateAndApplyLayout\<close> returns at once, before any of its layout steps runs: the
  promise resolves, and the only effect is one warning, which \<open>suppressLogs\<close> suppresses.
  The warning is \<open>Invalid terminal dimensions: WxH, skipping layout\<close>, or \<open>Invalid
  controlPaneId, skipping layout\<close> when the control pane id is empty, since that check
  comes first. The promise resolves for every input, since the body's errors are caught
  and logged too.
\<close>

theorem invalid_dimensions_skip_layout:
  "(w \<le> 0 \<or> h \<le> 0 \<longrightarrow>
      recalculateAndApplyLayout steps controlPaneId contentPaneIds w h config options
        = (Resolved,
           if suppressLogs options then []
           else if controlPaneId = [] then [LogWarn ''Invalid controlPaneId, skipping layout'']
           else [LogWarn (''Invalid terminal dimensions: '' @ showInt w @ ''x'' @ showInt h
                          @ '', skipping layout'')]))
   \<and> fst (recalculateAndApplyLayout steps controlPaneId contentPaneIds w h config options)
       = Resolved"
  by (simp add: recalculate_resolves) (simp add: recalculateAndApplyLayout_def)

theorem invalid_dimensions_skip_layout_witness:
  "(- 5 :: int) \<le> 0
   \<and> recalculateAndApplyLayout (\<lambda>c ps w h cfg opts. ([TmuxCommand ''select-layout''], None))
        ''%0'' [''%1''] (- 5) 40 None \<lparr>force = True, suppressLogs = False, disableSpacer = False\<rparr>
      = (Resolved, [LogWarn ''Invalid terminal dimensions: -5x40, skipping layout''])
   \<and> recalculateAndApplyLayout (\<lambda>c ps w h cfg opts. ([TmuxCommand ''select-layout''], None))
        [] [''%1''] 80 0 None \<lparr>force = True, suppressLogs = False, disableSpacer = False\<rparr>
      = (Resolved, [LogWarn ''Invalid controlPaneId, skipping layout''])"
proof -
  have s: "showInt (- 5) = ''-5''" "showInt 40 = ''40''"
    by (simp_all add: showInt_def showNat.simps digitChar_def)
  from invalid_dimensions_skip_layout
         [of "- 5" 40 "\<lambda>c ps w h cfg opts. ([TmuxCommand ''select-layout''], None)" "''%0''"
             "[''%1'']" None "\<lparr>force = True, suppressLogs = False, disableSpacer = False\<rparr>"]
  have a: "recalculateAndApplyLayout (\<lambda>c ps w h cfg opts. ([TmuxCommand ''select-layout''], None))
          ''%0'' [''%1''] (- 5) 40 None \<lparr>force = True, suppressLogs = False, disableSpacer = False\<rparr>
        = (Resolved, [LogWarn (''Invalid terminal dimensions: '' @ showInt (- 5) @ ''x''
                               @ showInt 40 @ '', skipping layout'')])"
    by simp
  from invalid_dimensions_skip_layout
         [of 80 0 "\<lambda>c ps w h cfg opts. ([TmuxCommand ''select-layout''], None)" "[]"
             "[''%1'']" None "\<lparr>force = True, suppressLogs = False, disableSpacer = False\<rparr>"]
  have b: "recalculateAndApplyLayout (\<lambda>c ps w h cfg opts. ([TmuxCommand ''select-layout''], None))
          [] [''%1''] 80 0 None \<lparr>force = True, suppressLogs = False, disableSpacer = False\<rparr>
        = (Resolved, [LogWarn ''Invalid controlPaneId, skipping layout''])"
    by simp
  from a b show ?thesis by (simp add: s)
qed

section \<open>Properties of the lifecycle fence\<close>

lemma onPaneRemoved_fenced:
  "isClosing k (lifecycle s) \<or> isLocked k (lifecycle s) \<Longrightarrow> onPaneRemoved dev cwd k s = s"
  by (simp add: onPaneRemoved_def)

lemma beginClose_locks: "isClosing k (beginClose k why now locks) \<and> isLocked k (beginClose k why now locks)"
  by (simp add: isClosing_def isLocked_def beginClose_def split: option.splits)

lemma appStep_keeps_lock:
  assumes "isLocked k (lifecycle s)" and "\<not> endsLock T k s e"
  shows "isLocked k (lifecycle (appStep T dev cwd s e))"
proof (cases e)
  case (BeginClose j why)
  then show ?thesis using assms
    by (auto simp: isLocked_def beginClose_def split: option.splits)
next
  case (CompleteClose j)
  then show ?thesis using assms
    by (auto simp: isLocked_def completeClose_def endsLock_def)
next
  case CleanupStale
  then show ?thesis using assms
    by (auto simp: isLocked_def cleanupStaleOperations_def endsLock_def split: option.splits)
next
  case (Advance dt)
  then show ?thesis using assms by simp
next
  case (PaneRemoved j)
  then show ?thesis using assms
    by (auto simp: onPaneRemoved_def savePanes_def Let_def)
next
  case (SavePanes ps)
  then show ?thesis using assms by (simp add: savePanes_def)
qed

lemma lockKept_run:
  assumes "isLocked k (lifecycle s)" and "lockKept T dev cwd k s es"
  shows "isLocked k (lifecycle (foldl (appStep T dev cwd) s es))"
  using assms
proof (induction es arbitrary: s)
  case Nil
  then show ?case by simp
next
  case (Cons e es)
  from Cons.prems have "isLocked k (lifecycle (appStep T dev cwd s e))"
    by (simp add: appStep_keeps_lock)
  moreover from Cons.prems have "lockKept T dev cwd k (appStep T dev cwd s e) es"
    by simp
  ultimately show ?case using Cons.IH by simp
qed

text \<open>
  C5. Once \<open>beginClose(id)\<close> has been called, whatever happens next, as long as no
  \<open>completeClose(id)\<close> has run and no sweep has found the lock timed out, \<open>isClosing(id)\<close>
  and \<open>isLocked(id)\<close> hold and the pane-removed handler, called for \<open>id\<close>, returns with
  the state as it was: no record removed, nothing saved. In any state where
  \<open>isClosing(id)\<close> or \<open>isLocked(id)\<close> holds the handler does nothing.
\<close>

theorem close_fences_pane_removed:
  "(lockKept T dev cwd k (appStep T dev cwd s (BeginClose k why)) es \<longrightarrow>
      isClosing k (lifecycle (foldl (appStep T dev cwd) (appStep T dev cwd s (BeginClose k why)) es))
    \<and> isLocked k (lifecycle (foldl (appStep T dev cwd) (appStep T dev cwd s (BeginClose k why)) es))
    \<and> appStep T dev cwd
         (foldl (appStep T dev cwd) (appStep T dev cwd s (BeginClose k why)) es) (PaneRemoved k)
       = foldl (appStep T dev cwd) (appStep T dev cwd s (BeginClose k why)) es)
   \<and> (isClosing k (lifecycle s) \<or> isLocked k (lifecycle s) \<longrightarrow>
        appPanes (onPaneRemoved dev cwd k s) = appPanes s
      \<and> savedPanes (onPaneRemoved dev cwd k s) = savedPanes s
      \<and> onPaneRemoved dev cwd k s = s)"
proof -
  let ?s0 = "appStep T dev cwd s (BeginClose k why)"
  have l0: "isLocked k (lifecycle ?s0)" by (simp add: beginClose_locks)
  have a: "isLocked k (lifecycle (foldl (appStep T dev cwd) ?s0 es))"
    if "lockKept T dev cwd k ?s0 es"
    using l0 that by (rule lockKept_run)
  have b: "isClosing k locks = isLocked k locks" for locks
    by (simp add: isClosing_def isLocked_def)
  show ?thesis
    using a by (auto simp: b onPaneRemoved_fenced)
qed

theorem close_fences_pane_removed_witness:
  "lockKept 30 False ''/repo'' ''dmux-1''
     (appStep 30 False ''/repo'' examplePaneApp (BeginClose ''dmux-1'' ''close action: kill_only''))
     [Advance 10, BeginClose ''%1'' ''close action: kill_only'', CleanupStale]
   \<and> appPanes (foldl (appStep 30 False ''/repo'')
        (appStep 30 False ''/repo'' examplePaneApp (BeginClose ''dmux-1'' ''close action: kill_only''))
        [Advance 10, BeginClose ''%1'' ''close action: kill_only'', CleanupStale, PaneRemoved ''dmux-1''])
      = [mkPane ''x'' (Some ''/repo/.dmux/worktrees/x'')]
   \<and> savedPanes (foldl (appStep 30 False ''/repo'')
        (appStep 30 False ''/repo'' examplePaneApp (BeginClose ''dmux-1'' ''close action: kill_only''))
        [Advance 10, BeginClose ''%1'' ''close action: kill_only'', CleanupStale, PaneRemoved ''dmux-1''])
      = []
   \<and> savedPanes (appStep 30 False ''/repo'' examplePaneApp (PaneRemoved ''dmux-1'')) = [[]]"
proof -
  let ?s0 = "appStep 30 False ''/repo'' examplePaneApp (BeginClose ''dmux-1'' ''close action: kill_only'')"
  let ?es = "[Advance 10, BeginClose ''%1'' ''close action: kill_only'', CleanupStale]"
  have k: "lockKept 30 False ''/repo'' ''dmux-1'' ?s0 ?es"
    by (simp add: endsLock_def examplePaneApp_def beginClose_def)
  from close_fences_pane_removed [of 30 False "''/repo''" "''dmux-1''" examplePaneApp
         "''close action: kill_only''" ?es] k
  have e: "appStep 30 False ''/repo'' (foldl (appStep 30 False ''/repo'') ?s0 ?es) (PaneRemoved ''dmux-1'')
           = foldl (appStep 30 False ''/repo'') ?s0 ?es"
    by blast
  have f: "foldl (appStep 30 False ''/repo'') ?s0 (?es @ [PaneRemoved ''dmux-1''])
           = foldl (appStep 30 False ''/repo'') ?s0 ?es"
    using e by (simp del: appStep.simps)
  have p: "appPanes (foldl (appStep 30 False ''/repo'') ?s0 ?es) = [mkPane ''x'' (Some ''/repo/.dmux/worktrees/x'')]"
    "savedPanes (foldl (appStep 30 False ''/repo'') ?s0 ?es) = []"
    by (simp_all add: examplePaneApp_def)
  have u: "savedPanes (appStep 30 False ''/repo'' examplePaneApp (PaneRemoved ''dmux-1'')) = [[]]"
    by (simp add: onPaneRemoved_def isClosing_def isLocked_def savePanes_def examplePaneApp_def
          mkPane_def Let_def)
  from k f p u show ?thesis by simp
qed

section \<open>Properties of the reconciliation pass\<close>

lemma titleToId_Some:
  "titleToIdOf live s = Some i \<Longrightarrow> \<exists>lp \<in> set live. lpTitle lp = s \<and> lpId lp = i"
  unfolding titleToIdOf_def by (auto dest!: map_of_SomeD)


lemma rebind_live: "paneId p \<in> set ids \<Longrightarrow> rebindPaneByTitle p t ids = p"
  by (simp add: rebindPaneByTitle_def)

lemma rebind_all_live: "set (map paneId ps) \<subseteq> set ids \<Longrightarrow> map (\<lambda>p. rebindPaneByTitle p t ids) ps = ps"
  by (induction ps) (simp_all add: rebind_live)

lemma rebind_result:
  "paneId (rebindPaneByTitle p (titleToIdOf live) (allPaneIdsOf live)) \<in> set (allPaneIdsOf live)
   \<or> (paneId p \<notin> set (allPaneIdsOf live)
       \<and> rebindPaneByTitle p (titleToIdOf live) (allPaneIdsOf live) = p)"
  by (auto simp: rebindPaneByTitle_def allPaneIdsOf_def split: option.splits dest!: titleToId_Some)

lemma recreate_length: "length (fst (recreateKilledWorktreePanes f ids ps live)) = length ps"
  by (induction ps arbitrary: live) (simp_all add: Let_def)

lemma recreate_live_mono:
  "set (allPaneIdsOf live) \<subseteq> set (allPaneIdsOf (snd (recreateKilledWorktreePanes f ids ps live)))"
proof (induction ps arbitrary: live)
  case Nil
  then show ?case by simp
next
  case (Cons p ps)
  show ?case
  proof (cases "paneId p \<in> set ids")
    case True
    then show ?thesis using Cons.IH [of live] by (simp add: Let_def)
  next
    case False
    let ?c = "\<lparr>lpId = f (allPaneIdsOf live), lpTitle = [],
               lpCwd = (case worktreePath p of Some wp \<Rightarrow> wp | None \<Rightarrow> [])\<rparr>"
    have "set (allPaneIdsOf live) \<subseteq> set (allPaneIdsOf (live @ [?c]))"
      by (auto simp: allPaneIdsOf_def)
    with Cons.IH [of "live @ [?c]"] False show ?thesis
      by (auto simp: Let_def)
  qed
qed

lemma recreate_tracked:
  "set ids \<subseteq> set (allPaneIdsOf live) \<Longrightarrow>
   set (map paneId (fst (recreateKilledWorktreePanes f ids ps live)))
     \<subseteq> set (allPaneIdsOf (snd (recreateKilledWorktreePanes f ids ps live)))"
proof (induction ps arbitrary: live)
  case Nil
  then show ?case by simp
next
  case (Cons p ps)
  show ?case
  proof (cases "paneId p \<in> set ids")
    case True
    have "paneId p \<in> set (allPaneIdsOf (snd (recreateKilledWorktreePanes f ids ps live)))"
      using True Cons.prems recreate_live_mono [of live f ids ps] by blast
    with True Cons.IH [OF Cons.prems] show ?thesis by (simp add: Let_def)
  next
    case False
    let ?c = "\<lparr>lpId = f (allPaneIdsOf live), lpTitle = [],
               lpCwd = (case worktreePath p of Some wp \<Rightarrow> wp | None \<Rightarrow> [])\<rparr>"
    have sub: "set ids \<subseteq> set (allPaneIdsOf (live @ [?c]))"
      using Cons.prems by (auto simp: allPaneIdsOf_def)
    have "f (allPaneIdsOf live) \<in> set (allPaneIdsOf (live @ [?c]))"
      by (simp add: allPaneIdsOf_def)
    then have "f (allPaneIdsOf live)
               \<in> set (allPaneIdsOf (snd (recreateKilledWorktreePanes f ids ps (live @ [?c]))))"
      using recreate_live_mono [of "live @ [?c]" f ids ps] by blast
    with False Cons.IH [OF sub] show ?thesis by (simp add: Let_def)
  qed
qed

lemma recreate_cover:
  "set (allPaneIdsOf (snd (recreateKilledWorktreePanes f ids ps live)))
     \<subseteq> set (allPaneIdsOf live) \<union> set (map paneId (fst (recreateKilledWorktreePanes f ids ps live)))"
proof (induction ps arbitrary: live)
  case Nil
  then show ?case by simp
next
  case (Cons p ps)
  show ?case
  proof (cases "paneId p \<in> set ids")
    case True
    then show ?thesis using Cons.IH [of live] by (auto simp: Let_def)
  next
    case False
    let ?c = "\<lparr>lpId = f (allPaneIdsOf live), lpTitle = [],
               lpCwd = (case worktreePath p of Some wp \<Rightarrow> wp | None \<Rightarrow> [])\<rparr>"
    have "set (allPaneIdsOf (live @ [?c])) = insert (f (allPaneIdsOf live)) (set (allPaneIdsOf live))"
      by (simp add: allPaneIdsOf_def)
    with False Cons.IH [of "live @ [?c]"] show ?thesis by (auto simp: Let_def)
  qed
qed

lemma recreate_noop:
  "set (map paneId ps) \<subseteq> set ids \<Longrightarrow> recreateKilledWorktreePanes f ids ps live = (ps, live)"
  by (induction ps arbitrary: live) (simp_all add: Let_def)

lemma enforce_ids: "allPaneIdsOf (enforcePaneTitles ps live) = allPaneIdsOf live"
  by (simp add: enforcePaneTitles_def allPaneIdsOf_def comp_def split: option.splits cong: map_cong)

lemma detect_sync:
  assumes "set (map paneId tracked) \<subseteq> set (allPaneIdsOf live)"
    and "set (allPaneIdsOf live) \<subseteq> set ids \<union> set (map paneId tracked)"
  shows "set (map paneId (fst (detectAndAddShellPanes tracked ids live))) = set (allPaneIdsOf live)"
  using assms
  by (auto simp: detectAndAddShellPanes_def Let_def adoptShellPane_def allPaneIdsOf_def)




lemma reconcile_eq:
  "reconcilePanes n w =
     (let r = recreateKilledWorktreePanes n (allPaneIdsOf (livePanes w))
                (activePanes (rebindAndFilterPanes (stateFile w) (titleToIdOf (livePanes w))
                   (allPaneIdsOf (livePanes w)))) (livePanes w);
          detected = detectAndAddShellPanes (fst r) (allPaneIdsOf (livePanes w)) (snd r)
      in \<lparr>rcLoaded = stateFile w, rcFinal = fst detected, rcAdded = snd detected,
          rcRemoved = shellPanesRemoved (rebindAndFilterPanes (stateFile w)
                        (titleToIdOf (livePanes w)) (allPaneIdsOf (livePanes w))),
          rcLive = enforcePaneTitles (fst detected) (snd r)\<rparr>)"
proof -
  let ?ids = "allPaneIdsOf (livePanes w)"
  let ?rb = "rebindAndFilterPanes (stateFile w) (titleToIdOf (livePanes w)) ?ids"
  let ?r = "recreateKilledWorktreePanes n ?ids (activePanes ?rb) (livePanes w)"
  show ?thesis
  proof (cases "worktreePanesToRecreate ?rb = []")
    case True
    then have "set (map paneId (activePanes ?rb)) \<subseteq> set ?ids"
      by (auto simp: rebindAndFilterPanes_def Let_def filter_empty_conv)
    then have "?r = (activePanes ?rb, livePanes w)" by (rule recreate_noop)
    then show ?thesis using True by (simp add: reconcilePanes_def Let_def)
  next
    case False
    have "set (map paneId (fst ?r)) \<subseteq> set (allPaneIdsOf (snd ?r))"
      by (rule recreate_tracked) simp
    then have "map (\<lambda>p. rebindPaneByTitle p (titleToIdOf (snd ?r)) (allPaneIdsOf (snd ?r))) (fst ?r)
               = fst ?r"
      by (rule rebind_all_live)
    then show ?thesis using False by (simp add: reconcilePanes_def Let_def)
  qed
qed








lemma exampleNewPaneId_plain: "plainId (exampleNewPaneId used)"
  by (simp add: exampleNewPaneId_def plainId_def)

subsection \<open>Two passes in succession\<close>

lemma reconcile_flags:
  "reconcilePanes n (w\<lparr>isLoadingPanes := a, pendingLoad := b\<rparr>) = reconcilePanes n w"
  by (simp add: reconcilePanes_def Let_def)

lemma loadPanes_pass:
  assumes "initialLoadComplete w" and "\<not> isLoadingPanes w"
  shows "fileWrites (loadPanes n False w) = fileWrites (loadPanesPass n w)"
    and "stateFile (loadPanes n False w) = stateFile (loadPanesPass n w)"
    and "panesRef (loadPanes n False w) = panesRef (loadPanesPass n w)"
    and "livePanes (loadPanes n False w) = livePanes (loadPanesPass n w)"
    and "initialLoadComplete (loadPanes n False w)"
    and "\<not> isLoadingPanes (loadPanes n False w)"
  using assms by (simp_all add: loadPanes_def loadPanesPass_def reconcile_flags Let_def)

lemma idsChangedIn_same: "\<not> idsChangedIn ps ps"
  by (auto simp: idsChangedIn_def list_ex_iff zip_same)

lemma reconcile_in_sync:
  assumes "set (map paneId (stateFile w)) = set (allPaneIdsOf (livePanes w))"
  shows "rcFinal (reconcilePanes n w) = stateFile w \<and> \<not> rcAdded (reconcilePanes n w)
         \<and> \<not> rcRemoved (reconcilePanes n w) \<and> rcLoaded (reconcilePanes n w) = stateFile w"
proof -
  let ?live = "livePanes w"
  let ?ids = "allPaneIdsOf ?live"
  have sub: "set (map paneId (stateFile w)) \<subseteq> set ?ids" using assms by simp
  have rb: "map (\<lambda>p. rebindPaneByTitle p (titleToIdOf ?live) ?ids) (stateFile w) = stateFile w"
    using sub by (rule rebind_all_live)
  have all: "\<forall>p \<in> set (stateFile w). paneId p \<in> set ?ids" using sub by auto
  have act: "activePanes (rebindAndFilterPanes (stateFile w) (titleToIdOf ?live) ?ids)
             = stateFile w"
    using all by (simp add: rebindAndFilterPanes_def Let_def rb)
  have rem: "\<not> shellPanesRemoved (rebindAndFilterPanes (stateFile w) (titleToIdOf ?live) ?ids)"
    using all by (simp add: rebindAndFilterPanes_def Let_def rb list_ex_iff)
  have rec: "recreateKilledWorktreePanes n ?ids (stateFile w) ?live = (stateFile w, ?live)"
    using sub by (rule recreate_noop)
  have det: "detectAndAddShellPanes (stateFile w) ?ids ?live = (stateFile w, False)"
    using assms by (simp add: detectAndAddShellPanes_def Let_def allPaneIdsOf_def filter_empty_conv)
  show ?thesis
    using rem by (simp add: reconcile_eq Let_def act rec det)
qed

lemma pass_in_sync:
  assumes "set (map paneId (stateFile w)) = set (allPaneIdsOf (livePanes w))"
  shows "fileWrites (loadPanesPass n w) = fileWrites w \<and> stateFile (loadPanesPass n w) = stateFile w"
  using reconcile_in_sync [OF assms, of n]
  by (simp add: loadPanesPass_def Let_def idsChangedIn_same)

lemma joinComma_take:
  "CHR '','' \<notin> set x \<Longrightarrow> takeWhile (\<lambda>c. c \<noteq> CHR '','') (joinComma (x # xs)) = x"
  by (cases xs) (auto simp: takeWhile_eq_all_conv takeWhile_tail)

lemma joinComma_drop:
  "CHR '','' \<notin> set x \<Longrightarrow>
   dropWhile (\<lambda>c. c \<noteq> CHR '','') (joinComma (x # xs))
     = (if xs = [] then [] else CHR '','' # joinComma xs)"
  by (cases xs) (auto simp: dropWhile_eq_Nil_conv dropWhile_append3)

lemma joinComma_Nil: "[] \<notin> set xs \<Longrightarrow> joinComma xs = [] \<longleftrightarrow> xs = []"
  by (cases xs rule: joinComma.cases) auto

lemma joinComma_inj:
  assumes "\<forall>x \<in> set xs. x \<noteq> [] \<and> CHR '','' \<notin> set x"
    and "\<forall>y \<in> set ys. y \<noteq> [] \<and> CHR '','' \<notin> set y"
    and "joinComma xs = joinComma ys"
  shows "xs = ys"
  using assms
proof (induction xs arbitrary: ys)
  case Nil
  then have "[] \<notin> set ys" by auto
  from joinComma_Nil [OF this] Nil.prems(3) show ?case by simp
next
  case (Cons x xs)
  have "[] \<notin> set (x # xs)" using Cons.prems(1) by auto
  from joinComma_Nil [OF this] have ne: "joinComma (x # xs) \<noteq> []" by simp
  then obtain y ys' where ys: "ys = y # ys'" using Cons.prems(3) by (cases ys) auto
  have cx: "CHR '','' \<notin> set x" and cy: "CHR '','' \<notin> set y"
    using Cons.prems(1,2) ys by auto
  have eq: "joinComma (x # xs) = joinComma (y # ys')" using Cons.prems(3) ys by simp
  have xy: "x = y"
    using arg_cong [OF eq, of "takeWhile (\<lambda>c. c \<noteq> CHR '','')"]
    by (simp only: joinComma_take [OF cx] joinComma_take [OF cy])
  have d: "(if xs = [] then [] else CHR '','' # joinComma xs)
         = (if ys' = [] then [] else CHR '','' # joinComma ys')"
    using arg_cong [OF eq, of "dropWhile (\<lambda>c. c \<noteq> CHR '','')"]
    by (simp only: joinComma_drop [OF cx] joinComma_drop [OF cy])
  have "xs = ys'"
  proof (cases "xs = []")
    case True
    then show ?thesis using d by (simp split: if_splits)
  next
    case False
    then have "ys' \<noteq> []" and "joinComma xs = joinComma ys'"
      using d by (simp_all split: if_splits)
    then show ?thesis using Cons.IH [of ys'] Cons.prems(1,2) ys by simp
  qed
  then show ?case using xy ys by simp
qed

lemma dropWhile_absent: "c \<notin> set xs \<Longrightarrow> dropWhile (\<lambda>d. d \<noteq> c) xs = []"
  by (auto simp: dropWhile_eq_Nil_conv)

lemma paneKey_paneId:
  "CHR '':'' \<notin> set (ident p) \<Longrightarrow>
   tl (dropWhile (\<lambda>c. c \<noteq> CHR '':'') (ident p @ '':'' @ paneId p)) = paneId p"
  by (simp add: dropWhile_append3 dropWhile_absent)

lemma paneIdsKey_set:
  assumes ps: "list_all (\<lambda>p. plainId (ident p) \<and> plainId (paneId p)) ps"
    and qs: "list_all (\<lambda>p. plainId (ident p) \<and> plainId (paneId p)) qs"
    and eq: "paneIdsKey ps = paneIdsKey qs"
  shows "set (map paneId ps) = set (map paneId qs)"
proof -
  let ?key = "\<lambda>p. ident p @ '':'' @ paneId p"
  let ?g = "\<lambda>k. tl (dropWhile (\<lambda>c. c \<noteq> CHR '':'') k)"
  have a: "\<forall>x \<in> set (sort (map ?key ps)). x \<noteq> [] \<and> CHR '','' \<notin> set x"
    using ps by (auto simp: list_all_iff plainId_def)
  have b: "\<forall>x \<in> set (sort (map ?key qs)). x \<noteq> [] \<and> CHR '','' \<notin> set x"
    using qs by (auto simp: list_all_iff plainId_def)
  have "sort (map ?key ps) = sort (map ?key qs)"
    using joinComma_inj [OF a b] eq by (simp add: paneIdsKey_def)
  then have "set (sort (map ?key ps)) = set (sort (map ?key qs))" by simp
  then have s: "?key ` set ps = ?key ` set qs" by simp
  have gp: "\<forall>p \<in> set ps. ?g (?key p) = paneId p"
    using ps by (auto simp: list_all_iff plainId_def dropWhile_append3 dropWhile_absent)
  have gq: "\<forall>p \<in> set qs. ?g (?key p) = paneId p"
    using qs by (auto simp: list_all_iff plainId_def dropWhile_append3 dropWhile_absent)
  have "paneId ` set ps = ?g ` (?key ` set ps)" using gp by (force simp: image_iff)
  also have "\<dots> = ?g ` (?key ` set qs)" using s by simp
  also have "\<dots> = paneId ` set qs" using gq by (force simp: image_iff)
  finally show ?thesis by simp
qed

lemma rebind_plain:
  assumes "list_all (\<lambda>lp. plainId (lpId lp)) live"
    and "plainId (ident p) \<and> plainId (paneId p)"
  shows "plainId (ident (rebindPaneByTitle p (titleToIdOf live) (allPaneIdsOf live)))
         \<and> plainId (paneId (rebindPaneByTitle p (titleToIdOf live) (allPaneIdsOf live)))"
  using assms
  by (auto simp: rebindPaneByTitle_def list_all_iff split: option.splits dest!: titleToId_Some)

lemma recreate_plain:
  assumes "\<forall>used. plainId (n used)"
  shows "list_all (\<lambda>p. plainId (ident p) \<and> plainId (paneId p)) ps \<Longrightarrow>
         list_all (\<lambda>p. plainId (ident p) \<and> plainId (paneId p))
           (fst (recreateKilledWorktreePanes n ids ps live))"
  using assms by (induction ps arbitrary: live) (simp_all add: Let_def)

lemma plainId_adopt:
  "plainId (lpId lp) \<Longrightarrow>
   plainId (ident (adoptShellPane lp)) \<and> plainId (paneId (adoptShellPane lp))"
  by (simp add: adoptShellPane_def plainId_def)

lemma final_plain:
  assumes "plainIds w" and "\<forall>used. plainId (n used)"
  shows "list_all (\<lambda>p. plainId (ident p) \<and> plainId (paneId p)) (rcFinal (reconcilePanes n w))"
proof -
  let ?live = "livePanes w"
  let ?ids = "allPaneIdsOf ?live"
  let ?pl = "\<lambda>p. plainId (ident p) \<and> plainId (paneId p)"
  let ?rb = "rebindAndFilterPanes (stateFile w) (titleToIdOf ?live) ?ids"
  let ?r = "recreateKilledWorktreePanes n ?ids (activePanes ?rb) ?live"
  have lv: "list_all (\<lambda>lp. plainId (lpId lp)) ?live" and st: "list_all ?pl (stateFile w)"
    using assms(1) by (simp_all add: plainIds_def)
  have "list_all ?pl (map (\<lambda>p. rebindPaneByTitle p (titleToIdOf ?live) ?ids) (stateFile w))"
    using st rebind_plain [OF lv] by (simp add: list_all_iff)
  then have "list_all ?pl (activePanes ?rb)"
    by (auto simp: rebindAndFilterPanes_def Let_def list_all_iff)
  then have a: "list_all ?pl (fst ?r)" by (rule recreate_plain [OF assms(2)])
  have b: "list_all ?pl (map adoptShellPane
             (filter (\<lambda>lp. lpId lp \<in> set ?ids \<and> lpId lp \<notin> set (map paneId (fst ?r))) (snd ?r)))"
  proof -
    have "\<forall>lp. lpId lp \<in> set ?ids \<longrightarrow> plainId (lpId lp)"
      using lv by (auto simp: list_all_iff allPaneIdsOf_def)
    then show ?thesis using plainId_adopt by (auto simp: list_all_iff)
  qed
  show ?thesis
    using a b by (simp add: reconcile_eq Let_def detectAndAddShellPanes_def)
qed

lemma final_tracks_live:
  "set (map paneId (rcFinal (reconcilePanes n w))) = set (allPaneIdsOf (rcLive (reconcilePanes n w)))"
proof -
  let ?live = "livePanes w"
  let ?ids = "allPaneIdsOf ?live"
  let ?rb = "rebindAndFilterPanes (stateFile w) (titleToIdOf ?live) ?ids"
  let ?r = "recreateKilledWorktreePanes n ?ids (activePanes ?rb) ?live"
  have a: "set (map paneId (fst ?r)) \<subseteq> set (allPaneIdsOf (snd ?r))"
    by (rule recreate_tracked) simp
  have b: "set (allPaneIdsOf (snd ?r)) \<subseteq> set ?ids \<union> set (map paneId (fst ?r))"
    by (rule recreate_cover)
  have "set (map paneId (fst (detectAndAddShellPanes (fst ?r) ?ids (snd ?r))))
        = set (allPaneIdsOf (snd ?r))"
    using a b by (rule detect_sync)
  then show ?thesis by (simp add: reconcile_eq Let_def enforce_ids)
qed

lemma recreate_pointwise:
  "list_all2 (\<lambda>a b. \<exists>i. a = b\<lparr>paneId := i\<rparr>) (fst (recreateKilledWorktreePanes n ids ps live)) ps"
proof (induction ps arbitrary: live)
  case Nil
  then show ?case by simp
next
  case (Cons p ps)
  have "\<exists>i. p = p\<lparr>paneId := i\<rparr>" by (rule exI [of _ "paneId p"]) simp
  then show ?case using Cons.IH by (auto simp: Let_def)
qed

lemma rebind_pointwise:
  "list_all2 (\<lambda>a b. \<exists>i. a = b\<lparr>paneId := i\<rparr>) (map (\<lambda>p. rebindPaneByTitle p t ids) ps) ps"
proof (induction ps)
  case Nil
  then show ?case by simp
next
  case (Cons p ps)
  have "\<exists>i. p = p\<lparr>paneId := i\<rparr>" by (rule exI [of _ "paneId p"]) simp
  then show ?case using Cons.IH by (auto simp: rebindPaneByTitle_def split: option.splits)
qed

lemma pointwise_same:
  "list_all2 (\<lambda>a b. \<exists>i. a = b\<lparr>paneId := i\<rparr>) xs ys \<Longrightarrow> \<not> idsChangedIn xs ys \<Longrightarrow> xs = ys"
proof (induction rule: list_all2_induct)
  case Nil
  then show ?case by simp
next
  case (Cons x xs y ys)
  from Cons.hyps(1) obtain i where i: "x = y\<lparr>paneId := i\<rparr>" by blast
  have "paneId y = paneId x" and "\<not> idsChangedIn xs ys"
    using Cons.prems by (simp_all add: idsChangedIn_def)
  then show ?case using Cons.IH i by simp
qed

lemma quiet_final:
  assumes "\<not> rcAdded (reconcilePanes n w)" and "\<not> rcRemoved (reconcilePanes n w)"
    and "\<not> idsChangedIn (rcFinal (reconcilePanes n w)) (rcLoaded (reconcilePanes n w))"
  shows "rcFinal (reconcilePanes n w) = stateFile w"
proof -
  let ?live = "livePanes w"
  let ?ids = "allPaneIdsOf ?live"
  let ?rebound = "map (\<lambda>p. rebindPaneByTitle p (titleToIdOf ?live) ?ids) (stateFile w)"
  let ?rb = "rebindAndFilterPanes (stateFile w) (titleToIdOf ?live) ?ids"
  let ?r = "recreateKilledWorktreePanes n ?ids (activePanes ?rb) ?live"
  have "\<not> shellPanesRemoved ?rb" using assms(2) by (simp add: reconcile_eq Let_def)
  then have act: "activePanes ?rb = ?rebound"
    by (auto simp: rebindAndFilterPanes_def Let_def list_ex_iff filter_id_conv)
  have fin: "rcFinal (reconcilePanes n w) = fst ?r"
    using assms(1) by (simp add: reconcile_eq Let_def detectAndAddShellPanes_def)
  have "list_all2 (\<lambda>a b. \<exists>i. a = b\<lparr>paneId := i\<rparr>) (fst ?r) ?rebound"
    unfolding act by (rule recreate_pointwise)
  from list_all2_trans [OF _ this rebind_pointwise, of "\<lambda>a b. \<exists>i. a = b\<lparr>paneId := i\<rparr>"]
  have "list_all2 (\<lambda>a b. \<exists>i. a = b\<lparr>paneId := i\<rparr>) (fst ?r) (stateFile w)"
    by fastforce
  moreover have "\<not> idsChangedIn (fst ?r) (stateFile w)"
    using assms(3) fin by (simp add: reconcile_eq Let_def)
  ultimately have "fst ?r = stateFile w" by (rule pointwise_same)
  then show ?thesis using fin by simp
qed

lemma pass_cases:
  "livePanes (loadPanesPass n w) = rcLive (reconcilePanes n w)"
  "(paneIdsKey (panesRef w) \<noteq> paneIdsKey (rcFinal (reconcilePanes n w))
      \<or> rcAdded (reconcilePanes n w) \<or> rcRemoved (reconcilePanes n w))
   \<and> (idsChangedIn (rcFinal (reconcilePanes n w)) (rcLoaded (reconcilePanes n w))
      \<or> rcAdded (reconcilePanes n w) \<or> rcRemoved (reconcilePanes n w)) \<Longrightarrow>
   stateFile (loadPanesPass n w) = rcFinal (reconcilePanes n w)
   \<and> panesRef (loadPanesPass n w) = rcFinal (reconcilePanes n w)
   \<and> fileWrites (loadPanesPass n w) = fileWrites w + 1"
  "(paneIdsKey (panesRef w) \<noteq> paneIdsKey (rcFinal (reconcilePanes n w))
      \<or> rcAdded (reconcilePanes n w) \<or> rcRemoved (reconcilePanes n w))
   \<and> \<not> (idsChangedIn (rcFinal (reconcilePanes n w)) (rcLoaded (reconcilePanes n w))
      \<or> rcAdded (reconcilePanes n w) \<or> rcRemoved (reconcilePanes n w)) \<Longrightarrow>
   stateFile (loadPanesPass n w) = stateFile w
   \<and> panesRef (loadPanesPass n w) = rcFinal (reconcilePanes n w)
   \<and> fileWrites (loadPanesPass n w) = fileWrites w"
  "\<not> (paneIdsKey (panesRef w) \<noteq> paneIdsKey (rcFinal (reconcilePanes n w))
      \<or> rcAdded (reconcilePanes n w) \<or> rcRemoved (reconcilePanes n w)) \<Longrightarrow>
   stateFile (loadPanesPass n w) = stateFile w
   \<and> panesRef (loadPanesPass n w) = panesRef w
   \<and> fileWrites (loadPanesPass n w) = fileWrites w"
  by (auto simp: loadPanesPass_def Let_def)

lemma pass_syncs:
  assumes ref: "panesRef w = stateFile w" and pl: "plainIds w"
    and al: "\<forall>used. plainId (n used)"
  shows "set (map paneId (stateFile (loadPanesPass n w)))
           = set (allPaneIdsOf (livePanes (loadPanesPass n w)))
         \<and> panesRef (loadPanesPass n w) = stateFile (loadPanesPass n w)
         \<and> plainIds (loadPanesPass n w)"
proof -
  let ?rc = "reconcilePanes n w"
  let ?pl = "\<lambda>p. plainId (ident p) \<and> plainId (paneId p)"
  let ?outer = "paneIdsKey (panesRef w) \<noteq> paneIdsKey (rcFinal ?rc) \<or> rcAdded ?rc \<or> rcRemoved ?rc"
  let ?inner = "idsChangedIn (rcFinal ?rc) (rcLoaded ?rc) \<or> rcAdded ?rc \<or> rcRemoved ?rc"
  have fp: "list_all ?pl (rcFinal ?rc)" using pl al by (rule final_plain)
  have sp: "list_all ?pl (stateFile w)" using pl by (simp add: plainIds_def)
  have s1: "set (map paneId (rcFinal ?rc)) = set (allPaneIdsOf (rcLive ?rc))"
    by (rule final_tracks_live)
  have lp: "list_all (\<lambda>lp. plainId (lpId lp)) (rcLive ?rc)"
  proof -
    have "\<forall>i \<in> set (map paneId (rcFinal ?rc)). plainId i" using fp by (simp add: list_all_iff)
    then have "\<forall>i \<in> set (allPaneIdsOf (rcLive ?rc)). plainId i" unfolding s1 .
    then show ?thesis by (simp add: list_all_iff allPaneIdsOf_def)
  qed
  consider (written) "?outer \<and> ?inner" | (memory) "?outer \<and> \<not> ?inner" | (still) "\<not> ?outer"
    by blast
  then show ?thesis
  proof cases
    case written
    from pass_cases(2) [OF this] show ?thesis
      using s1 fp lp by (simp add: pass_cases(1) plainIds_def)
  next
    case memory
    then have "rcFinal ?rc = stateFile w" by (intro quiet_final) simp_all
    with pass_cases(3) [OF memory] show ?thesis
      using s1 sp lp by (simp add: pass_cases(1) plainIds_def)
  next
    case still
    then have "paneIdsKey (stateFile w) = paneIdsKey (rcFinal ?rc)" using ref by simp
    from paneIdsKey_set [OF sp fp this]
    have "set (map paneId (stateFile w)) = set (allPaneIdsOf (rcLive ?rc))" using s1 by simp
    with pass_cases(4) [OF still] show ?thesis
      using ref sp lp by (simp add: pass_cases(1) plainIds_def)
  qed
qed

lemma plainIds_flags:
  "plainIds (w\<lparr>isLoadingPanes := a\<rparr>) = plainIds w"
  "plainIds (w\<lparr>pendingLoad := b\<rparr>) = plainIds w"
  by (simp_all add: plainIds_def)

lemma loadPanes_plain:
  assumes "initialLoadComplete w" and "\<not> isLoadingPanes w"
  shows "plainIds (loadPanes n False w) = plainIds (loadPanesPass n w)"
  using loadPanes_pass(2,4) [OF assms, of n] by (simp add: plainIds_def)

text \<open>
  C3, as the code has it. After the initial load, with the in-memory collection equal to
  the state file (as the initial load and every pass leave it) and ids free of commas and
  colons, two calls of \<open>loadPanes\<close> in succession leave the state file after the second
  call as it was after the first, and the second call writes nothing. A pass that finds
  no pane id remapped, no shell pane removed and no untracked pane added writes nothing.
  The conditions on the world hold again after the call, so the same is true of any
  further call.
\<close>

theorem second_pass_writes_nothing:
  assumes "initialLoadComplete w" and "\<not> isLoadingPanes w"
    and "panesRef w = stateFile w" and "plainIds w"
    and "\<forall>used. plainId (newPaneId used)"
  shows "fileWrites (loadPanes newPaneId skip (loadPanes newPaneId skip w))
           = fileWrites (loadPanes newPaneId skip w)
    \<and> stateFile (loadPanes newPaneId skip (loadPanes newPaneId skip w))
           = stateFile (loadPanes newPaneId skip w)
    \<and> (\<not> idsChangedIn (rcFinal (reconcilePanes newPaneId w)) (rcLoaded (reconcilePanes newPaneId w))
         \<and> \<not> rcRemoved (reconcilePanes newPaneId w) \<and> \<not> rcAdded (reconcilePanes newPaneId w)
       \<longrightarrow> fileWrites (loadPanes newPaneId skip w) = fileWrites w
           \<and> stateFile (loadPanes newPaneId skip w) = stateFile w)
    \<and> initialLoadComplete (loadPanes newPaneId skip w)
    \<and> \<not> isLoadingPanes (loadPanes newPaneId skip w)
    \<and> panesRef (loadPanes newPaneId skip w) = stateFile (loadPanes newPaneId skip w)
    \<and> plainIds (loadPanes newPaneId skip w)"
proof (cases skip)
  case True
  then show ?thesis using assms by (simp add: loadPanes_def)
next
  case False
  let ?w = "loadPanes newPaneId False w"
  let ?rc = "reconcilePanes newPaneId w"
  note one = loadPanes_pass [OF assms(1,2), of newPaneId]
  note sync = pass_syncs [OF assms(3,4,5)]
  have i: "initialLoadComplete ?w" and l: "\<not> isLoadingPanes ?w" by (rule one(5), rule one(6))
  note two = loadPanes_pass [OF i l, of newPaneId]
  have "set (map paneId (stateFile ?w)) = set (allPaneIdsOf (livePanes ?w))"
    using sync by (simp add: one)
  from pass_in_sync [OF this, of newPaneId]
  have a: "fileWrites (loadPanes newPaneId False ?w) = fileWrites ?w"
    and b: "stateFile (loadPanes newPaneId False ?w) = stateFile ?w"
    by (simp_all add: two)
  have c: "\<not> idsChangedIn (rcFinal ?rc) (rcLoaded ?rc) \<and> \<not> rcRemoved ?rc \<and> \<not> rcAdded ?rc
           \<longrightarrow> fileWrites ?w = fileWrites w \<and> stateFile ?w = stateFile w"
    by (simp add: one loadPanesPass_def Let_def)
  have d: "panesRef ?w = stateFile ?w" using sync by (simp add: one)
  have e: "plainIds ?w" using sync by (simp add: loadPanes_plain [OF assms(1,2)])
  show ?thesis using a b c d e i l False by simp
qed

text \<open>
  C3, as stated, fails at start-up: the first call of \<open>loadPanes\<close> is the initial load,
  which takes the loaded collection as it is and looks for no untracked pane. With one
  pane that no record tracks and nothing changing in between, the first call writes
  nothing and the second call adopts the pane and writes the state file.
\<close>

theorem second_call_adopts_and_writes:
  "fileWrites (loadPanes exampleNewPaneId False worldAtStart) = 0
   \<and> stateFile (loadPanes exampleNewPaneId False worldAtStart) = stateFile worldAtStart
   \<and> livePanes (loadPanes exampleNewPaneId False worldAtStart) = livePanes worldAtStart
   \<and> fileWrites (loadPanes exampleNewPaneId False
                   (loadPanes exampleNewPaneId False worldAtStart)) = 1"
proof -
  have one: "loadPanes exampleNewPaneId False worldAtStart
             = worldAtStart\<lparr>initialLoadComplete := True\<rparr>"
    by (simp add: loadPanes_def worldAtStart_def)
  have rc: "rcAdded (reconcilePanes exampleNewPaneId (worldAtStart\<lparr>initialLoadComplete := True\<rparr>))"
    by (simp add: reconcilePanes_def worldAtStart_def rebindAndFilterPanes_def
        detectAndAddShellPanes_def allPaneIdsOf_def Let_def)
  have i: "initialLoadComplete (worldAtStart\<lparr>initialLoadComplete := True\<rparr>)"
    and l: "\<not> isLoadingPanes (worldAtStart\<lparr>initialLoadComplete := True\<rparr>)"
    by (simp_all add: worldAtStart_def)
  have "fileWrites (loadPanesPass exampleNewPaneId (worldAtStart\<lparr>initialLoadComplete := True\<rparr>))
        = fileWrites (worldAtStart\<lparr>initialLoadComplete := True\<rparr>) + 1"
    using rc by (simp add: pass_cases(2))
  then have two: "fileWrites (loadPanes exampleNewPaneId False
                                (worldAtStart\<lparr>initialLoadComplete := True\<rparr>)) = 1"
    unfolding loadPanes_pass(1) [OF i l] by (simp add: worldAtStart_def)
  show ?thesis using two unfolding one by (simp add: worldAtStart_def)
qed

theorem second_pass_writes_nothing_witness:
  "initialLoadComplete worldAfterKill \<and> \<not> isLoadingPanes worldAfterKill
   \<and> panesRef worldAfterKill = stateFile worldAfterKill \<and> plainIds worldAfterKill
   \<and> fileWrites (loadPanes exampleNewPaneId False worldAfterKill) = 1
   \<and> fileWrites (loadPanes exampleNewPaneId False
                   (loadPanes exampleNewPaneId False worldAfterKill)) = 1"
proof -
  have h1: "initialLoadComplete worldAfterKill" by (simp add: worldAfterKill_def)
  have h2: "\<not> isLoadingPanes worldAfterKill" by (simp add: worldAfterKill_def)
  have h3: "panesRef worldAfterKill = stateFile worldAfterKill" by (simp add: worldAfterKill_def)
  have h4: "plainIds worldAfterKill"
    by (simp add: worldAfterKill_def plainIds_def plainId_def paneX_def paneY_def paneSh_def)
  have h5: "\<forall>used. plainId (exampleNewPaneId used)" by (simp add: exampleNewPaneId_plain)
  note t = second_pass_writes_nothing [OF h1 h2 h3 h4 h5, of False]
  have rm: "rcRemoved (reconcilePanes exampleNewPaneId worldAfterKill)"
    by (simp add: reconcilePanes_def worldAfterKill_def rebindAndFilterPanes_def
        rebindPaneByTitle_def titleToIdOf_def allPaneIdsOf_def isShellPane_def
        paneX_def paneY_def paneSh_def Let_def)
  have "fileWrites (loadPanesPass exampleNewPaneId worldAfterKill) = fileWrites worldAfterKill + 1"
    using rm by (simp add: pass_cases(2))
  then have one: "fileWrites (loadPanes exampleNewPaneId False worldAfterKill) = 1"
    unfolding loadPanes_pass(1) [OF h1 h2] by (simp add: worldAfterKill_def)
  show ?thesis using h1 h2 h3 h4 one t [THEN conjunct1] by simp
qed

subsection \<open>A worktree record whose pane is gone\<close>









end
